theory Spec2Isabelle
  imports Main
begin

section \<open>JavaScript strings and numbers used by the validators\<close>

text \<open>
  Strings are lists of 8-bit characters: code units below 256. Among these the white
  space of \<open>trim\<close> is the six ASCII characters and the no-break space. \<open>toLowerCase\<close>
  below maps the letters \<open>A\<close> to \<open>Z\<close>; it is used where the code compares the lower-cased
  string with an ASCII word (a tag name, \<open>email\<close>, \<open>previous\<close>, \<open>back\<close>), and the other
  capitals among these code units lower-case to characters outside ASCII, so the outcome
  of these comparisons is that of \<open>String.prototype.toLowerCase\<close>. Where the lower-cased
  string itself is kept (a file extension), the host function is a component of the module
  state, see \<open>hostToLowerCase\<close>.
\<close>

definition isWhiteSpace :: "char \<Rightarrow> bool" where
  "isWhiteSpace c \<longleftrightarrow>
     c \<in> set [CHR 0x09, CHR 0x0A, CHR 0x0B, CHR 0x0C, CHR 0x0D, CHR 0x20, CHR 0xA0]"

text \<open>\<open>String.prototype.trim\<close>: white space is removed at both ends.\<close>

definition trim :: "string \<Rightarrow> string" where
  "trim s = rev (dropWhile isWhiteSpace (rev (dropWhile isWhiteSpace s)))"

definition isDigit :: "char \<Rightarrow> bool" where
  "isDigit c \<longleftrightarrow> c \<in> set ''0123456789''"

definition toLowerChar :: "char \<Rightarrow> char" where
  "toLowerChar c =
     (case map_of (zip ''ABCDEFGHIJKLMNOPQRSTUVWXYZ'' ''abcdefghijklmnopqrstuvwxyz'') c of
        Some l \<Rightarrow> l
      | None \<Rightarrow> c)"

definition toLowerCase :: "string \<Rightarrow> string" where
  "toLowerCase s = map toLowerChar s"

text \<open>\<open>s.split(sep)\<close> for a one-character separator; the result is never empty.\<close>

fun splitOn :: "char \<Rightarrow> string \<Rightarrow> string list" where
  "splitOn sep [] = [[]]"
| "splitOn sep (c # cs) =
     (if c = sep then [] # splitOn sep cs
      else (case splitOn sep cs of
              [] \<Rightarrow> [[c]]
            | x # xs \<Rightarrow> (c # x) # xs))"

text \<open>\<open>xs.join(sep)\<close>.\<close>

fun joinWith :: "string \<Rightarrow> string list \<Rightarrow> string" where
  "joinWith sep [] = []"
| "joinWith sep [x] = x"
| "joinWith sep (x # y # ys) = x @ sep @ joinWith sep (y # ys)"

text \<open>Decimal rendering of an integer, as a template literal renders a number.\<close>

definition digitChar :: "nat \<Rightarrow> char" where
  "digitChar d = ''0123456789'' ! (d mod 10)"

function showNat :: "nat \<Rightarrow> string" where
  "showNat n = (if n < 10 then [digitChar n] else showNat (n div 10) @ [digitChar n])"
  by pat_completeness auto
termination
  by (relation "measure id") auto

declare showNat.simps [simp del]

definition showInt :: "int \<Rightarrow> string" where
  "showInt i = (if i < 0 then CHR ''-'' # showNat (nat (- i)) else showNat (nat i))"

text \<open>
  \<open>parseInt(s)\<close> without a radix: leading white space is skipped, a sign is read, a
  \<open>0x\<close> prefix selects radix 16, and the longest prefix of digits is the value.
  \<open>None\<close> is \<open>NaN\<close> (also the result for a \<open>null\<close> attribute).
\<close>

fun indexOf :: "char \<Rightarrow> string \<Rightarrow> nat option" where
  "indexOf c [] = None"
| "indexOf c (x # xs) =
     (if c = x then Some 0 else map_option Suc (indexOf c xs))"

definition digitValue :: "nat \<Rightarrow> char \<Rightarrow> nat option" where
  "digitValue radix c =
     (case indexOf (toLowerChar c) ''0123456789abcdef'' of
        Some d \<Rightarrow> if d < radix then Some d else None
      | None \<Rightarrow> None)"

fun leadingDigits :: "nat \<Rightarrow> string \<Rightarrow> nat list" where
  "leadingDigits radix [] = []"
| "leadingDigits radix (c # cs) =
     (case digitValue radix c of
        Some d \<Rightarrow> d # leadingDigits radix cs
      | None \<Rightarrow> [])"

definition digitsValue :: "nat \<Rightarrow> nat list \<Rightarrow> nat" where
  "digitsValue radix ds = foldl (\<lambda>acc d. acc * radix + d) 0 ds"

definition parseUnsigned :: "string \<Rightarrow> nat option" where
  "parseUnsigned s =
     (let (radix, body) =
            (case s of
               c0 # c1 # rest \<Rightarrow>
                 if c0 = CHR ''0'' \<and> (c1 = CHR ''x'' \<or> c1 = CHR ''X'') then (16, rest)
                 else (10, s)
             | _ \<Rightarrow> (10, s));
          ds = leadingDigits radix body
      in if ds = [] then None else Some (digitsValue radix ds))"

definition parseInt :: "string option \<Rightarrow> int option" where
  "parseInt a =
     (case a of
        None \<Rightarrow> None
      | Some s \<Rightarrow>
          (case dropWhile isWhiteSpace s of
             [] \<Rightarrow> None
           | c # cs \<Rightarrow>
               if c = CHR ''-'' then map_option (\<lambda>n. - int n) (parseUnsigned cs)
               else if c = CHR ''+'' then map_option int (parseUnsigned cs)
               else map_option int (parseUnsigned (c # cs))))"

text \<open>\<open>x || d\<close> for a number \<open>x\<close>: \<open>NaN\<close> and \<open>0\<close> are falsy.\<close>

definition orDefault :: "int option \<Rightarrow> int \<Rightarrow> int" where
  "orDefault x d = (case x of None \<Rightarrow> d | Some n \<Rightarrow> if n = 0 then d else n)"

section \<open>Form fields\<close>

text \<open>
  A field is an \<open>input\<close>, \<open>select\<close> or \<open>textarea\<close> element, with the properties and
  attributes the validators read. \<open>uid\<close> is the identity of the element object (what
  \<open>===\<close> compares). Three entries record what the code obtains from outside the element:
  \<open>fieldLabel\<close> is the string that \<open>HubSpotFormValidator.getFieldLabel\<close> resolves for it
  (the label search walks the surrounding markup and the layout geometry);
  \<open>patternResult\<close> is the outcome of \<open>field.value.match(new RegExp(field.pattern))\<close>
  (\<open>Some True\<close> a match, \<open>Some False\<close> none, \<open>None\<close> when the constructor throws);
  \<open>inFormFieldContainer\<close> tells whether \<open>closest('.hsfc-FormField, .hs-form-field')\<close>
  finds a container. \<open>limitEnforcedAttr\<close> is the marker attribute
  \<open>data-character-limit-enforced\<close>.
\<close>

record upload_file =
  fileName :: string
  fileSize :: nat

record field =
  uid :: nat
  tagName :: string
  fieldType :: string
  nameAttr :: "string option"
  idAttr :: "string option"
  fieldValue :: string
  checked :: bool
  requiredAttr :: bool
  ariaRequired :: "string option"
  dataCharacterLimit :: "string option"
  patternAttr :: "string option"
  patternResult :: "bool option"
  limitEnforcedAttr :: bool
  inFormFieldContainer :: bool
  files :: "upload_file list option"
  fieldLabel :: string

text \<open>The \<open>name\<close> property: the attribute, or the empty string without one.\<close>

definition fieldName :: "field \<Rightarrow> string" where
  "fieldName f = (case nameAttr f of None \<Rightarrow> [] | Some n \<Rightarrow> n)"

text \<open>The \<open>id\<close> property, likewise.\<close>

definition fieldId :: "field \<Rightarrow> string" where
  "fieldId f = (case idAttr f of None \<Rightarrow> [] | Some n \<Rightarrow> n)"

definition sameElement :: "field \<Rightarrow> field \<Rightarrow> bool" where
  "sameElement f g \<longleftrightarrow> uid f = uid g"

definition isFormControl :: "field \<Rightarrow> bool" where
  "isFormControl f \<longleftrightarrow> toLowerCase (tagName f) \<in> set [''input'', ''select'', ''textarea'']"

definition isTextarea :: "field \<Rightarrow> bool" where
  "isTextarea f \<longleftrightarrow> toLowerCase (tagName f) = ''textarea''"

text \<open>\<open>s.includes(sub)\<close>\<close>

fun startsWith :: "string \<Rightarrow> string \<Rightarrow> bool" where
  "startsWith s [] = True"
| "startsWith [] (p # ps) = False"
| "startsWith (c # cs) (p # ps) = (c = p \<and> startsWith cs ps)"

fun includesStr :: "string \<Rightarrow> string \<Rightarrow> bool" where
  "includesStr [] sub = (sub = [])"
| "includesStr (c # cs) sub = (startsWith (c # cs) sub \<or> includesStr cs sub)"

section \<open>Exceptions\<close>

text \<open>
  The exceptions that the modelled code can raise: the \<open>TypeError\<close> of reading a property
  of \<open>undefined\<close>, and the two DOM exceptions of \<open>insertBefore\<close> and \<open>appendChild\<close>. A
  function that can throw returns \<open>Inl\<close> with the exception, and \<open>Inr\<close> with its value when
  it returns.
\<close>

datatype domException = NotFoundError | HierarchyRequestError

datatype exception = TypeError | DOMException domException

section \<open>Module configuration\<close>

text \<open>
  The mutable module state that \<open>init\<close> configures: \<open>CharacterLimitValidator.DEFAULT_LIMIT\<close>
  and \<open>FileUploadValidator._config\<close>, together with what the getters of
  \<open>FileUploadValidator\<close> read from outside the module. \<open>importMetaEnv\<close> is the object
  \<open>import.meta.env\<close>: Vite defines it when it bundles the module, and it is \<open>undefined\<close>
  (\<open>None\<close>) where nothing defines it; the repository's own Rollup configuration defines
  nothing for it. In it, \<open>envAllowedExtensions\<close> is the variable
  \<open>VITE_UPLOAD_ALLOWED_EXTENSIONS\<close> and \<open>envMaxSizeBytes\<close> is the number that the
  \<open>maxFileSize\<close> getter computes from \<open>VITE_UPLOAD_MAX_SIZE\<close> (\<open>None\<close> when the variable is
  unset or empty). \<open>formatFileSize\<close> is the display function of the same name. That
  number and this function go through floating-point arithmetic, which is not embedded, so
  they are carried as given.
  \<open>hostToLowerCase\<close> is \<open>String.prototype.toLowerCase\<close> as the getters and \<open>validateFile\<close>
  apply it to file extensions, carried as given as well: its case mapping of the
  characters outside ASCII is not embedded.
\<close>

record buildEnv =
  envAllowedExtensions :: "string option"
  envMaxSizeBytes :: "nat option"

record settings =
  DEFAULT_LIMIT :: int
  cfgAllowedExtensions :: "string list option"
  cfgMaxFileSize :: "nat option"
  importMetaEnv :: "buildEnv option"
  formatFileSize :: "nat \<Rightarrow> string"
  hostToLowerCase :: "string \<Rightarrow> string"

record initOptions =
  optCharacterLimit :: "int option"
  optAllowedExtensions :: "string list option"
  optMaxFileSize :: "nat option"

text \<open>The configuration step of \<open>init(options)\<close>: each option is applied when truthy.\<close>

definition init :: "initOptions \<Rightarrow> settings \<Rightarrow> settings" where
  "init options st =
     (let st1 = (case optCharacterLimit options of
                   Some n \<Rightarrow> if n \<noteq> 0 then st\<lparr>DEFAULT_LIMIT := n\<rparr> else st
                 | None \<Rightarrow> st);
          st2 = (case optAllowedExtensions options of
                   Some exts \<Rightarrow> st1\<lparr>cfgAllowedExtensions := Some exts\<rparr>
                 | None \<Rightarrow> st1);
          st3 = (case optMaxFileSize options of
                   Some m \<Rightarrow> if m \<noteq> 0 then st2\<lparr>cfgMaxFileSize := Some m\<rparr> else st2
                 | None \<Rightarrow> st2)
      in st3)"

section \<open>FileUploadValidator\<close>

text \<open>
  The two getters. Each returns the runtime configuration when it is truthy, and
  otherwise reads its variable from \<open>import.meta.env\<close>, which throws a \<open>TypeError\<close> when
  \<open>import.meta.env\<close> is \<open>undefined\<close>; the hard-coded default is returned when the variable
  is unset or empty.
\<close>

definition allowedExtensions :: "settings \<Rightarrow> exception + string list" where
  "allowedExtensions st =
     (case cfgAllowedExtensions st of
        Some exts \<Rightarrow> Inr exts
      | None \<Rightarrow>
          (case importMetaEnv st of
             None \<Rightarrow> Inl TypeError
           | Some env \<Rightarrow>
               (case envAllowedExtensions env of
                  Some (c # cs) \<Rightarrow>
                    Inr (map (\<lambda>ext. hostToLowerCase st (trim ext)) (splitOn CHR '','' (c # cs)))
                | _ \<Rightarrow>
                    Inr [''pdf'', ''doc'', ''docx'', ''jpg'', ''jpeg'', ''png'', ''gif'',
                         ''txt''])))"

definition maxFileSize :: "settings \<Rightarrow> exception + nat" where
  "maxFileSize st =
     (case (if cfgMaxFileSize st = Some 0 then None else cfgMaxFileSize st) of
        Some m \<Rightarrow> Inr m
      | None \<Rightarrow>
          (case importMetaEnv st of
             None \<Rightarrow> Inl TypeError
           | Some env \<Rightarrow>
               (case envMaxSizeBytes env of
                  Some b \<Rightarrow> Inr b
                | None \<Rightarrow> Inr (10 * 1024 * 1024))))"

record validation =
  valid :: bool
  errors :: "string list"

text \<open>\<open>file.name.split('.').pop().toLowerCase()\<close>\<close>

definition fileExtension :: "settings \<Rightarrow> upload_file \<Rightarrow> string" where
  "fileExtension st f = hostToLowerCase st (last (splitOn CHR ''.'' (fileName f)))"

text \<open>
  The two error strings, for the values \<open>maxSize\<close> and \<open>allowed\<close> that the getters return
  when the template literal evaluates them again.
\<close>

definition sizeError :: "settings \<Rightarrow> nat \<Rightarrow> upload_file \<Rightarrow> string" where
  "sizeError st maxSize f =
     ''File \"'' @ fileName f @ ''\" size exceeds '' @ formatFileSize st maxSize @ '' limit''"

definition typeError :: "settings \<Rightarrow> string list \<Rightarrow> upload_file \<Rightarrow> string" where
  "typeError st allowed f =
     ''File \"'' @ fileName f @ ''\" type \".'' @ fileExtension st f
       @ ''\" is not allowed. Allowed types: ''
       @ joinWith '', '' (map (\<lambda>ext. ''.'' @ ext) allowed)"

text \<open>
  The loop over \<open>fileInput.files\<close>, pushing onto \<open>errors\<close>. Each iteration reads
  \<open>this.maxFileSize\<close> for the size test and then \<open>this.allowedExtensions\<close> for the extension
  test; an exception leaves the loop and the method.
\<close>

fun validateEachFile ::
  "settings \<Rightarrow> upload_file list \<Rightarrow> string list \<Rightarrow> exception + string list" where
  "validateEachFile st [] errs = Inr errs"
| "validateEachFile st (f # fs) errs =
     (case maxFileSize st of
        Inl e \<Rightarrow> Inl e
      | Inr maxSize \<Rightarrow>
          (let errs1 = (if fileSize f > maxSize then errs @ [sizeError st maxSize f] else errs)
           in case allowedExtensions st of
                Inl e \<Rightarrow> Inl e
              | Inr allowed \<Rightarrow>
                  (let errs2 = (if fileExtension st f \<notin> set allowed
                                then errs1 @ [typeError st allowed f] else errs1)
                   in validateEachFile st fs errs2)))"

definition validateFile :: "settings \<Rightarrow> field \<Rightarrow> exception + validation" where
  "validateFile st fileInput =
     (case files fileInput of
        None \<Rightarrow> Inr \<lparr>valid = True, errors = []\<rparr>
      | Some fs \<Rightarrow>
          if length fs = 0 then Inr \<lparr>valid = True, errors = []\<rparr>
          else (case validateEachFile st fs [] of
                  Inl e \<Rightarrow> Inl e
                | Inr errs \<Rightarrow> Inr \<lparr>valid = (length errs = 0), errors = errs\<rparr>))"

section \<open>FieldValidator\<close>

text \<open>
  \<open>container.querySelectorAll('input[name="..."]')\<close>: the \<open>input\<close> elements of the
  container whose \<open>name\<close> attribute equals the field's \<open>name\<close> property. The container is
  given by its fields in document order.
\<close>

definition getFieldGroup :: "field \<Rightarrow> field list \<Rightarrow> field list" where
  "getFieldGroup f container =
     filter (\<lambda>g. toLowerCase (tagName g) = ''input'' \<and> nameAttr g = Some (fieldName f)) container"

definition validateCheckboxField :: "field \<Rightarrow> field list \<Rightarrow> bool" where
  "validateCheckboxField f container =
     (let checkboxGroup = getFieldGroup f container
      in if length checkboxGroup > 1 then list_ex checked checkboxGroup else checked f)"

definition validateRadioField :: "field \<Rightarrow> field list \<Rightarrow> bool" where
  "validateRadioField f container = list_ex checked (getFieldGroup f container)"

text \<open>The test of the regular expression \<open>/^\+\d{0,3}$/\<close>.\<close>

fun digitsUpTo :: "nat \<Rightarrow> string \<Rightarrow> bool" where
  "digitsUpTo n [] = True"
| "digitsUpTo 0 (c # cs) = False"
| "digitsUpTo (Suc n) (c # cs) = (isDigit c \<and> digitsUpTo n cs)"

definition testPlusDigits :: "string \<Rightarrow> bool" where
  "testPlusDigits s = (case s of [] \<Rightarrow> False | c # cs \<Rightarrow> c = CHR ''+'' \<and> digitsUpTo 3 cs)"

text \<open>The result of \<open>_validateTelField\<close> is used as a truth value.\<close>

definition validateTelField :: "field \<Rightarrow> bool" where
  "validateTelField f =
     (let v = trim (fieldValue f)
      in v \<noteq> [] \<and> \<not> testPlusDigits v \<and> v \<noteq> ''+'')"

definition validateFileField :: "settings \<Rightarrow> field \<Rightarrow> exception + bool" where
  "validateFileField st f =
     (if files f = None \<or> files f = Some []
      then Inr (\<not> requiredAttr f \<and> ariaRequired f \<noteq> Some ''true'')
      else (case validateFile st f of
              Inl e \<Rightarrow> Inl e
            | Inr validation \<Rightarrow> Inr (valid validation)))"

definition validateTextBasedField :: "field \<Rightarrow> bool" where
  "validateTextBasedField f =
     (let hasContent = (fieldValue f \<noteq> [] \<and> trim (fieldValue f) \<noteq> [])
      in if toLowerCase (tagName f) = ''textarea''
         then (let characterLimit = orDefault (parseInt (dataCharacterLimit f)) 500;
                   isWithinLimit = (int (length (fieldValue f)) \<le> characterLimit)
               in hasContent \<and> isWithinLimit)
         else hasContent)"

text \<open>
  Of the five validations only that of a file input can throw: it calls
  \<open>FileUploadValidator.validateFile\<close>.
\<close>

definition isFieldValid :: "settings \<Rightarrow> field \<Rightarrow> field list \<Rightarrow> exception + bool" where
  "isFieldValid st f container =
     (if fieldType f = ''checkbox'' then Inr (validateCheckboxField f container)
      else if fieldType f = ''radio'' then Inr (validateRadioField f container)
      else if fieldType f = ''tel'' then Inr (validateTelField f)
      else if fieldType f = ''file'' then validateFileField st f
      else Inr (validateTextBasedField f))"

definition isFieldInvalid :: "settings \<Rightarrow> field \<Rightarrow> field list \<Rightarrow> exception + bool" where
  "isFieldInvalid st f container =
     (case isFieldValid st f container of
        Inl e \<Rightarrow> Inl e
      | Inr ok \<Rightarrow> Inr (\<not> ok))"

definition needsValidation :: "settings \<Rightarrow> field \<Rightarrow> field list \<Rightarrow> exception + bool" where
  "needsValidation st f container = isFieldInvalid st f container"

section \<open>CharacterLimitValidator\<close>

record counter =
  textContent :: string
  className :: string

definition updateCharacterCounter :: "field \<Rightarrow> counter \<Rightarrow> int \<Rightarrow> counter" where
  "updateCharacterCounter textarea cnt characterLimit =
     (let currentLength = int (length (fieldValue textarea));
          remaining = characterLimit - currentLength;
          cnt1 = cnt\<lparr>textContent :=
                   showInt currentLength @ ''/'' @ showInt characterLimit @ '' characters''\<rparr>
      in if remaining = 0
         then cnt1\<lparr>className := ''hsfc-CharacterCounter hsfc-CharacterCounter--danger''\<rparr>
         else if remaining \<le> 20
         then cnt1\<lparr>className := ''hsfc-CharacterCounter hsfc-CharacterCounter--warning''\<rparr>
         else cnt1\<lparr>className := ''hsfc-CharacterCounter hsfc-CharacterCounter--default''\<rparr>)"

definition hasCharacterLimitError :: "settings \<Rightarrow> field \<Rightarrow> bool" where
  "hasCharacterLimitError st textarea =
     (let characterLimit = orDefault (parseInt (dataCharacterLimit textarea)) (DEFAULT_LIMIT st)
      in int (length (fieldValue textarea)) > characterLimit)"

text \<open>\<open>getFieldLabel(textarea) || 'Text area'\<close>, then the message, or \<open>null\<close>.\<close>

definition getCharacterLimitErrorMessage :: "settings \<Rightarrow> field \<Rightarrow> string option" where
  "getCharacterLimitErrorMessage st textarea =
     (let characterLimit = orDefault (parseInt (dataCharacterLimit textarea)) (DEFAULT_LIMIT st);
          currentLength = int (length (fieldValue textarea))
      in if currentLength > characterLimit
         then (let overBy = currentLength - characterLimit;
                   label = (if fieldLabel textarea = [] then ''Text area'' else fieldLabel textarea)
               in Some (label @ '': Must be '' @ showInt characterLimit
                          @ '' characters or less (currently '' @ showInt overBy @ '' over)''))
         else None)"

section \<open>Steps and forms\<close>

text \<open>
  A step is read through selector queries. The snapshot holds what those queries return:
  the step's fields in document order, its \<open>.hsfc-ErrorAlert\<close> elements other than the
  synthesized summary, its navigation-row buttons, and the summary itself. For an error
  alert, \<open>alertVisible\<close> is the result of \<open>isElementVisible\<close> (layout and computed style)
  and \<open>alertField\<close> is the element that the six-strategy search \<open>findFieldForError\<close>
  returns for it. \<open>summaryVisible\<close> is what \<open>isElementVisible\<close> gives for the summary
  block while it is in the step.

  An \<open>anchor\<close> tells where a node found by a descendant query sits relative to the
  step content: \<open>insertBefore\<close> accepts a reference node only when it is a child, and
  throws a \<open>NotFoundError\<close> for one nested deeper. \<open>repositionedBar\<close> is the anchor of
  the element with class \<open>hsfc-ProgressBar--repositioned\<close>, and \<open>firstFormField\<close> the
  anchor of what \<open>findFirstFormField\<close> returns for the step content.
  \<open>contentDisplayFlex\<close> tells whether the step content is displayed as a flex box, and
  the two fallback-class entries whether the step and its content carry the classes
  \<open>hsfc-step-with-validation-and-progress\<close> and
  \<open>hsfc-content-with-validation-and-progress\<close>.
\<close>

record errorAlert =
  alertVisible :: bool
  alertText :: string
  alertField :: "field option"

record button =
  buttonId :: nat
  buttonText :: string

record problem =
  problemField :: field
  description :: string

record summary =
  summaryHeading :: string
  summaryLinks :: "problem list"

datatype anchor = Absent | Child | Nested

datatype placement = BeforeProgressBar | BeforeFirstFormField | Appended

record step =
  displayNone :: bool
  visibilityHidden :: bool
  opacityZero :: bool
  stepFields :: "field list"
  alerts :: "errorAlert list"
  navigationButtons :: "button list"
  errorSummary :: "summary option"
  summaryPlacement :: "placement option"
  summaryVisible :: bool
  hasErrorSummaryAttr :: bool
  repositionedBar :: anchor
  firstFormField :: anchor
  contentDisplayFlex :: bool
  stepFallbackClass :: bool
  contentFallbackClass :: bool

section \<open>HubSpotFormValidator\<close>

definition isRequiredField :: "field \<Rightarrow> bool" where
  "isRequiredField f \<longleftrightarrow>
     isFormControl f \<and> (requiredAttr f \<or> ariaRequired f = Some ''true'')"

definition isNotPreviousButton :: "button \<Rightarrow> bool" where
  "isNotPreviousButton b =
     (let txt = toLowerCase (trim (buttonText b))
      in \<not> includesStr txt ''previous'' \<and> \<not> includesStr txt ''back'')"

definition findNavigationButton :: "step \<Rightarrow> button option" where
  "findNavigationButton s = find isNotPreviousButton (navigationButtons s)"

definition isGroupField :: "field \<Rightarrow> bool" where
  "isGroupField f \<longleftrightarrow> fieldType f = ''radio'' \<or> fieldType f = ''checkbox''"

text \<open>The computed-style test by which \<open>validateVisibleStep\<close> finds the visible step.\<close>

definition computedVisible :: "step \<Rightarrow> bool" where
  "computedVisible s \<longleftrightarrow> \<not> displayNone s \<and> \<not> visibilityHidden s \<and> \<not> opacityZero s"

definition hasVisibleNativeErrors :: "step \<Rightarrow> bool" where
  "hasVisibleNativeErrors s =
     list_ex (\<lambda>errorEl. alertVisible errorEl \<and> trim (alertText errorEl) \<noteq> []) (alerts s)"

text \<open>
  \<open>summaryText\<close> is the \<open>textContent\<close> of the summary block: the heading followed by the
  link texts.
\<close>

definition summaryText :: "summary \<Rightarrow> string" where
  "summaryText sm = summaryHeading sm @ concat (map description (summaryLinks sm))"

text \<open>
  \<open>.hsfc-ErrorAlert\<close> elements of a step, visible and with text: the summary block
  carries that class as well.
\<close>

definition hasVisibleErrors :: "step \<Rightarrow> bool" where
  "hasVisibleErrors s \<longleftrightarrow>
     hasVisibleNativeErrors s
     \<or> (case errorSummary s of
          None \<Rightarrow> False
        | Some sm \<Rightarrow> summaryVisible s \<and> trim (summaryText sm) \<noteq> [])"

text \<open>The \<open>filter\<close> with the set \<open>processedFieldGroups\<close>.\<close>

fun fieldsToValidate :: "field list \<Rightarrow> string list \<Rightarrow> field list" where
  "fieldsToValidate [] processedFieldGroups = []"
| "fieldsToValidate (f # fs) processedFieldGroups =
     (if isGroupField f
      then (if fieldName f \<in> set processedFieldGroups
            then fieldsToValidate fs processedFieldGroups
            else f # fieldsToValidate fs (fieldName f # processedFieldGroups))
      else f # fieldsToValidate fs processedFieldGroups)"

text \<open>\<open>fieldsToValidate.every(isFieldValid)\<close>, which stops at the first invalid field.\<close>

fun allRequiredFilled :: "settings \<Rightarrow> field list \<Rightarrow> field list \<Rightarrow> exception + bool" where
  "allRequiredFilled st container [] = Inr True"
| "allRequiredFilled st container (f # fs) =
     (case isFieldValid st f container of
        Inl e \<Rightarrow> Inl e
      | Inr ok \<Rightarrow> if ok then allRequiredFilled st container fs else Inr False)"

definition validateStep :: "settings \<Rightarrow> step \<Rightarrow> exception + bool" where
  "validateStep st visibleStep =
     (case findNavigationButton visibleStep of
        None \<Rightarrow> Inr False
      | Some nextButton \<Rightarrow>
          if hasVisibleErrors visibleStep then Inr False
          else (let requiredFields = filter isRequiredField (stepFields visibleStep)
                in if length requiredFields = 0 then Inr True
                   else allRequiredFilled st (stepFields visibleStep)
                          (fieldsToValidate requiredFields [])))"

definition validateVisibleStep :: "settings \<Rightarrow> step list \<Rightarrow> exception + bool" where
  "validateVisibleStep st formSteps =
     (case find computedVisible formSteps of
        None \<Rightarrow> Inr False
      | Some visibleStep \<Rightarrow> validateStep st visibleStep)"

text \<open>\<open>getFieldLabel(field) || `Field "${field.name || field.id || 'unknown'}"`\<close>\<close>

definition labelOrName :: "field \<Rightarrow> string" where
  "labelOrName f =
     (if fieldLabel f \<noteq> [] then fieldLabel f
      else ''Field \"''
           @ (if fieldName f \<noteq> [] then fieldName f
              else if fieldId f \<noteq> [] then fieldId f
              else ''unknown'')
           @ ''\"'')"

definition alreadyFound :: "problem list \<Rightarrow> field \<Rightarrow> bool" where
  "alreadyFound fieldsWithErrors f =
     list_ex (\<lambda>p. sameElement (problemField p) f) fieldsWithErrors"

text \<open>The test of \<open>/^[^\s@]+@[^\s@]+\.[^\s@]+$/\<close> on the trimmed value.\<close>

definition isAddressChar :: "char \<Rightarrow> bool" where
  "isAddressChar c \<longleftrightarrow> \<not> isWhiteSpace c \<and> c \<noteq> CHR ''@''"

definition isValidEmail :: "string \<Rightarrow> bool" where
  "isValidEmail email =
     (let t = trim email;
          localPart = takeWhile isAddressChar t;
          rest = dropWhile isAddressChar t
      in localPart \<noteq> []
         \<and> (case rest of
              [] \<Rightarrow> False
            | c # domain \<Rightarrow>
                c = CHR ''@''
                \<and> list_all isAddressChar domain
                \<and> list_ex (\<lambda>i. domain ! i = CHR ''.'') [1 ..< length domain - 1]))"

definition isEmailLike :: "field \<Rightarrow> bool" where
  "isEmailLike f \<longleftrightarrow>
     fieldType f = ''email'' \<or> includesStr (toLowerCase (fieldName f)) ''email''"

definition hasValue :: "field \<Rightarrow> bool" where
  "hasValue f \<longleftrightarrow> fieldValue f \<noteq> [] \<and> trim (fieldValue f) \<noteq> []"

text \<open>The five passes of \<open>getFieldsWithErrors\<close>, each pushing onto \<open>fieldsWithErrors\<close>.\<close>

fun collectNativeErrors :: "errorAlert list \<Rightarrow> problem list \<Rightarrow> problem list" where
  "collectNativeErrors [] acc = acc"
| "collectNativeErrors (errorEl # rest) acc =
     collectNativeErrors rest
       (if alertVisible errorEl \<and> trim (alertText errorEl) \<noteq> []
        then (case alertField errorEl of
                Some f \<Rightarrow>
                  acc @ [\<lparr>problemField = f,
                          description = labelOrName f @ '': '' @ trim (alertText errorEl)\<rparr>]
              | None \<Rightarrow> acc)
        else acc)"

fun collectCharacterLimitErrors ::
  "settings \<Rightarrow> field list \<Rightarrow> problem list \<Rightarrow> problem list" where
  "collectCharacterLimitErrors st [] acc = acc"
| "collectCharacterLimitErrors st (textarea # rest) acc =
     collectCharacterLimitErrors st rest
       (if hasCharacterLimitError st textarea
        then (case getCharacterLimitErrorMessage st textarea of
                Some errorMessage \<Rightarrow>
                  if errorMessage \<noteq> [] \<and> \<not> alreadyFound acc textarea
                  then acc @ [\<lparr>problemField = textarea, description = errorMessage\<rparr>]
                  else acc
              | None \<Rightarrow> acc)
        else acc)"

fun collectRequiredErrors ::
  "settings \<Rightarrow> field list \<Rightarrow> field list \<Rightarrow> string list \<Rightarrow> problem list
    \<Rightarrow> exception + problem list" where
  "collectRequiredErrors st container [] processedFieldGroups acc = Inr acc"
| "collectRequiredErrors st container (f # rest) processedFieldGroups acc =
     (if isGroupField f \<and> fieldName f \<in> set processedFieldGroups
      then collectRequiredErrors st container rest processedFieldGroups acc
      else (case isFieldInvalid st f container of
              Inl e \<Rightarrow> Inl e
            | Inr invalid \<Rightarrow>
                collectRequiredErrors st container rest
                  (if isGroupField f then fieldName f # processedFieldGroups
                   else processedFieldGroups)
                  (if invalid \<and> \<not> alreadyFound acc f
                   then acc @ [\<lparr>problemField = f,
                                description =
                                  labelOrName f @ '': Please complete this required field.''\<rparr>]
                   else acc)))"

fun collectFormatErrors :: "field list \<Rightarrow> problem list \<Rightarrow> problem list" where
  "collectFormatErrors [] acc = acc"
| "collectFormatErrors (f # rest) acc =
     (if alreadyFound acc f \<or> \<not> hasValue f
      then collectFormatErrors rest acc
      else (let formatError =
                  (if isEmailLike f
                   then (if \<not> isValidEmail (fieldValue f)
                         then Some (labelOrName f @ '' must be formatted correctly'')
                         else None)
                   else if patternAttr f \<noteq> None
                   then (if patternResult f = Some False
                         then Some (labelOrName f @ '' must be formatted correctly'')
                         else None)
                   else None)
            in collectFormatErrors rest
                 (case formatError of
                    Some e \<Rightarrow> acc @ [\<lparr>problemField = f, description = e\<rparr>]
                  | None \<Rightarrow> acc)))"

fun collectEmptyEmails :: "field list \<Rightarrow> problem list \<Rightarrow> problem list" where
  "collectEmptyEmails [] acc = acc"
| "collectEmptyEmails (f # rest) acc =
     (if alreadyFound acc f \<or> hasValue f
      then collectEmptyEmails rest acc
      else collectEmptyEmails rest
             (if isEmailLike f
              then acc @ [\<lparr>problemField = f,
                           description =
                             labelOrName f @ '': Please complete this required field.''\<rparr>]
              else acc))"

definition getFieldsWithErrors :: "settings \<Rightarrow> step \<Rightarrow> exception + problem list" where
  "getFieldsWithErrors st s =
     (let acc1 = collectNativeErrors (alerts s) [];
          acc2 = collectCharacterLimitErrors st (filter isTextarea (stepFields s)) acc1
      in case collectRequiredErrors st (stepFields s)
                (filter isRequiredField (stepFields s)) [] acc2 of
           Inl e \<Rightarrow> Inl e
         | Inr acc3 \<Rightarrow>
             (let allFields = filter isFormControl (stepFields s);
                  acc4 = collectFormatErrors allFields acc3;
                  acc5 = collectEmptyEmails allFields acc4
              in Inr acc5))"

text \<open>
  \<open>addFlexboxFallbackClasses\<close> and \<open>removeFlexboxFallbackClasses\<close> of the manager, which
  query the step for a summary and for a repositioned progress bar.
\<close>

definition addFlexboxFallbackClasses :: "step \<Rightarrow> step" where
  "addFlexboxFallbackClasses s =
     (if errorSummary s \<noteq> None \<or> repositionedBar s \<noteq> Absent
      then s\<lparr>stepFallbackClass := True, contentFallbackClass := True\<rparr>
      else s)"

definition removeFlexboxFallbackClasses :: "step \<Rightarrow> step" where
  "removeFlexboxFallbackClasses s =
     (if errorSummary s = None \<and> repositionedBar s = Absent
      then s\<lparr>stepFallbackClass := False, contentFallbackClass := False\<rparr>
      else s)"

definition summaryHeadingFor :: "nat \<Rightarrow> string" where
  "summaryHeadingFor n =
     ''This form contains '' @ showNat n @ '' error'' @ (if n > 1 then ''s'' else [])
       @ ''. Please review the following:''"

text \<open>
  \<open>showValidationError\<close>: \<open>Inr\<close> is the step when the call returns, \<open>Inl\<close> the exception
  with the step as the call leaves it.
\<close>

definition showValidationError :: "settings \<Rightarrow> step \<Rightarrow> (exception \<times> step) + step" where
  "showValidationError st s =
     (let s1 = s\<lparr>errorSummary := None, summaryPlacement := None\<rparr>
      in case getFieldsWithErrors st s1 of
           Inl e \<Rightarrow> Inl (e, s1)
         | Inr fieldsWithErrors \<Rightarrow>
             if length fieldsWithErrors = 0 then Inr s1
             else (let errorDiv =
                         \<lparr>summaryHeading = summaryHeadingFor (length fieldsWithErrors),
                          summaryLinks = fieldsWithErrors\<rparr>;
                       s2 = addFlexboxFallbackClasses (s1\<lparr>contentDisplayFlex := True\<rparr>)
                   in if repositionedBar s2 \<noteq> Absent
                      then (if repositionedBar s2 = Child
                            then Inr (s2\<lparr>errorSummary := Some errorDiv,
                                         summaryPlacement := Some BeforeProgressBar,
                                         hasErrorSummaryAttr := True\<rparr>)
                            else Inl (DOMException NotFoundError, s2))
                      else if firstFormField s2 \<noteq> Absent
                      then (if firstFormField s2 = Child
                            then Inr (s2\<lparr>errorSummary := Some errorDiv,
                                         summaryPlacement := Some BeforeFirstFormField,
                                         hasErrorSummaryAttr := True\<rparr>)
                            else Inl (DOMException NotFoundError, s2))
                      else Inr (s2\<lparr>errorSummary := Some errorDiv,
                                   summaryPlacement := Some Appended,
                                   hasErrorSummaryAttr := True\<rparr>)))"

text \<open>
  The \<open>some\<close> over the required fields with the set \<open>processedFieldGroups\<close>, which
  stops at the first invalid field.
\<close>

fun hasEmptyRequiredFrom ::
  "settings \<Rightarrow> field list \<Rightarrow> field list \<Rightarrow> string list \<Rightarrow> exception + bool" where
  "hasEmptyRequiredFrom st container [] processedFieldGroups = Inr False"
| "hasEmptyRequiredFrom st container (f # rest) processedFieldGroups =
     (if isGroupField f \<and> fieldName f \<in> set processedFieldGroups
      then hasEmptyRequiredFrom st container rest processedFieldGroups
      else (case isFieldInvalid st f container of
              Inl e \<Rightarrow> Inl e
            | Inr invalid \<Rightarrow>
                if invalid then Inr True
                else hasEmptyRequiredFrom st container rest
                       (if isGroupField f then fieldName f # processedFieldGroups
                        else processedFieldGroups)))"

definition hasEmptyRequired :: "settings \<Rightarrow> step \<Rightarrow> exception + bool" where
  "hasEmptyRequired st s =
     hasEmptyRequiredFrom st (stepFields s) (filter isRequiredField (stepFields s)) []"

definition hasCharacterLimitErrors :: "settings \<Rightarrow> step \<Rightarrow> bool" where
  "hasCharacterLimitErrors st s =
     list_ex (hasCharacterLimitError st) (filter isTextarea (stepFields s))"

text \<open>
  \<open>checkAndRemoveErrorSummary\<close> computes its three conditions before it changes the step,
  so an exception leaves the step as it was.
\<close>

definition checkAndRemoveErrorSummary :: "settings \<Rightarrow> step \<Rightarrow> exception + step" where
  "checkAndRemoveErrorSummary st s =
     (case errorSummary s of
        None \<Rightarrow> Inr s
      | Some existing \<Rightarrow>
          (case hasEmptyRequired st s of
             Inl e \<Rightarrow> Inl e
           | Inr emptyRequired \<Rightarrow>
               if \<not> hasVisibleNativeErrors s \<and> \<not> emptyRequired
                  \<and> \<not> hasCharacterLimitErrors st s
               then Inr (removeFlexboxFallbackClasses
                           (s\<lparr>errorSummary := None, summaryPlacement := None,
                              hasErrorSummaryAttr := False\<rparr>))
               else Inr s))"

definition removeValidationError :: "settings \<Rightarrow> step \<Rightarrow> exception + step" where
  "removeValidationError st s = checkAndRemoveErrorSummary st s"

section \<open>HubSpotFormManager: the cleanup bundle\<close>

text \<open>
  The bundle made by \<open>createFormCleanup\<close>. \<open>controllerId\<close> is the identity of its
  \<open>AbortController\<close>, \<open>observers\<close> holds the identities of the mutation observers pushed
  onto it, and a global listener is recorded as element, event type and listener
  function. A step is referred to by its position in the form.
\<close>

record cleanup =
  controllerId :: nat
  aborted :: bool
  observers :: "nat list"
  globalListeners :: "(nat \<times> string \<times> nat) list"
  cachedVisibleStep :: "nat option"
  cacheValid :: bool

fun findIndexFrom :: "('a \<Rightarrow> bool) \<Rightarrow> 'a list \<Rightarrow> nat \<Rightarrow> nat option" where
  "findIndexFrom P [] i = None"
| "findIndexFrom P (x # xs) i = (if P x then Some i else findIndexFrom P xs (Suc i))"

definition getVisibleStep :: "step list \<Rightarrow> cleanup \<Rightarrow> cleanup \<times> nat option" where
  "getVisibleStep formSteps c =
     (if \<not> cacheValid c \<or> cachedVisibleStep c = None
      then (let found = findIndexFrom (\<lambda>s. \<not> displayNone s) formSteps 0
            in (c\<lparr>cachedVisibleStep := found, cacheValid := True\<rparr>, found))
      else (c, cachedVisibleStep c))"

definition invalidateCache :: "cleanup \<Rightarrow> cleanup" where
  "invalidateCache c = c\<lparr>cacheValid := False, cachedVisibleStep := None\<rparr>"

section \<open>HubSpotFormManager: navigation clicks\<close>

text \<open>
  What \<open>triggerFieldValidations\<close> does to a field: the method calls \<open>focus()\<close> and
  \<open>blur()\<close>, and the dispatch of a bubbling event of a given type. The calls made at
  once and the calls deferred by \<open>setTimeout\<close> are collected separately, each with the
  identity of the field.
\<close>

datatype domAction = Focus | Blur | Dispatch string

definition telReplay :: "domAction list" where
  "telReplay = [Focus, Dispatch ''input'', Dispatch ''change'', Blur,
                Dispatch ''invalid'', Dispatch ''keyup'']"

definition standardReplay :: "field \<Rightarrow> domAction list" where
  "standardReplay f =
     [Focus, Blur, Dispatch ''change'', Dispatch ''input'']
     @ (if fieldType f = ''checkbox'' \<or> fieldType f = ''radio''
        then [Dispatch ''invalid''] else [])"

text \<open>
  The loop over the required fields, with the set \<open>processedFieldGroups\<close>. An exception of
  \<open>needsValidation\<close> leaves the loop: the first component of the result is the exception,
  if any, and the calls are those made before it.
\<close>

fun triggerRequired ::
  "settings \<Rightarrow> field list \<Rightarrow> field list \<Rightarrow> string list
    \<Rightarrow> (nat \<times> domAction) list \<times> (nat \<times> domAction) list
    \<Rightarrow> exception option \<times> (nat \<times> domAction) list \<times> (nat \<times> domAction) list" where
  "triggerRequired st container [] processedFieldGroups (now, later) = (None, now, later)"
| "triggerRequired st container (f # rest) processedFieldGroups (now, later) =
     (if isGroupField f \<and> fieldName f \<in> set processedFieldGroups
      then triggerRequired st container rest processedFieldGroups (now, later)
      else (case needsValidation st f container of
              Inl e \<Rightarrow> (Some e, now, later)
            | Inr needed \<Rightarrow>
                triggerRequired st container rest
                  (if isGroupField f then fieldName f # processedFieldGroups
                   else processedFieldGroups)
                  (if needed
                   then (if fieldType f = ''tel''
                         then (now @ map (Pair (uid f)) telReplay,
                               later @ map (Pair (uid f)) [Focus, Blur])
                         else (now @ map (Pair (uid f)) (standardReplay f), later))
                   else (now, later))))"

text \<open>The loop over all fields, which skips the required ones.\<close>

definition otherReplay :: "field \<Rightarrow> domAction list" where
  "otherReplay f =
     (if requiredAttr f \<or> ariaRequired f = Some ''true'' then []
      else (if fieldType f = ''tel'' then telReplay else [])
           @ (if isEmailLike f then [Focus, Blur, Dispatch ''change''] else [])
           @ (if patternAttr f \<noteq> None \<and> fieldValue f \<noteq> []
              then [Focus, Blur, Dispatch ''change''] else []))"

definition triggerFieldValidations ::
  "settings \<Rightarrow> step
    \<Rightarrow> exception option \<times> (nat \<times> domAction) list \<times> (nat \<times> domAction) list" where
  "triggerFieldValidations st s =
     (case triggerRequired st (stepFields s) (filter isRequiredField (stepFields s)) []
             ([], []) of
        (Some e, now, later) \<Rightarrow> (Some e, now, later)
      | (None, now, later) \<Rightarrow>
          (let allFields = filter isFormControl (stepFields s)
           in (None, now @ concat (map (\<lambda>f. map (Pair (uid f)) (otherReplay f)) allFields),
               later)))"

text \<open>
  A click event: \<open>targetStep\<close> is \<open>event.target.closest('.hsfc-Step')\<close>, as the position
  of that step in the form. The outcome of the handler collects the event, the steps of
  the form and the bundle as the handler leaves them, the replayed calls, the value
  returned (\<open>None\<close> for \<open>undefined\<close>, and when an exception escapes) and the exception that
  escaped, if any.
\<close>

record clickEvent =
  targetStep :: "nat option"
  defaultPrevented :: bool
  propagationStopped :: bool

record handled =
  eventAfter :: clickEvent
  stepsAfter :: "step list"
  cleanupAfter :: cleanup
  replayed :: "(nat \<times> domAction) list"
  deferred :: "(nat \<times> domAction) list"
  returned :: "bool option"
  thrown :: "exception option"

text \<open>
  \<open>handleNextButtonClick\<close>. The replayed calls reach the listeners of the fields, among
  them the widget's own handlers, which are not part of this code: \<open>widget now\<close> is what the
  calls \<open>now\<close> do to the step before \<open>showValidationError\<close> reads it. A reference to a step
  that is not in the form is not modelled: the handler is then taken to do nothing.
\<close>

definition handleNextButtonClick ::
  "settings \<Rightarrow> ((nat \<times> domAction) list \<Rightarrow> step \<Rightarrow> step) \<Rightarrow> clickEvent \<Rightarrow> step list \<Rightarrow> cleanup
    \<Rightarrow> handled" where
  "handleNextButtonClick st widget event formSteps c =
     (let currentStep = targetStep event;
          (c1, visibleStep) =
            (case currentStep of
               None \<Rightarrow> getVisibleStep formSteps c
             | Some i \<Rightarrow> (c, None));
          unchanged = \<lparr>eventAfter = event, stepsAfter = formSteps, cleanupAfter = c1,
                       replayed = [], deferred = [], returned = None, thrown = None\<rparr>
      in if currentStep = None \<and> visibleStep = None then unchanged
         else (let (c2, stepToValidate) =
                     (case currentStep of
                        Some i \<Rightarrow> (c1, Some i)
                      | None \<Rightarrow> getVisibleStep formSteps c1)
               in case stepToValidate of
                    None \<Rightarrow> unchanged\<lparr>cleanupAfter := c2\<rparr>
                  | Some i \<Rightarrow>
                      if i \<ge> length formSteps then unchanged\<lparr>cleanupAfter := c2\<rparr>
                      else (case validateVisibleStep st formSteps of
                              Inl e \<Rightarrow> unchanged\<lparr>cleanupAfter := c2, thrown := Some e\<rparr>
                            | Inr isValid \<Rightarrow>
                                if \<not> isValid
                                then (let event1 = event\<lparr>defaultPrevented := True,
                                                         propagationStopped := True\<rparr>;
                                          (failure, now, later) =
                                            triggerFieldValidations st (formSteps ! i);
                                          replayedStep = widget now (formSteps ! i)
                                      in case failure of
                                           Some e \<Rightarrow>
                                             \<lparr>eventAfter = event1,
                                              stepsAfter = formSteps[i := replayedStep],
                                              cleanupAfter = c2, replayed = now,
                                              deferred = later, returned = None,
                                              thrown = Some e\<rparr>
                                         | None \<Rightarrow>
                                             (case showValidationError st replayedStep of
                                                Inr s' \<Rightarrow>
                                                  \<lparr>eventAfter = event1,
                                                   stepsAfter = formSteps[i := s'],
                                                   cleanupAfter = c2, replayed = now,
                                                   deferred = later, returned = Some False,
                                                   thrown = None\<rparr>
                                              | Inl (e, s') \<Rightarrow>
                                                  \<lparr>eventAfter = event1,
                                                   stepsAfter = formSteps[i := s'],
                                                   cleanupAfter = c2, replayed = now,
                                                   deferred = later, returned = None,
                                                   thrown = Some e\<rparr>))
                                else (case removeValidationError st (formSteps ! i) of
                                        Inl e \<Rightarrow>
                                          unchanged\<lparr>cleanupAfter := c2, thrown := Some e\<rparr>
                                      | Inr s' \<Rightarrow>
                                          \<lparr>eventAfter = event,
                                           stepsAfter = formSteps[i := s'],
                                           cleanupAfter = c2, replayed = [], deferred = [],
                                           returned = Some True, thrown = None\<rparr>))))"

text \<open>
  The step that the handler works on: the step of the click target, or else the cached
  visible step of the bundle.
\<close>

definition stepToValidate :: "clickEvent \<Rightarrow> step list \<Rightarrow> cleanup \<Rightarrow> nat option" where
  "stepToValidate event formSteps c =
     (case targetStep event of
        Some i \<Rightarrow> Some i
      | None \<Rightarrow> snd (getVisibleStep formSteps c))"

section \<open>HubSpotFormManager: field events and the form observer\<close>

text \<open>
  The listener that \<open>addFieldListeners\<close> attaches to each field of the visible step for
  the events \<open>input\<close>, \<open>change\<close> and \<open>blur\<close>. \<open>visibleStep\<close> is the step that was visible when
  the listener was attached, as its position in the form; the value of
  \<open>validateVisibleStep\<close> is not used. \<open>Inl\<close> is the exception with the steps as the listener
  leaves them. As above, a step that is not in the form is taken to be left alone.
\<close>

definition fieldEventListener ::
  "settings \<Rightarrow> nat \<Rightarrow> step list \<Rightarrow> (exception \<times> step list) + step list" where
  "fieldEventListener st visibleStep formSteps =
     (if visibleStep \<ge> length formSteps then Inr formSteps
      else (case removeValidationError st (formSteps ! visibleStep) of
              Inl e \<Rightarrow> Inl (e, formSteps)
            | Inr s' \<Rightarrow>
                (let formSteps1 = formSteps[visibleStep := s']
                 in case validateVisibleStep st formSteps1 of
                      Inl e \<Rightarrow> Inl (e, formSteps1)
                    | Inr isValid \<Rightarrow> Inr formSteps1)))"

text \<open>
  The call that the mutation observer of the form defers when an error element or the
  style of a step has changed: \<open>setTimeout(() => validator.validateVisibleStep(), 50)\<close>.
  The value is not used.
\<close>

definition formObserverRevalidate ::
  "settings \<Rightarrow> step list \<Rightarrow> (exception \<times> step list) + step list" where
  "formObserverRevalidate st formSteps =
     (case validateVisibleStep st formSteps of
        Inl e \<Rightarrow> Inl (e, formSteps)
      | Inr isValid \<Rightarrow> Inr formSteps)"

section \<open>HubSpotFormManager: setup and teardown\<close>

text \<open>
  The part of the page that setup and teardown act on: the event listeners attached to
  nodes, the mutation observers that are observing, the set \<open>initializedForms\<close> and the
  map \<open>formCleanupMap\<close>. A node is named by its identity (a field by \<open>uid\<close>, a button by
  \<open>buttonId\<close>, the document by \<open>documentNode\<close>); every listener function is a new closure
  and every controller and observer a new object, so each gets the next unused identity.
  A listener registered with \<open>{signal}\<close> carries the identity of the controller.

  Setup also writes attributes and inserts counter elements. These writes are not read
  back by any registration of the same run, and are left out here; the timers started by
  \<open>setupProgressBarRepositioning\<close> are neither listeners nor observers and are left out
  as well.
\<close>

record listener =
  target :: nat
  eventType :: string
  callback :: nat
  signal :: "nat option"

record page =
  attached :: "listener list"
  observing :: "nat list"
  initializedForms :: "nat set"
  formCleanupMap :: "nat \<rightharpoonup> cleanup"
  nextIdentity :: nat

definition documentNode :: nat where
  "documentNode = 0"

text \<open>
  The elements of a form that setup wires beyond its steps: the custom dropdown buttons
  (\<open>phoneRelated\<close> is the result of \<open>isPhoneRelatedDropdown\<close>) and the phone fields, each
  with the nodes that the selector queries of \<open>setupPhoneFieldAccessibility\<close> find in it.
\<close>

record dropdownButton =
  dropdownId :: nat
  phoneRelated :: bool

record phoneField =
  flagAndCaret :: "nat option"
  dropdownOptions :: "nat option"
  searchInput :: "nat option"
  optionsList :: "nat option"
  phoneListbox :: "nat option"
  phoneInput :: "nat option"

record form =
  formId :: nat
  stepsOf :: "step list"
  dropdownButtons :: "dropdownButton list"
  phoneFields :: "phoneField list"

text \<open>\<open>addEventListener\<close> with the bundle's signal: nothing is added once it is aborted.\<close>

definition listenWithSignal :: "nat \<Rightarrow> string \<Rightarrow> cleanup \<times> page \<Rightarrow> cleanup \<times> page" where
  "listenWithSignal node ev = (\<lambda>(c, p).
     (c, p\<lparr>attached :=
             (if aborted c then attached p
              else attached p @ [\<lparr>target = node, eventType = ev, callback = nextIdentity p,
                                  signal = Some (controllerId c)\<rparr>]),
           nextIdentity := Suc (nextIdentity p)\<rparr>))"

text \<open>\<open>addEventListener\<close> without a signal, recorded in \<open>cleanup.globalListeners\<close>.\<close>

definition listenGlobal :: "nat \<Rightarrow> string \<Rightarrow> cleanup \<times> page \<Rightarrow> cleanup \<times> page" where
  "listenGlobal node ev = (\<lambda>(c, p).
     (c\<lparr>globalListeners := globalListeners c @ [(node, ev, nextIdentity p)]\<rparr>,
      p\<lparr>attached := attached p @ [\<lparr>target = node, eventType = ev,
                                     callback = nextIdentity p, signal = None\<rparr>],
        nextIdentity := Suc (nextIdentity p)\<rparr>))"

text \<open>\<open>addEventListener\<close> without a signal and without a record in the bundle.\<close>

definition listenUntracked :: "nat \<Rightarrow> string \<Rightarrow> cleanup \<times> page \<Rightarrow> cleanup \<times> page" where
  "listenUntracked node ev = (\<lambda>(c, p).
     (c, p\<lparr>attached := attached p @ [\<lparr>target = node, eventType = ev,
                                        callback = nextIdentity p, signal = None\<rparr>],
           nextIdentity := Suc (nextIdentity p)\<rparr>))"

text \<open>A new observer, pushed onto \<open>cleanup.observers\<close> and set to observe.\<close>

definition observeTracked :: "cleanup \<times> page \<Rightarrow> cleanup \<times> page" where
  "observeTracked = (\<lambda>(c, p).
     (c\<lparr>observers := observers c @ [nextIdentity p]\<rparr>,
      p\<lparr>observing := observing p @ [nextIdentity p],
        nextIdentity := Suc (nextIdentity p)\<rparr>))"

definition createFormCleanup :: "nat \<Rightarrow> page \<Rightarrow> cleanup \<times> page" where
  "createFormCleanup fid p =
     (let c = \<lparr>controllerId = nextIdentity p, aborted = False, observers = [],
               globalListeners = [], cachedVisibleStep = None, cacheValid = True\<rparr>
      in (c, p\<lparr>formCleanupMap := (formCleanupMap p)(fid \<mapsto> c),
               nextIdentity := Suc (nextIdentity p)\<rparr>))"

text \<open>
  \<open>cleanup.destroy()\<close>: the abort removes every listener registered under the signal,
  every observer of the bundle is disconnected, every recorded global listener is removed
  from its element, and the cache and the two arrays are cleared.
\<close>

definition removeEventListener :: "nat \<times> string \<times> nat \<Rightarrow> listener list \<Rightarrow> listener list" where
  "removeEventListener = (\<lambda>(element, ev, fn).
     filter (\<lambda>l. \<not> (target l = element \<and> eventType l = ev \<and> callback l = fn)))"

definition destroy :: "cleanup \<times> page \<Rightarrow> cleanup \<times> page" where
  "destroy = (\<lambda>(c, p).
     (let p1 = p\<lparr>attached := filter (\<lambda>l. signal l \<noteq> Some (controllerId c)) (attached p)\<rparr>;
          p2 = p1\<lparr>observing := filter (\<lambda>ob. ob \<notin> set (observers c)) (observing p1)\<rparr>;
          p3 = p2\<lparr>attached := fold removeEventListener (globalListeners c) (attached p2)\<rparr>
      in ((invalidateCache (c\<lparr>aborted := True\<rparr>))\<lparr>observers := [], globalListeners := []\<rparr>,
          p3)))"

definition initializeButtonState :: "form \<Rightarrow> cleanup \<times> page \<Rightarrow> cleanup \<times> page" where
  "initializeButtonState frm = (\<lambda>(c, p). (fst (getVisibleStep (stepsOf frm) c), p))"

definition setupTextInputCharacterLimit :: "field \<Rightarrow> cleanup \<times> page \<Rightarrow> cleanup \<times> page" where
  "setupTextInputCharacterLimit f cp =
     (if limitEnforcedAttr f then cp else listenWithSignal (uid f) ''input'' cp)"

definition addFieldListenersTo :: "field \<Rightarrow> cleanup \<times> page \<Rightarrow> cleanup \<times> page" where
  "addFieldListenersTo f cp =
     (let cp1 = (if fieldType f = ''text'' \<or> fieldType f = ''email''
                    \<or> (toLowerCase (tagName f) = ''input'' \<and> fieldType f = [])
                 then setupTextInputCharacterLimit f cp else cp)
      in fold (listenWithSignal (uid f)) [''input'', ''change'', ''blur''] cp1)"

definition addFieldListeners :: "form \<Rightarrow> cleanup \<times> page \<Rightarrow> cleanup \<times> page" where
  "addFieldListeners frm = (\<lambda>(c, p).
     (case getVisibleStep (stepsOf frm) c of
        (c1, None) \<Rightarrow> (c1, p)
      | (c1, Some i) \<Rightarrow>
          if i < length (stepsOf frm)
          then fold addFieldListenersTo
                 (filter isFormControl (stepFields (stepsOf frm ! i))) (c1, p)
          else (c1, p)))"

definition addEventListeners :: "form \<Rightarrow> cleanup \<times> page \<Rightarrow> cleanup \<times> page" where
  "addEventListeners frm cp =
     (let navigationButtons' = concat (map navigationButtons (stepsOf frm));
          cp1 = fold (\<lambda>b. listenWithSignal (buttonId b) ''click'')
                  (filter isNotPreviousButton navigationButtons') cp
      in addFieldListeners frm cp1)"

definition setupFormObserver :: "cleanup \<times> page \<Rightarrow> cleanup \<times> page" where
  "setupFormObserver cp = observeTracked cp"

definition whenPresent ::
  "nat option \<Rightarrow> (nat \<Rightarrow> cleanup \<times> page \<Rightarrow> cleanup \<times> page) \<Rightarrow> cleanup \<times> page \<Rightarrow> cleanup \<times> page" where
  "whenPresent node f cp = (case node of None \<Rightarrow> cp | Some n \<Rightarrow> f n cp)"

definition addPhoneDropdownKeyboardSupport ::
  "nat \<Rightarrow> nat \<Rightarrow> phoneField \<Rightarrow> cleanup \<times> page \<Rightarrow> cleanup \<times> page" where
  "addPhoneDropdownKeyboardSupport flag dropdown ph cp =
     (let cp1 = listenWithSignal flag ''keydown'' cp;
          cp2 = whenPresent (searchInput ph) (\<lambda>n. listenWithSignal n ''keydown'') cp1;
          cp3 = listenWithSignal dropdown ''keydown'' cp2;
          cp4 = whenPresent (optionsList ph) (\<lambda>n. listenWithSignal n ''keydown'') cp3;
          cp5 = listenWithSignal flag ''click'' cp4
      in listenGlobal documentNode ''click'' cp5)"

definition addPhoneInputOverwriteSupport ::
  "nat \<Rightarrow> phoneField \<Rightarrow> cleanup \<times> page \<Rightarrow> cleanup \<times> page" where
  "addPhoneInputOverwriteSupport inputNode ph cp =
     (let cp1 = whenPresent (phoneListbox ph)
                  (\<lambda>n. fold (listenWithSignal n) [''click'', ''countrySelected'']) cp
      in fold (listenWithSignal inputNode)
           [''input'', ''keydown'', ''focus'', ''select'', ''mouseup''] cp1)"

definition setupPhoneField :: "phoneField \<Rightarrow> cleanup \<times> page \<Rightarrow> cleanup \<times> page" where
  "setupPhoneField ph cp =
     (case flagAndCaret ph of
        None \<Rightarrow> cp
      | Some flag \<Rightarrow>
          (case dropdownOptions ph of
             None \<Rightarrow> cp
           | Some dropdown \<Rightarrow>
               whenPresent (phoneInput ph) (\<lambda>n. addPhoneInputOverwriteSupport n ph)
                 (addPhoneDropdownKeyboardSupport flag dropdown ph cp)))"

definition setupPhoneFieldAccessibility :: "form \<Rightarrow> cleanup \<times> page \<Rightarrow> cleanup \<times> page" where
  "setupPhoneFieldAccessibility frm cp = fold setupPhoneField (phoneFields frm) cp"

definition setupDropdownAccessibility :: "form \<Rightarrow> cleanup \<times> page \<Rightarrow> cleanup \<times> page" where
  "setupDropdownAccessibility frm cp =
     fold (\<lambda>b cp'. if phoneRelated b then cp'
                    else fold (listenWithSignal (dropdownId b)) [''keydown'', ''click''] cp')
       (dropdownButtons frm) cp"

definition setupProgressBarRepositioning :: "cleanup \<times> page \<Rightarrow> cleanup \<times> page" where
  "setupProgressBarRepositioning cp = observeTracked cp"

definition setupSingleTextarea :: "field \<Rightarrow> cleanup \<times> page \<Rightarrow> cleanup \<times> page" where
  "setupSingleTextarea textarea cp =
     (let cp1 = fold (listenWithSignal (uid textarea))
                  [''input'', ''keyup'', ''paste'', ''focus''] cp;
          cp2 = (if inFormFieldContainer textarea then observeTracked cp1 else cp1)
      in observeTracked cp2)"

definition allFields :: "form \<Rightarrow> field list" where
  "allFields frm = concat (map stepFields (stepsOf frm))"

definition setupCharacterLimits :: "form \<Rightarrow> cleanup \<times> page \<Rightarrow> cleanup \<times> page" where
  "setupCharacterLimits frm cp =
     fold setupSingleTextarea (filter isTextarea (allFields frm)) cp"

definition isFileInput :: "field \<Rightarrow> bool" where
  "isFileInput f \<longleftrightarrow> toLowerCase (tagName f) = ''input'' \<and> fieldType f = ''file''"

text \<open>\<open>FileUploadValidator.setup(formContainer)\<close>, which is not given the bundle.\<close>

definition fileUploadSetup :: "form \<Rightarrow> cleanup \<times> page \<Rightarrow> cleanup \<times> page" where
  "fileUploadSetup frm cp =
     fold (\<lambda>fileInput. listenUntracked (uid fileInput) ''change'')
       (filter isFileInput (allFields frm)) cp"

text \<open>
  The bundle is an object shared by the map and by the setup routines. Its value is
  threaded through the routines and stored under the form again when they are done.
\<close>

definition storeCleanup :: "nat \<Rightarrow> cleanup \<times> page \<Rightarrow> page" where
  "storeCleanup fid = (\<lambda>(c, p). p\<lparr>formCleanupMap := (formCleanupMap p)(fid \<mapsto> c)\<rparr>)"

definition setupSingleForm :: "form \<Rightarrow> page \<Rightarrow> page" where
  "setupSingleForm frm p =
     (if formId frm \<in> initializedForms p then p
      else (let p1 = (case formCleanupMap p (formId frm) of
                        Some existingCleanup \<Rightarrow>
                          storeCleanup (formId frm) (destroy (existingCleanup, p))
                      | None \<Rightarrow> p);
                (c, p2) = createFormCleanup (formId frm) p1;
                p3 = p2\<lparr>initializedForms := insert (formId frm) (initializedForms p2)\<rparr>;
                cp4 = initializeButtonState frm (c, p3);
                cp5 = addEventListeners frm cp4;
                cp6 = setupFormObserver cp5;
                cp7 = setupPhoneFieldAccessibility frm cp6;
                cp8 = setupDropdownAccessibility frm cp7;
                cp9 = setupProgressBarRepositioning cp8;
                cp10 = setupCharacterLimits frm cp9;
                cp11 = fileUploadSetup frm cp10
            in storeCleanup (formId frm) cp11))"

text \<open>\<open>getFormCleanup(formContainer).destroy()\<close>, for a form that has a bundle.\<close>

definition destroyFormCleanup :: "nat \<Rightarrow> page \<Rightarrow> page" where
  "destroyFormCleanup fid p =
     (case formCleanupMap p fid of
        None \<Rightarrow> p
      | Some c \<Rightarrow> storeCleanup fid (destroy (c, p)))"

section \<open>Reachability from the cleanup bundle\<close>

text \<open>
  The invariant of the data model: every attached listener carries the signal of the
  bundle or is recorded among its global listeners, and every observing observer is in
  its list of observers.
\<close>

definition reachableFromBundle :: "cleanup \<times> page \<Rightarrow> bool" where
  "reachableFromBundle = (\<lambda>(c, p).
     list_all (\<lambda>l. signal l = Some (controllerId c)
                  \<or> (target l, eventType l, callback l) \<in> set (globalListeners c))
       (attached p)
     \<and> list_all (\<lambda>ob. ob \<in> set (observers c)) (observing p))"

section \<open>The document tree\<close>

text \<open>
  Progress-bar repositioning moves nodes, so it is modelled on a document: a tree of
  element identities, and a store that gives each element its tag, classes, attributes
  and display style. An element keeps its entry in the store while it is detached, as a
  script keeps the object. Only the document tree is kept: a detached element has no
  parent. Text nodes are left out; the order of the element children is the document's.
\<close>

datatype tree = Node nat "tree list"

record element =
  elTag :: string
  classes :: "string list"
  attributes :: "(string \<times> string) list"
  cssDisplay :: string
  inlineStyle :: "(string \<times> string) list"

record document =
  body :: tree
  elements :: "nat \<Rightarrow> element"

fun rootOf :: "tree \<Rightarrow> nat" where
  "rootOf (Node n ts) = n"

fun childrenOf :: "tree \<Rightarrow> tree list" where
  "childrenOf (Node n ts) = ts"

fun firstSome :: "'a option list \<Rightarrow> 'a option" where
  "firstSome [] = None"
| "firstSome (None # xs) = firstSome xs"
| "firstSome (Some x # xs) = Some x"

text \<open>The descendants of a node in document order, without the node itself.\<close>

fun descendants :: "tree \<Rightarrow> nat list" where
  "descendants (Node n ts) = concat (map (\<lambda>t. rootOf t # descendants t) ts)"

fun subtreeAt :: "nat \<Rightarrow> tree \<Rightarrow> tree option" where
  "subtreeAt i (Node n ts) =
     (if i = n then Some (Node n ts) else firstSome (map (subtreeAt i) ts))"

text \<open>The identities from the root of the tree down to a node, the node included.\<close>

fun pathTo :: "nat \<Rightarrow> tree \<Rightarrow> nat list option" where
  "pathTo i (Node n ts) =
     (if i = n then Some [n]
      else map_option (Cons n) (firstSome (map (pathTo i) ts)))"

fun removeNode :: "nat \<Rightarrow> tree \<Rightarrow> tree" where
  "removeNode i (Node n ts) =
     Node n (map (removeNode i) (filter (\<lambda>t. rootOf t \<noteq> i) ts))"

fun insertBeforeChild :: "tree \<Rightarrow> nat \<Rightarrow> tree list \<Rightarrow> tree list" where
  "insertBeforeChild new ref [] = [new]"
| "insertBeforeChild new ref (t # ts) =
     (if rootOf t = ref then new # t # ts else t # insertBeforeChild new ref ts)"

fun insertAfterChild :: "tree \<Rightarrow> nat \<Rightarrow> tree list \<Rightarrow> tree list" where
  "insertAfterChild new ref [] = [new]"
| "insertAfterChild new ref (t # ts) =
     (if rootOf t = ref then t # new # ts else t # insertAfterChild new ref ts)"

text \<open>Rebuilding the children of one node of the tree.\<close>

fun updateChildren :: "nat \<Rightarrow> (tree list \<Rightarrow> tree list) \<Rightarrow> tree \<Rightarrow> tree" where
  "updateChildren p f (Node n ts) =
     (if n = p then Node n (f ts) else Node n (map (updateChildren p f) ts))"

definition hasClass :: "document \<Rightarrow> string \<Rightarrow> nat \<Rightarrow> bool" where
  "hasClass d cls n \<longleftrightarrow> cls \<in> set (classes (elements d n))"

definition hasAttribute :: "document \<Rightarrow> nat \<Rightarrow> string \<Rightarrow> bool" where
  "hasAttribute d n a \<longleftrightarrow> a \<in> set (map fst (attributes (elements d n)))"

definition setAttribute :: "nat \<Rightarrow> string \<Rightarrow> string \<Rightarrow> document \<Rightarrow> document" where
  "setAttribute n a v d =
     d\<lparr>elements := (elements d)
          (n := (elements d n)\<lparr>attributes :=
                   (a, v) # filter (\<lambda>kv. fst kv \<noteq> a) (attributes (elements d n))\<rparr>)\<rparr>"

definition classListAdd :: "nat \<Rightarrow> string \<Rightarrow> document \<Rightarrow> document" where
  "classListAdd n cls d =
     (if cls \<in> set (classes (elements d n)) then d
      else d\<lparr>elements := (elements d)
                (n := (elements d n)\<lparr>classes := classes (elements d n) @ [cls]\<rparr>)\<rparr>)"

definition isFormInput :: "document \<Rightarrow> nat \<Rightarrow> bool" where
  "isFormInput d n \<longleftrightarrow>
     toLowerCase (elTag (elements d n)) \<in> set [''input'', ''select'', ''textarea'']"

text \<open>\<open>getComputedStyle(el).display\<close>: the inline declaration if there is one.\<close>

definition computedDisplay :: "document \<Rightarrow> nat \<Rightarrow> string" where
  "computedDisplay d n =
     (case map_of (inlineStyle (elements d n)) ''display'' of
        Some v \<Rightarrow> v
      | None \<Rightarrow> cssDisplay (elements d n))"

definition setInlineStyle :: "nat \<Rightarrow> string \<Rightarrow> string \<Rightarrow> document \<Rightarrow> document" where
  "setInlineStyle n prop v d =
     d\<lparr>elements := (elements d)
          (n := (elements d n)\<lparr>inlineStyle :=
                   (prop, v) # filter (\<lambda>kv. fst kv \<noteq> prop) (inlineStyle (elements d n))\<rparr>)\<rparr>"

text \<open>\<open>el.querySelector\<close> within a subtree, for a selector given as a test.\<close>

definition querySelector :: "(nat \<Rightarrow> bool) \<Rightarrow> tree \<Rightarrow> nat option" where
  "querySelector sel t = find sel (descendants t)"

definition querySelectorAll :: "(nat \<Rightarrow> bool) \<Rightarrow> tree \<Rightarrow> nat list" where
  "querySelectorAll sel t = filter sel (descendants t)"

text \<open>
  \<open>el.closest\<close> in the tree that holds the element: the nearest of the element and its
  ancestors that passes the test.
\<close>

definition closest :: "(nat \<Rightarrow> bool) \<Rightarrow> nat \<Rightarrow> tree \<Rightarrow> nat option" where
  "closest sel n t =
     (case pathTo n t of
        None \<Rightarrow> None
      | Some path \<Rightarrow> find sel (rev path))"

definition hasDescendant :: "(nat \<Rightarrow> bool) \<Rightarrow> nat \<Rightarrow> tree \<Rightarrow> bool" where
  "hasDescendant sel n t =
     (case subtreeAt n t of
        None \<Rightarrow> False
      | Some sub \<Rightarrow> querySelector sel sub \<noteq> None)"

definition childIds :: "nat \<Rightarrow> tree \<Rightarrow> nat list" where
  "childIds p t = (case subtreeAt p t of None \<Rightarrow> [] | Some sub \<Rightarrow> map rootOf (childrenOf sub))"

section \<open>HubSpotFormManager: progress-bar repositioning\<close>

definition isFieldContainer :: "document \<Rightarrow> nat \<Rightarrow> bool" where
  "isFieldContainer d n \<longleftrightarrow>
     hasClass d ''hsfc-Row'' n \<or> hasClass d ''hsfc-FormField'' n
     \<or> hasClass d ''hs-form-field'' n"

definition markRow :: "nat \<Rightarrow> document \<Rightarrow> document" where
  "markRow n d =
     (if hasClass d ''hsfc-Row'' n then classListAdd n ''hsfc-row-with-form-inputs'' d else d)"

text \<open>
  \<open>findFirstFormField(stepContent)\<close>, in the tree \<open>ctx\<close> that holds the step content. It
  returns the node found, if any, and the document with the class it may add to a row.
\<close>

definition findFirstFormField :: "tree \<Rightarrow> nat \<Rightarrow> document \<Rightarrow> nat option \<times> document" where
  "findFirstFormField ctx stepContent d =
     (case subtreeAt stepContent ctx of
        None \<Rightarrow> (None, d)
      | Some content \<Rightarrow>
          (case find (\<lambda>c. hasDescendant (isFormInput d) c ctx)
                  (querySelectorAll (isFieldContainer d) content) of
             Some fieldContainer \<Rightarrow> (Some fieldContainer, markRow fieldContainer d)
           | None \<Rightarrow>
               (case querySelector (isFormInput d) content of
                  Some directInput \<Rightarrow>
                    (case closest (isFieldContainer d) directInput ctx of
                       Some inputContainer \<Rightarrow> (Some inputContainer, markRow inputContainer d)
                     | None \<Rightarrow> (Some directInput, d))
                | None \<Rightarrow> (None, d))))"

text \<open>\<open>addFlexboxFallbackClasses(currentStep, stepContent)\<close> on the document.\<close>

definition addFallbackClasses :: "tree \<Rightarrow> nat \<Rightarrow> nat \<Rightarrow> document \<Rightarrow> document" where
  "addFallbackClasses stepTree currentStep stepContent d =
     (if querySelector (hasClass d ''hsfc-CustomValidationError'') stepTree \<noteq> None
         \<or> querySelector (hasClass d ''hsfc-ProgressBar--repositioned'') stepTree \<noteq> None
      then classListAdd stepContent ''hsfc-content-with-validation-and-progress''
             (classListAdd currentStep ''hsfc-step-with-validation-and-progress'' d)
      else d)"

definition ensureFlexColumn :: "nat \<Rightarrow> document \<Rightarrow> document" where
  "ensureFlexColumn stepContent d =
     (if computedDisplay d stepContent \<noteq> ''flex''
         \<and> computedDisplay d stepContent \<noteq> ''inline-flex''
      then setInlineStyle stepContent ''flex-direction'' ''column''
             (setInlineStyle stepContent ''display'' ''flex'' d)
      else d)"

text \<open>
  \<open>parent.insertBefore(node, ref)\<close> and \<open>parent.appendChild(node)\<close> for a detached
  \<open>node\<close>: a parent inside the node itself is a \<open>HierarchyRequestError\<close>, a reference
  that is not a child of the parent a \<open>NotFoundError\<close>.
\<close>

definition insertBefore :: "nat \<Rightarrow> tree \<Rightarrow> nat \<Rightarrow> document \<Rightarrow> domException + document" where
  "insertBefore parent new ref d =
     (if parent = rootOf new \<or> parent \<in> set (descendants new) then Inl HierarchyRequestError
      else if ref \<notin> set (childIds parent (body d)) then Inl NotFoundError
      else Inr (d\<lparr>body := updateChildren parent (insertBeforeChild new ref) (body d)\<rparr>))"

definition appendChild :: "nat \<Rightarrow> tree \<Rightarrow> document \<Rightarrow> domException + document" where
  "appendChild parent new d =
     (if parent = rootOf new \<or> parent \<in> set (descendants new) then Inl HierarchyRequestError
      else Inr (d\<lparr>body := updateChildren parent (\<lambda>ts. ts @ [new]) (body d)\<rparr>))"

text \<open>\<open>ref.insertAdjacentElement('afterend', node)\<close> for a reference with a parent.\<close>

definition insertAfter :: "nat \<Rightarrow> tree \<Rightarrow> nat \<Rightarrow> document \<Rightarrow> domException + document" where
  "insertAfter parent new ref d =
     (if parent = rootOf new \<or> parent \<in> set (descendants new) then Inl HierarchyRequestError
      else Inr (d\<lparr>body := updateChildren parent (insertAfterChild new ref) (body d)\<rparr>))"

text \<open>
  The outcome of a repositioning call: \<open>Inr\<close> the document when the call returns,
  \<open>Inl\<close> the exception together with the document as the call leaves it.
\<close>

definition thenAddClass ::
  "nat \<Rightarrow> string \<Rightarrow> document \<Rightarrow> domException + document \<Rightarrow> (domException \<times> document) + document" where
  "thenAddClass n cls before r =
     (case r of
        Inl e \<Rightarrow> Inl (e, before)
      | Inr d \<Rightarrow> Inr (classListAdd n cls d))"

definition repositionProgressBar :: "nat \<Rightarrow> document \<Rightarrow> (domException \<times> document) + document" where
  "repositionProgressBar progressBar d =
     (if hasAttribute d progressBar ''data-repositioned'' then Inr d
      else (case closest (hasClass d ''hsfc-Step'') progressBar (body d) of
              None \<Rightarrow> Inr d
            | Some currentStep \<Rightarrow>
                (case subtreeAt progressBar (body d) of
                   None \<Rightarrow> Inr d
                 | Some barTree \<Rightarrow>
                     (let d1 = setAttribute progressBar ''data-repositioned'' ''true'' d;
                          d2 = d1\<lparr>body := removeNode progressBar (body d1)\<rparr>;
                          ctx = (if currentStep = progressBar then barTree else body d2);
                          stepTree = (case subtreeAt currentStep ctx of
                                        Some t \<Rightarrow> t
                                      | None \<Rightarrow> Node currentStep []);
                          stepContent =
                            (case querySelector (hasClass d2 ''hsfc-Step__Content'') stepTree of
                               Some content \<Rightarrow> content
                             | None \<Rightarrow> currentStep);
                          d3 = ensureFlexColumn stepContent d2;
                          d4 = addFallbackClasses stepTree currentStep stepContent d3;
                          (firstFormField, d5) = findFirstFormField ctx stepContent d4
                      in thenAddClass progressBar ''hsfc-ProgressBar--repositioned'' d5
                           (case firstFormField of
                              Some ref \<Rightarrow> insertBefore stepContent barTree ref d5
                            | None \<Rightarrow> appendChild stepContent barTree d5)))))"

text \<open>
  The callback that \<open>positionElementsImmediately\<close> of the entry point runs on each
  \<open>.hsfc-ProgressBar\<close> element.
\<close>

definition isFirstFieldCandidate :: "document \<Rightarrow> tree \<Rightarrow> nat \<Rightarrow> bool" where
  "isFirstFieldCandidate d ctx n \<longleftrightarrow>
     (hasClass d ''hsfc-Row'' n \<and> hasDescendant (isFormInput d) n ctx)
     \<or> hasClass d ''hsfc-FormField'' n \<or> hasClass d ''hs-form-field'' n
     \<or> isFormInput d n"

definition parentOf :: "nat \<Rightarrow> tree \<Rightarrow> nat option" where
  "parentOf n t =
     (case pathTo n t of
        None \<Rightarrow> None
      | Some path \<Rightarrow> (case rev path of c # p # rest \<Rightarrow> Some p | _ \<Rightarrow> None))"

definition positionProgressBar :: "nat \<Rightarrow> document \<Rightarrow> (domException \<times> document) + document" where
  "positionProgressBar progressBar d =
     (if hasAttribute d progressBar ''data-repositioned'' then Inr d
      else (case closest (hasClass d ''hsfc-Step'') progressBar (body d) of
              None \<Rightarrow> Inr d
            | Some step \<Rightarrow>
                (case subtreeAt progressBar (body d) of
                   None \<Rightarrow> Inr d
                 | Some barTree \<Rightarrow>
                     (let d1 = setAttribute progressBar ''data-repositioned'' ''true'' d;
                          d2 = d1\<lparr>body := removeNode progressBar (body d1)\<rparr>;
                          ctx = (if step = progressBar then barTree else body d2);
                          stepTree = (case subtreeAt step ctx of
                                        Some t \<Rightarrow> t
                                      | None \<Rightarrow> Node step []);
                          stepContent =
                            (case querySelector (hasClass d2 ''hsfc-Step__Content'') stepTree of
                               Some content \<Rightarrow> content
                             | None \<Rightarrow> step);
                          contentTree = (case subtreeAt stepContent ctx of
                                           Some t \<Rightarrow> t
                                         | None \<Rightarrow> Node stepContent []);
                          firstFormField =
                            querySelector (isFirstFieldCandidate d2 ctx) contentTree;
                          existingValidationError =
                            querySelector (hasClass d2 ''hsfc-CustomValidationError'')
                              contentTree
                      in thenAddClass progressBar ''hsfc-ProgressBar--repositioned'' d2
                           (case existingValidationError of
                              Some err \<Rightarrow>
                                (case parentOf err ctx of
                                   Some parent \<Rightarrow> insertAfter parent barTree err d2
                                 | None \<Rightarrow> Inr d2)
                            | None \<Rightarrow>
                                (case firstFormField of
                                   Some ref \<Rightarrow> insertBefore stepContent barTree ref d2
                                 | None \<Rightarrow>
                                     (case childIds stepContent ctx of
                                        firstChild # rest \<Rightarrow>
                                          insertBefore stepContent barTree firstChild d2
                                      | [] \<Rightarrow> appendChild stepContent barTree d2)))))))"

text \<open>The document that a repositioning call leaves, whether it returned or threw.\<close>

definition documentAfter :: "(domException \<times> document) + document \<Rightarrow> document" where
  "documentAfter r = (case r of Inl (e, d) \<Rightarrow> d | Inr d \<Rightarrow> d)"

section \<open>The specification's wording, for comparison\<close>

text \<open>
  The specification describes the telephone rule as: the trimmed value is non-empty, is
  not a bare plus sign, and does not consist of an optional plus sign followed by at most
  three digits. \<open>telValidAsSpecified\<close> follows these words; it is compared with
  \<open>validateTelField\<close> below.
\<close>

definition optionalPlusDigits :: "string \<Rightarrow> bool" where
  "optionalPlusDigits s =
     (case s of
        [] \<Rightarrow> True
      | c # cs \<Rightarrow> if c = CHR ''+'' then digitsUpTo 3 cs else digitsUpTo 3 (c # cs))"

definition telValidAsSpecified :: "string \<Rightarrow> bool" where
  "telValidAsSpecified v =
     (let t = trim v in t \<noteq> [] \<and> t \<noteq> ''+'' \<and> \<not> optionalPlusDigits t)"

section \<open>Sample elements\<close>

text \<open>A text input with no attributes set, from which concrete fields are derived.\<close>

definition blankField :: field where
  "blankField =
     \<lparr>uid = 0, tagName = ''INPUT'', fieldType = ''text'', nameAttr = None, idAttr = None,
      fieldValue = [], checked = False, requiredAttr = False, ariaRequired = None,
      dataCharacterLimit = None, patternAttr = None, patternResult = None,
      limitEnforcedAttr = False, inFormFieldContainer = True, files = None,
      fieldLabel = []\<rparr>"


text \<open>
  The module state as the source initialises it, where nothing defines \<open>import.meta.env\<close>,
  and the same state under Vite with neither variable set. The display function is a
  parameter; \<open>toLowerCase\<close> is the host function on the ASCII file names of the samples.
\<close>

definition initialSettings :: "(nat \<Rightarrow> string) \<Rightarrow> settings" where
  "initialSettings fmt =
     \<lparr>DEFAULT_LIMIT = 500, cfgAllowedExtensions = None, cfgMaxFileSize = None,
      importMetaEnv = None, formatFileSize = fmt, hostToLowerCase = toLowerCase\<rparr>"

definition viteSettings :: "(nat \<Rightarrow> string) \<Rightarrow> settings" where
  "viteSettings fmt =
     (initialSettings fmt)
       \<lparr>importMetaEnv := Some \<lparr>envAllowedExtensions = None, envMaxSizeBytes = None\<rparr>\<rparr>"

definition sampleTextarea :: "nat \<Rightarrow> field" where
  "sampleTextarea n =
     blankField\<lparr>uid := 1, tagName := ''TEXTAREA'', fieldType := ''textarea'',
       fieldValue := replicate n CHR ''x'', fieldLabel := ''Comments''\<rparr>"

definition sampleFileInput :: field where
  "sampleFileInput =
     blankField\<lparr>uid := 2, fieldType := ''file'',
       files := Some [\<lparr>fileName = ''cv.pdf'', fileSize = 2048\<rparr>,
                      \<lparr>fileName = ''scan.PDF'', fileSize = 10485761\<rparr>,
                      \<lparr>fileName = ''setup.exe'', fileSize = 5\<rparr>]\<rparr>"


text \<open>A file input holding one small PDF file.\<close>

definition reportUpload :: field where
  "reportUpload =
     blankField\<lparr>uid := 5, fieldType := ''file'',
       files := Some [\<lparr>fileName = ''report.pdf'', fileSize = 1024\<rparr>]\<rparr>"

definition declaredTextarea :: "nat \<Rightarrow> field" where
  "declaredTextarea n = (sampleTextarea n)\<lparr>dataCharacterLimit := Some ''500''\<rparr>"

text \<open>A displayed step with a Next button and nothing else.\<close>

definition blankStep :: step where
  "blankStep =
     \<lparr>displayNone = False, visibilityHidden = False, opacityZero = False,
      stepFields = [], alerts = [],
      navigationButtons = [\<lparr>buttonId = 100, buttonText = ''Next''\<rparr>],
      errorSummary = None, summaryPlacement = None, summaryVisible = True,
      hasErrorSummaryAttr = False, repositionedBar = Absent, firstFormField = Child,
      contentDisplayFlex = False, stepFallbackClass = False, contentFallbackClass = False\<rparr>"


text \<open>A step with one required, empty text input.\<close>

definition requiredTextField :: field where
  "requiredTextField = blankField\<lparr>uid := 4, requiredAttr := True, fieldLabel := ''First name''\<rparr>"

definition requiredTextStep :: step where
  "requiredTextStep = blankStep\<lparr>stepFields := [requiredTextField]\<rparr>"

text \<open>
  A step with a required text input and an optional e-mail input, both empty, and the
  same step once the user has filled in the required input.
\<close>

definition optionalEmailField :: field where
  "optionalEmailField =
     blankField\<lparr>uid := 3, fieldType := ''email'', nameAttr := Some ''email'',
       fieldLabel := ''Email''\<rparr>"

definition twoFieldStep :: step where
  "twoFieldStep = blankStep\<lparr>stepFields := [requiredTextField, optionalEmailField]\<rparr>"

definition filledIn :: "step \<Rightarrow> step" where
  "filledIn s = s\<lparr>stepFields := [requiredTextField\<lparr>fieldValue := ''Ann''\<rparr>, optionalEmailField]\<rparr>"

text \<open>
  A step with a required text input, a required telephone input and an optional e-mail
  input, all empty; and the same step filled in, holding a summary that is not visible.
\<close>

definition requiredTelField :: field where
  "requiredTelField =
     blankField\<lparr>uid := 6, fieldType := ''tel'', requiredAttr := True, fieldLabel := ''Phone''\<rparr>"

definition contactStep :: step where
  "contactStep =
     blankStep\<lparr>stepFields := [requiredTextField, requiredTelField, optionalEmailField]\<rparr>"

definition completedStep :: step where
  "completedStep =
     blankStep\<lparr>stepFields := [requiredTextField\<lparr>fieldValue := ''Ann''\<rparr>,
                              requiredTelField\<lparr>fieldValue := ''+1 5551234567''\<rparr>,
                              optionalEmailField\<lparr>fieldValue := ''ann@example.org''\<rparr>],
       errorSummary :=
         Some \<lparr>summaryHeading = ''This form contains 1 error. Please review the following:'',
               summaryLinks = [\<lparr>problemField = requiredTelField,
                                description = ''Phone: Please complete this required field.''\<rparr>]\<rparr>,
       summaryPlacement := Some BeforeFirstFormField, summaryVisible := False,
       hasErrorSummaryAttr := True\<rparr>"

text \<open>A step whose only content is a visible native error that no field search can place.\<close>

definition unattributedAlertStep :: step where
  "unattributedAlertStep =
     blankStep\<lparr>alerts := [\<lparr>alertVisible = True, alertText = ''Submission failed'',
                            alertField = None\<rparr>]\<rparr>"

definition freshCleanup :: "nat \<Rightarrow> cleanup" where
  "freshCleanup k =
     \<lparr>controllerId = k, aborted = False, observers = [], globalListeners = [],
      cachedVisibleStep = None, cacheValid = True\<rparr>"

definition clickIn :: "nat \<Rightarrow> clickEvent" where
  "clickIn i = \<lparr>targetStep = Some i, defaultPrevented = False, propagationStopped = False\<rparr>"

text \<open>A page with nothing attached and no form set up.\<close>

definition emptyPage :: page where
  "emptyPage =
     \<lparr>attached = [], observing = [], initializedForms = {}, formCleanupMap = Map.empty,
      nextIdentity = 1000\<rparr>"

text \<open>A one-step form with a required text input and a file input.\<close>

definition uploadForm :: form where
  "uploadForm =
     \<lparr>formId = 7,
      stepsOf = [blankStep\<lparr>stepFields := [requiredTextField, sampleFileInput]\<rparr>],
      dropdownButtons = [], phoneFields = []\<rparr>"

text \<open>
  A form with one step: the step content holds a heading and a row with an input, and
  the progress bar sits in the footer of the step.
\<close>

definition sampleElements :: "nat \<Rightarrow> element" where
  "sampleElements n =
     \<lparr>elTag = (if n = 7 then ''INPUT'' else if n = 5 then ''H2'' else ''DIV''),
      classes = (if n = 2 then [''hsfc-Form'']
                 else if n = 3 then [''hsfc-Step'']
                 else if n = 4 then [''hsfc-Step__Content'']
                 else if n = 6 then [''hsfc-Row'']
                 else if n = 9 then [''hsfc-ProgressBar'']
                 else []),
      attributes = [], cssDisplay = ''block'', inlineStyle = []\<rparr>"

definition sampleDocument :: document where
  "sampleDocument =
     \<lparr>body = Node 1 [Node 2 [Node 3 [Node 4 [Node 5 [], Node 6 [Node 7 []]],
                                       Node 8 [Node 9 []]]]],
      elements = sampleElements\<rparr>"


section \<open>Verified properties\<close>

subsection \<open>Telephone fields\<close>

lemma digitsUpTo_iff: "digitsUpTo n s \<longleftrightarrow> length s \<le> n \<and> list_all isDigit s"
  by (induction n s rule: digitsUpTo.induct) auto

lemma testPlusDigits_iff:
  "testPlusDigits s \<longleftrightarrow> (\<exists>ds. s = CHR ''+'' # ds \<and> length ds \<le> 3 \<and> list_all isDigit ds)"
  by (cases s) (auto simp: testPlusDigits_def digitsUpTo_iff)

text \<open>
  C7, as stated, fails: the specification's rule rejects a value made of at most three
  digits without a plus sign, while the code's pattern requires the plus sign. The value
  \<open>123\<close> is valid for \<open>FieldValidator\<close> and invalid under the specification's wording.
\<close>

theorem C7_bare_digits_counterexample:
  "validateTelField (blankField\<lparr>fieldType := ''tel'', fieldValue := ''123''\<rparr>)
   \<and> \<not> telValidAsSpecified ''123''"
  by (simp add: validateTelField_def telValidAsSpecified_def optionalPlusDigits_def
      blankField_def trim_def isWhiteSpace_def testPlusDigits_def isDigit_def digitsUpTo_iff)

text \<open>
  C7, amended: \<open>FieldValidator\<close> judges a telephone field valid iff its trimmed value is
  non-empty, is not a bare plus sign, and does not consist of a plus sign followed by at
  most three digits and nothing else (the plus sign is required for the value to count as
  a bare country code). The value \<open>+1\<close> is invalid, the empty value is invalid, and
  \<open>+1 5551234567\<close> is valid.
\<close>

theorem C7_tel_valid_iff:
  "(validateTelField f \<longleftrightarrow>
      trim (fieldValue f) \<noteq> [] \<and> trim (fieldValue f) \<noteq> ''+''
      \<and> \<not> (\<exists>ds. trim (fieldValue f) = CHR ''+'' # ds \<and> length ds \<le> 3
                 \<and> list_all isDigit ds))
   \<and> \<not> validateTelField (f\<lparr>fieldValue := ''+1''\<rparr>)
   \<and> \<not> validateTelField (f\<lparr>fieldValue := []\<rparr>)
   \<and> validateTelField (f\<lparr>fieldValue := ''+1 5551234567''\<rparr>)"
proof -
  have general: "validateTelField f \<longleftrightarrow>
      trim (fieldValue f) \<noteq> [] \<and> trim (fieldValue f) \<noteq> ''+''
      \<and> \<not> (\<exists>ds. trim (fieldValue f) = CHR ''+'' # ds \<and> length ds \<le> 3
                 \<and> list_all isDigit ds)"
    unfolding validateTelField_def Let_def testPlusDigits_iff by blast
  have examples: "\<not> validateTelField (f\<lparr>fieldValue := ''+1''\<rparr>)"
    "\<not> validateTelField (f\<lparr>fieldValue := []\<rparr>)"
    "validateTelField (f\<lparr>fieldValue := ''+1 5551234567''\<rparr>)"
    by (simp_all add: validateTelField_def trim_def isWhiteSpace_def testPlusDigits_def
        isDigit_def digitsUpTo_iff)
  from general examples show ?thesis by blast
qed

subsection \<open>File uploads\<close>

lemma splitOn_not_Nil: "splitOn sep s \<noteq> []"
  by (induction s) (auto split: list.splits)

lemma maxFileSize_throws_iff:
  "maxFileSize st = Inl e \<longleftrightarrow>
     e = TypeError \<and> (cfgMaxFileSize st = None \<or> cfgMaxFileSize st = Some 0)
     \<and> importMetaEnv st = None"
  by (auto simp: maxFileSize_def split: option.splits if_splits)

lemma allowedExtensions_throws_iff:
  "allowedExtensions st = Inl e \<longleftrightarrow>
     e = TypeError \<and> cfgAllowedExtensions st = None \<and> importMetaEnv st = None"
  by (auto simp: allowedExtensions_def split: option.splits list.splits)

lemma validateEachFile_resolved:
  assumes "maxFileSize st = Inr maxSize" and "allowedExtensions st = Inr allowed"
  shows "validateEachFile st fs acc =
     Inr (acc @ concat (map (\<lambda>f. (if fileSize f > maxSize then [sizeError st maxSize f] else [])
                          @ (if fileExtension st f \<notin> set allowed
                             then [typeError st allowed f] else [])) fs))"
  using assms by (induction fs arbitrary: acc) (auto simp: Let_def)

lemma sizeError_neq_typeError: "sizeError st maxSize f \<noteq> typeError st allowed f"
  by (simp add: sizeError_def typeError_def)

lemma length_concat_if:
  "length (concat (map (\<lambda>f. (if P f then [a f] else []) @ (if Q f then [b f] else [])) fs))
   = length (filter P fs) + length (filter Q fs)"
  by (induction fs) auto

lemma validateFile_no_files:
  "files inp = None \<or> files inp = Some [] \<Longrightarrow>
     validateFile st inp = Inr \<lparr>valid = True, errors = []\<rparr>"
  by (auto simp: validateFile_def)

lemma validateFile_throws_iff:
  "validateFile st inp = Inl e \<longleftrightarrow>
     e = TypeError \<and> files inp \<noteq> None \<and> files inp \<noteq> Some []
     \<and> (maxFileSize st = Inl TypeError \<or> allowedExtensions st = Inl TypeError)"
proof (cases "files inp")
  case None
  then show ?thesis by (simp add: validateFile_def)
next
  case (Some fs)
  show ?thesis
  proof (cases fs)
    case Nil
    with Some show ?thesis by (simp add: validateFile_def)
  next
    case (Cons f fs')
    show ?thesis
    proof (cases "maxFileSize st")
      case (Inl x)
      then have x: "x = TypeError" by (simp add: maxFileSize_throws_iff)
      from Inl have "validateEachFile st (f # fs') [] = Inl x" by simp
      with Some Cons Inl x show ?thesis by (auto simp: validateFile_def)
    next
      case m: (Inr maxSize)
      show ?thesis
      proof (cases "allowedExtensions st")
        case (Inl x)
        then have x: "x = TypeError" by (simp add: allowedExtensions_throws_iff)
        from m Inl have "validateEachFile st (f # fs') [] = Inl x" by (simp add: Let_def)
        with Some Cons Inl m x show ?thesis by (auto simp: validateFile_def)
      next
        case (Inr allowed)
        from validateEachFile_resolved [OF m Inr] Some Cons m Inr
        show ?thesis by (simp add: validateFile_def del: validateEachFile.simps)
      qed
    qed
  qed
qed

lemma validateFile_resolved:
  assumes "maxFileSize st = Inr maxSize" and "allowedExtensions st = Inr allowed"
  shows "\<exists>v. validateFile st inp = Inr v
     \<and> (valid v \<longleftrightarrow> errors v = [])
     \<and> (\<forall>fs. files inp = Some fs \<longrightarrow>
          errors v =
            concat (map (\<lambda>f. (if fileSize f > maxSize then [sizeError st maxSize f] else [])
                          @ (if fileExtension st f \<notin> set allowed
                             then [typeError st allowed f] else [])) fs)
          \<and> (\<forall>f\<in>set fs. fileSize f > maxSize \<longrightarrow> sizeError st maxSize f \<in> set (errors v))
          \<and> (\<forall>f\<in>set fs. fileExtension st f \<notin> set allowed \<longrightarrow>
                typeError st allowed f \<in> set (errors v))
          \<and> length (errors v)
              = length (filter (\<lambda>f. fileSize f > maxSize) fs)
                + length (filter (\<lambda>f. fileExtension st f \<notin> set allowed) fs)
          \<and> (list_all (\<lambda>f. fileSize f \<le> maxSize \<and> fileExtension st f \<in> set allowed) fs
               \<longrightarrow> valid v \<and> errors v = []))"
proof (cases "files inp")
  case None
  then show ?thesis by (simp add: validateFile_def)
next
  case (Some fs)
  let ?errs = "concat (map (\<lambda>f. (if fileSize f > maxSize then [sizeError st maxSize f] else [])
                          @ (if fileExtension st f \<notin> set allowed
                             then [typeError st allowed f] else [])) fs)"
  have run: "validateFile st inp = Inr \<lparr>valid = (?errs = []), errors = ?errs\<rparr>"
    using Some validateEachFile_resolved [OF assms, of fs "[]"]
    by (cases fs) (simp_all add: validateFile_def del: validateEachFile.simps)
  have size: "\<forall>f\<in>set fs. fileSize f > maxSize \<longrightarrow> sizeError st maxSize f \<in> set ?errs"
    by auto
  have type: "\<forall>f\<in>set fs. fileExtension st f \<notin> set allowed \<longrightarrow>
      typeError st allowed f \<in> set ?errs"
    by auto
  have count: "length ?errs = length (filter (\<lambda>f. fileSize f > maxSize) fs)
                + length (filter (\<lambda>f. fileExtension st f \<notin> set allowed) fs)"
    by (rule length_concat_if)
  have ok: "list_all (\<lambda>f. fileSize f \<le> maxSize \<and> fileExtension st f \<in> set allowed) fs
      \<longrightarrow> ?errs = []"
    by (auto simp: list_all_iff)
  show ?thesis
    using Some size type count ok by (simp only: run) auto
qed

lemma init_resolves:
  assumes "optAllowedExtensions options = Some allowed"
    and "optMaxFileSize options = Some maxSize" and "maxSize \<noteq> 0"
  shows "maxFileSize (init options st) = Inr maxSize"
    and "allowedExtensions (init options st) = Inr allowed"
  using assms
  by (simp_all add: init_def maxFileSize_def allowedExtensions_def Let_def
      split: option.splits)

lemma vite_resolves:
  "maxFileSize (viteSettings fmt) = Inr 10485760"
  "allowedExtensions (viteSettings fmt)
     = Inr [''pdf'', ''doc'', ''docx'', ''jpg'', ''jpeg'', ''png'', ''gif'', ''txt'']"
  by (simp_all add: maxFileSize_def allowedExtensions_def viteSettings_def
      initialSettings_def)

lemma sample_extensions:
  "fileExtension (viteSettings fmt) \<lparr>fileName = ''cv.pdf'', fileSize = n\<rparr> = ''pdf''"
  "fileExtension (viteSettings fmt) \<lparr>fileName = ''scan.PDF'', fileSize = n\<rparr> = ''pdf''"
  "fileExtension (viteSettings fmt) \<lparr>fileName = ''setup.exe'', fileSize = n\<rparr> = ''exe''"
  "fileExtension (viteSettings fmt) \<lparr>fileName = ''report.pdf'', fileSize = n\<rparr> = ''pdf''"
  by (simp_all add: fileExtension_def viteSettings_def initialSettings_def toLowerCase_def
      toLowerChar_def)

lemma validateFile_sample:
  "validateFile (viteSettings (\<lambda>n. ''10 MB'')) sampleFileInput =
     Inr \<lparr>valid = False,
          errors = [''File \"scan.PDF\" size exceeds 10 MB limit'',
                    ''File \"setup.exe\" type \".exe\" is not allowed. Allowed types: .pdf, .doc, .docx, .jpg, .jpeg, .png, .gif, .txt'']\<rparr>"
proof -
  let ?st = "viteSettings (\<lambda>n. ''10 MB'')"
  have files: "files sampleFileInput = Some [\<lparr>fileName = ''cv.pdf'', fileSize = 2048\<rparr>,
                      \<lparr>fileName = ''scan.PDF'', fileSize = 10485761\<rparr>,
                      \<lparr>fileName = ''setup.exe'', fileSize = 5\<rparr>]"
    by (simp add: sampleFileInput_def blankField_def)
  have fmt: "formatFileSize ?st = (\<lambda>n. ''10 MB'')"
    by (simp add: viteSettings_def initialSettings_def)
  show ?thesis
    by (simp add: validateFile_def files validateEachFile_resolved [OF vite_resolves]
        sample_extensions sizeError_def typeError_def fmt del: validateEachFile.simps)
qed

text \<open>
  C5 where nothing defines \<open>import.meta.env\<close>: after \<open>init\<close> with no upload option,
  \<open>validateFile\<close> on an input that holds the one file \<open>report.pdf\<close> of 1024 bytes throws a
  \<open>TypeError\<close>, because the \<open>maxFileSize\<close> getter reads
  \<open>import.meta.env.VITE_UPLOAD_MAX_SIZE\<close> before it reaches its default. The file
  satisfies both default constraints, and under Vite it is accepted. Where both getters
  return, \<open>validateFile\<close> is as the claim states (\<open>validateFile_resolved\<close>), and with no
  file selected the result is valid in every state (\<open>validateFile_no_files\<close>).
\<close>

theorem C5_validateFile_throws:
  "validateFile (init \<lparr>optCharacterLimit = None, optAllowedExtensions = None,
                       optMaxFileSize = None\<rparr> (initialSettings (\<lambda>n. ''10 MB'')))
       reportUpload = Inl TypeError
   \<and> validateFile (viteSettings (\<lambda>n. ''10 MB'')) reportUpload
       = Inr \<lparr>valid = True, errors = []\<rparr>"
proof -
  have files: "files reportUpload = Some [\<lparr>fileName = ''report.pdf'', fileSize = 1024\<rparr>]"
    by (simp add: reportUpload_def blankField_def)
  have state: "init \<lparr>optCharacterLimit = None, optAllowedExtensions = None,
                      optMaxFileSize = None\<rparr> (initialSettings (\<lambda>n. ''10 MB''))
      = initialSettings (\<lambda>n. ''10 MB'')"
    by (simp add: init_def)
  have "maxFileSize (initialSettings (\<lambda>n. ''10 MB'')) = Inl TypeError"
    by (simp add: maxFileSize_def initialSettings_def)
  then have throws: "validateFile (initialSettings (\<lambda>n. ''10 MB'')) reportUpload = Inl TypeError"
    by (simp add: validateFile_throws_iff files)
  have accepted: "validateFile (viteSettings (\<lambda>n. ''10 MB'')) reportUpload
       = Inr \<lparr>valid = True, errors = []\<rparr>"
    by (simp add: validateFile_def files validateEachFile_resolved [OF vite_resolves]
        sample_extensions del: validateEachFile.simps)
  from throws accepted show ?thesis by (simp only: state)
qed

lemma validateFile_throws_with_size_configured:
  "validateFile (init \<lparr>optCharacterLimit = None, optAllowedExtensions = None,
                       optMaxFileSize = Some 5242880\<rparr> (initialSettings fmt))
       reportUpload = Inl TypeError"
  by (simp add: validateFile_throws_iff reportUpload_def blankField_def init_def
      allowedExtensions_def initialSettings_def)

subsection \<open>The character counter\<close>

lemma showNat_503: "showNat 503 = ''503''" by code_simp
lemma showNat_500: "showNat 500 = ''500''" by code_simp

lemma counter_text: "textContent (updateCharacterCounter t c N) = showInt (int (length (fieldValue t))) @ ''/'' @ showInt N @ '' characters''"
  by (simp add: updateCharacterCounter_def Let_def)

lemma counter_class_within:
  "int (length (fieldValue t)) \<le> N \<Longrightarrow>
   className (updateCharacterCounter t c N) =
     (if int (length (fieldValue t)) \<ge> N then ''hsfc-CharacterCounter hsfc-CharacterCounter--danger''
      else if N - 20 \<le> int (length (fieldValue t)) then ''hsfc-CharacterCounter hsfc-CharacterCounter--warning''
      else ''hsfc-CharacterCounter hsfc-CharacterCounter--default'')"
  by (simp add: updateCharacterCounter_def Let_def)

text \<open>
  C6 at a length above the limit: with limit 500 and a value of 503 characters the counter
  text is \<open>503/500 characters\<close>, and the status class is the warning class, since
  \<open>remaining\<close> is \<open>-3\<close>, which is not \<open>0\<close> and is at most \<open>20\<close>. Within the limit
  the classes are as the claim states (\<open>counter_class_within\<close>).
\<close>

theorem C6_counter_over_limit: "updateCharacterCounter (sampleTextarea 503) \<lparr>textContent = [], className = []\<rparr> 500
   = \<lparr>textContent = ''503/500 characters'',
      className = ''hsfc-CharacterCounter hsfc-CharacterCounter--warning''\<rparr>"
  by (simp add: updateCharacterCounter_def sampleTextarea_def blankField_def showInt_def showNat_503 showNat_500)

subsection \<open>Field validation\<close>

text \<open>
  The validation of a field throws only for a file input that holds files, in a state
  where one of the two limits does not resolve. Where no field throws, each loop over the
  required fields returns.
\<close>

lemma isFieldValid_throws_iff:
  "isFieldValid st f container = Inl e \<longleftrightarrow>
     fieldType f = ''file'' \<and> files f \<noteq> None \<and> files f \<noteq> Some []
     \<and> validateFile st f = Inl e"
  by (auto simp: isFieldValid_def validateFileField_def split: sum.splits)

lemma isFieldValid_isl:
  "isl (isFieldValid st f container) \<longleftrightarrow>
     fieldType f = ''file'' \<and> files f \<noteq> None \<and> files f \<noteq> Some []
     \<and> (maxFileSize st = Inl TypeError \<or> allowedExtensions st = Inl TypeError)"
proof -
  have "isl (isFieldValid st f container) \<longleftrightarrow> (\<exists>e. isFieldValid st f container = Inl e)"
    by (cases "isFieldValid st f container") simp_all
  then show ?thesis
    by (auto simp: isFieldValid_throws_iff validateFile_throws_iff)
qed

lemma isFieldValid_other_types:
  "fieldType f \<noteq> ''file'' \<Longrightarrow> \<not> isl (isFieldValid st f container)"
  by (simp add: isFieldValid_isl)

lemma isFieldValid_resolved:
  "maxFileSize st = Inr maxSize \<Longrightarrow> allowedExtensions st = Inr allowed \<Longrightarrow>
   \<not> isl (isFieldValid st f container)"
  by (simp add: isFieldValid_isl)

lemma isFieldInvalid_isl:
  "isl (isFieldInvalid st f container) = isl (isFieldValid st f container)"
  by (simp add: isFieldInvalid_def split: sum.splits)

lemma isFieldInvalid_Inr:
  "isFieldInvalid st f container = Inr b \<longleftrightarrow> isFieldValid st f container = Inr (\<not> b)"
  by (auto simp: isFieldInvalid_def split: sum.splits)

lemma isFieldInvalid_Inl:
  "isFieldInvalid st f container = Inl e \<longleftrightarrow> isFieldValid st f container = Inl e"
  by (auto simp: isFieldInvalid_def split: sum.splits)

lemma returns_cases:
  assumes "\<not> isl (isFieldValid st f container)"
  obtains "isFieldValid st f container = Inr True" | "isFieldValid st f container = Inr False"
  using assms by (cases "isFieldValid st f container") auto

lemma allRequiredFilled_returns:
  assumes "\<forall>f\<in>set fs. \<not> isl (isFieldValid st f container)"
  shows "allRequiredFilled st container fs
     = Inr (\<forall>f\<in>set fs. isFieldValid st f container = Inr True)"
  using assms
proof (induction fs)
  case Nil
  then show ?case by simp
next
  case (Cons f fs)
  then have "\<not> isl (isFieldValid st f container)" by simp
  then show ?case
    using Cons by (cases rule: returns_cases) simp_all
qed

lemma fieldsToValidate_subset: "set (fieldsToValidate fs processed) \<subseteq> set fs"
  by (induction fs arbitrary: processed) auto

lemma hasEmptyRequiredFrom_returns:
  assumes "\<forall>f\<in>set fs. \<not> isl (isFieldValid st f container)"
  shows "hasEmptyRequiredFrom st container fs processed
     = Inr (\<exists>f\<in>set (fieldsToValidate fs processed). isFieldValid st f container = Inr False)"
  using assms
proof (induction fs arbitrary: processed)
  case Nil
  then show ?case by simp
next
  case (Cons f fs)
  then have "\<not> isl (isFieldValid st f container)" by simp
  then show ?case
    using Cons by (cases rule: returns_cases) (auto simp: isFieldInvalid_def)
qed

lemma collectRequiredErrors_returns:
  assumes "\<forall>f\<in>set fs. \<not> isl (isFieldValid st f container)"
  shows "\<exists>acc'. collectRequiredErrors st container fs processed acc = Inr acc'
           \<and> set acc \<subseteq> set acc'"
  using assms
proof (induction fs arbitrary: processed acc)
  case Nil
  then show ?case by simp
next
  case (Cons f fs)
  then have f: "\<not> isl (isFieldValid st f container)"
    and rest: "\<forall>f\<in>set fs. \<not> isl (isFieldValid st f container)" by simp_all
  show ?case
  proof (cases "isGroupField f \<and> fieldName f \<in> set processed")
    case True
    with Cons.IH [OF rest, of processed acc] show ?thesis by simp
  next
    case False
    let ?pg = "if isGroupField f then fieldName f # processed else processed"
    from f obtain b where b: "isFieldInvalid st f container = Inr b"
      by (cases "isFieldInvalid st f container") (simp_all flip: isFieldInvalid_isl)
    let ?acc1 = "if b \<and> \<not> alreadyFound acc f
                 then acc @ [\<lparr>problemField = f,
                               description =
                                 labelOrName f @ '': Please complete this required field.''\<rparr>]
                 else acc"
    from Cons.IH [OF rest, of ?pg ?acc1]
    obtain acc' where "collectRequiredErrors st container fs ?pg ?acc1 = Inr acc'"
      and "set ?acc1 \<subseteq> set acc'" by blast
    moreover have "set acc \<subseteq> set ?acc1" by auto
    ultimately show ?thesis using False b by auto
  qed
qed

subsection \<open>Character limits\<close>

lemma trim_replicate: "n > 0 \<Longrightarrow> \<not> isWhiteSpace c \<Longrightarrow> trim (replicate n c) = replicate n c"
  by (cases n) (simp_all add: trim_def flip: replicate_Suc)

text \<open>
  C10: for a textarea without a \<open>data-character-limit\<close> attribute, the text validation of
  \<open>FieldValidator\<close> compares the length with 500 whatever \<open>DEFAULT_LIMIT\<close> is, while
  \<open>hasCharacterLimitError\<close> compares it with \<open>DEFAULT_LIMIT\<close>. After
  \<open>init({characterLimit: 1000})\<close> a value of 600 characters is invalid for
  \<open>isFieldValid\<close>, which returns \<open>false\<close>, and is no overflow for
  \<open>hasCharacterLimitError\<close>.
\<close>

theorem C10_hardcoded_limit:
  assumes "isTextarea t" and "fieldType t = ''textarea''" and "dataCharacterLimit t = None"
  shows "(validateTextBasedField t \<longleftrightarrow> hasValue t \<and> length (fieldValue t) \<le> 500)
    \<and> (hasCharacterLimitError st t \<longleftrightarrow> int (length (fieldValue t)) > DEFAULT_LIMIT st)
    \<and> DEFAULT_LIMIT (init \<lparr>optCharacterLimit = Some 1000, optAllowedExtensions = None,
                              optMaxFileSize = None\<rparr> st) = 1000
    \<and> (length (fieldValue t) = 600 \<longrightarrow>
          isFieldValid (init \<lparr>optCharacterLimit = Some 1000, optAllowedExtensions = None,
                                  optMaxFileSize = None\<rparr> st) t container = Inr False
          \<and> \<not> hasCharacterLimitError (init \<lparr>optCharacterLimit = Some 1000,
                                    optAllowedExtensions = None, optMaxFileSize = None\<rparr> st) t)"
  using assms
  by (simp add: validateTextBasedField_def isTextarea_def hasValue_def parseInt_def orDefault_def
      hasCharacterLimitError_def init_def isFieldValid_def Let_def)

theorem C10_hardcoded_limit_witness:
  "isTextarea (sampleTextarea 600)
   \<and> dataCharacterLimit (sampleTextarea 600) = None
   \<and> length (fieldValue (sampleTextarea 600)) = 600
   \<and> hasValue (sampleTextarea 600)
   \<and> isFieldValid (init \<lparr>optCharacterLimit = Some 1000, optAllowedExtensions = None,
          optMaxFileSize = None\<rparr> (initialSettings (\<lambda>n. []))) (sampleTextarea 600)
          [sampleTextarea 600] = Inr False
   \<and> \<not> hasCharacterLimitError (init \<lparr>optCharacterLimit = Some 1000,
          optAllowedExtensions = None, optMaxFileSize = None\<rparr> (initialSettings (\<lambda>n. [])))
          (sampleTextarea 600)"
proof -
  have a: "isTextarea (sampleTextarea 600)"
    by (simp add: isTextarea_def sampleTextarea_def blankField_def toLowerCase_def
        toLowerChar_def)
  have b: "fieldType (sampleTextarea 600) = ''textarea''"
    by (simp add: sampleTextarea_def)
  have c: "dataCharacterLimit (sampleTextarea 600) = None"
    by (simp add: sampleTextarea_def blankField_def)
  have d: "length (fieldValue (sampleTextarea 600)) = 600"
    by (simp add: sampleTextarea_def)
  have e: "hasValue (sampleTextarea 600)"
    by (simp add: hasValue_def sampleTextarea_def trim_replicate isWhiteSpace_def)
  from C10_hardcoded_limit [OF a b c, of "initialSettings (\<lambda>n. [])" "[sampleTextarea 600]"] d
  have "isFieldValid (init \<lparr>optCharacterLimit = Some 1000, optAllowedExtensions = None,
          optMaxFileSize = None\<rparr> (initialSettings (\<lambda>n. []))) (sampleTextarea 600)
          [sampleTextarea 600] = Inr False
   \<and> \<not> hasCharacterLimitError (init \<lparr>optCharacterLimit = Some 1000,
          optAllowedExtensions = None, optMaxFileSize = None\<rparr> (initialSettings (\<lambda>n. [])))
          (sampleTextarea 600)"
    by blast
  with a c d e show ?thesis by blast
qed

lemma collectNativeErrors_fields:
  "p \<in> set (collectNativeErrors as acc) \<Longrightarrow>
   p \<in> set acc \<or> (\<exists>a\<in>set as. alertVisible a \<and> trim (alertText a) \<noteq> []
                        \<and> alertField a = Some (problemField p))"
proof (induction as arbitrary: acc)
  case Nil
  then show ?case by simp
next
  case (Cons a as)
  let ?acc' = "(if alertVisible a \<and> trim (alertText a) \<noteq> []
        then (case alertField a of
                Some f \<Rightarrow>
                  acc @ [\<lparr>problemField = f,
                          description = labelOrName f @ '': '' @ trim (alertText a)\<rparr>]
              | None \<Rightarrow> acc)
        else acc)"
  from Cons.prems have "p \<in> set (collectNativeErrors as ?acc')" by simp
  from Cons.IH [OF this]
  have "p \<in> set ?acc' \<or> (\<exists>a\<in>set as. alertVisible a \<and> trim (alertText a) \<noteq> []
                        \<and> alertField a = Some (problemField p))" .
  then show ?case by (auto split: if_splits option.splits)
qed

lemma collectCharacterLimitErrors_keeps:
  "p \<in> set acc \<Longrightarrow> p \<in> set (collectCharacterLimitErrors st ts acc)"
  by (induction ts arbitrary: acc) (simp_all split: option.splits)

lemma collectFormatErrors_keeps:
  "p \<in> set acc \<Longrightarrow> p \<in> set (collectFormatErrors fs acc)"
  by (induction fs arbitrary: acc) (simp_all add: Let_def)

lemma collectEmptyEmails_keeps:
  "p \<in> set acc \<Longrightarrow> p \<in> set (collectEmptyEmails fs acc)"
  by (induction fs arbitrary: acc) simp_all

lemma alreadyFound_append:
  "alreadyFound (acc @ [p]) f \<longleftrightarrow> alreadyFound acc f \<or> uid (problemField p) = uid f"
  by (auto simp: alreadyFound_def sameElement_def)

lemma collectCharacterLimitErrors_adds:
  assumes "t \<in> set ts" and "distinct (map uid ts)" and "\<not> alreadyFound acc t"
    and "hasCharacterLimitError st t" and "getCharacterLimitErrorMessage st t = Some m"
    and "m \<noteq> []"
  shows "\<lparr>problemField = t, description = m\<rparr> \<in> set (collectCharacterLimitErrors st ts acc)"
  using assms
proof (induction ts arbitrary: acc)
  case Nil
  then show ?case by simp
next
  case (Cons x xs)
  show ?case
  proof (cases "x = t")
    case True
    with Cons.prems have "\<lparr>problemField = t, description = m\<rparr> \<in> set (acc @ [\<lparr>problemField = t, description = m\<rparr>])"
      by simp
    then have "\<lparr>problemField = t, description = m\<rparr>
        \<in> set (collectCharacterLimitErrors st xs (acc @ [\<lparr>problemField = t, description = m\<rparr>]))"
      by (rule collectCharacterLimitErrors_keeps)
    with True Cons.prems show ?thesis by simp
  next
    case False
    with Cons.prems have mem: "t \<in> set xs" and dist: "distinct (map uid xs)"
      and neq: "uid x \<noteq> uid t"
      by auto
    show ?thesis
      using Cons.IH [OF mem dist _ Cons.prems(4,5,6)] Cons.prems(3) neq
      by (auto simp: alreadyFound_append split: option.splits)
  qed
qed

lemma getCharacterLimitErrorMessage_declared:
  assumes "parseInt (dataCharacterLimit t) = Some N" and "N \<noteq> 0"
    and "int (length (fieldValue t)) > N"
  shows "getCharacterLimitErrorMessage st t =
      Some ((if fieldLabel t = [] then ''Text area'' else fieldLabel t)
              @ '': Must be '' @ showInt N @ '' characters or less (currently ''
              @ showInt (int (length (fieldValue t)) - N) @ '' over)'')"
    and "hasCharacterLimitError st t"
  using assms
  by (simp_all add: getCharacterLimitErrorMessage_def hasCharacterLimitError_def orDefault_def
      Let_def)

text \<open>
  C9, amended: when a textarea with declared limit \<open>N\<close> holds a value longer than \<open>N\<close>,
  \<open>getCharacterLimitErrorMessage\<close> returns the label followed by
  \<open>: Must be N characters or less (currently K over)\<close> with \<open>K\<close> the exact overage, and,
  unless a visible native error is already paired with the textarea, the step-level
  aggregator returns a list with an entry for the textarea with that text. The aggregator
  returns when the validation of no required field of the step throws; otherwise it
  throws and lists nothing (\<open>required_upload_throws\<close>).
\<close>

theorem C9_overflow_entry:
  assumes "t \<in> set (stepFields s)" and "isTextarea t"
    and "distinct (map uid (stepFields s))"
    and "parseInt (dataCharacterLimit t) = Some N" and "N \<noteq> 0"
    and "int (length (fieldValue t)) > N"
    and "list_all (\<lambda>a. alertVisible a \<and> trim (alertText a) \<noteq> [] \<longrightarrow>
                     (case alertField a of None \<Rightarrow> True | Some f \<Rightarrow> uid f \<noteq> uid t))
           (alerts s)"
    and "list_all (\<lambda>f. isRequiredField f \<longrightarrow> \<not> isl (isFieldValid st f (stepFields s)))
           (stepFields s)"
  shows "getCharacterLimitErrorMessage st t =
      Some ((if fieldLabel t = [] then ''Text area'' else fieldLabel t)
              @ '': Must be '' @ showInt N @ '' characters or less (currently ''
              @ showInt (int (length (fieldValue t)) - N) @ '' over)'')
    \<and> (\<exists>fieldsWithErrors. getFieldsWithErrors st s = Inr fieldsWithErrors
         \<and> \<lparr>problemField = t,
             description = (if fieldLabel t = [] then ''Text area'' else fieldLabel t)
               @ '': Must be '' @ showInt N @ '' characters or less (currently ''
               @ showInt (int (length (fieldValue t)) - N) @ '' over)''\<rparr>
           \<in> set fieldsWithErrors)"
proof -
  let ?m = "(if fieldLabel t = [] then ''Text area'' else fieldLabel t)
              @ '': Must be '' @ showInt N @ '' characters or less (currently ''
              @ showInt (int (length (fieldValue t)) - N) @ '' over)''"
  let ?acc1 = "collectNativeErrors (alerts s) []"
  note msg = getCharacterLimitErrorMessage_declared [OF assms(4,5,6), of st]
  have notFound: "\<not> alreadyFound ?acc1 t"
  proof
    assume "alreadyFound ?acc1 t"
    then obtain p where p: "p \<in> set ?acc1" and same: "uid (problemField p) = uid t"
      by (auto simp: alreadyFound_def sameElement_def list_ex_iff)
    from collectNativeErrors_fields [OF p]
    obtain a where "a \<in> set (alerts s)" "alertVisible a" "trim (alertText a) \<noteq> []"
      "alertField a = Some (problemField p)" by auto
    with assms(7) same show False by (auto simp: list_all_iff)
  qed
  have mem: "t \<in> set (filter isTextarea (stepFields s))"
    using assms(1,2) by simp
  have dist: "distinct (map uid (filter isTextarea (stepFields s)))"
    using assms(3) by (rule distinct_map_filter)
  have "?m \<noteq> []" by simp
  from collectCharacterLimitErrors_adds [OF mem dist notFound msg(2) msg(1) this]
  have listed: "\<lparr>problemField = t, description = ?m\<rparr>
      \<in> set (collectCharacterLimitErrors st (filter isTextarea (stepFields s)) ?acc1)" .
  have "\<forall>f\<in>set (filter isRequiredField (stepFields s)).
      \<not> isl (isFieldValid st f (stepFields s))"
    using assms(8) by (simp add: list_all_iff)
  from collectRequiredErrors_returns [OF this]
  obtain acc3 where acc3: "collectRequiredErrors st (stepFields s)
        (filter isRequiredField (stepFields s)) []
        (collectCharacterLimitErrors st (filter isTextarea (stepFields s)) ?acc1) = Inr acc3"
    and keeps: "set (collectCharacterLimitErrors st (filter isTextarea (stepFields s)) ?acc1)
        \<subseteq> set acc3"
    by blast
  from listed keeps have "\<lparr>problemField = t, description = ?m\<rparr> \<in> set acc3" by blast
  then have "\<lparr>problemField = t, description = ?m\<rparr>
      \<in> set (collectEmptyEmails (filter isFormControl (stepFields s))
                (collectFormatErrors (filter isFormControl (stepFields s)) acc3))"
    by (intro collectEmptyEmails_keeps collectFormatErrors_keeps)
  moreover have "getFieldsWithErrors st s =
      Inr (collectEmptyEmails (filter isFormControl (stepFields s))
             (collectFormatErrors (filter isFormControl (stepFields s)) acc3))"
    by (simp add: getFieldsWithErrors_def Let_def acc3)
  ultimately show ?thesis using msg(1) by simp
qed

lemma parseInt_500: "parseInt (Some ''500'') = Some 500" by code_simp
lemma showInt_500: "showInt 500 = ''500''" by code_simp
lemma showInt_3: "showInt 3 = ''3''" by code_simp

lemma declared_msg:
  "getCharacterLimitErrorMessage st (declaredTextarea 503)
     = Some ''Comments: Must be 500 characters or less (currently 3 over)''"
  by (simp add: getCharacterLimitErrorMessage_def declaredTextarea_def sampleTextarea_def
      blankField_def parseInt_500 orDefault_def showInt_500 showInt_3)

text \<open>
  C9, as stated, fails: for limit 500 and length 503 the entry text supplied by
  \<open>getCharacterLimitErrorMessage\<close> is
  \<open>Comments: Must be 500 characters or less (currently 3 over)\<close>; the sentence
  \<open>You are 3 characters over the limit.\<close> does not occur in it.
\<close>

theorem C9_message_counterexample:
  "getCharacterLimitErrorMessage (initialSettings (\<lambda>n. [])) (declaredTextarea 503)
     = Some ''Comments: Must be 500 characters or less (currently 3 over)''
   \<and> map_sum id (map description)
         (getFieldsWithErrors (initialSettings (\<lambda>n. []))
            (blankStep\<lparr>stepFields := [declaredTextarea 503]\<rparr>))
     = Inr [''Comments: Must be 500 characters or less (currently 3 over)'']
   \<and> \<not> includesStr ''Comments: Must be 500 characters or less (currently 3 over)''
          ''You are 3 characters over the limit.''"
proof -
  have ta: "isTextarea (declaredTextarea 503)" "isFormControl (declaredTextarea 503)"
    "\<not> isRequiredField (declaredTextarea 503)" "hasValue (declaredTextarea 503)"
    "hasCharacterLimitError (initialSettings (\<lambda>n. [])) (declaredTextarea 503)"
    by (simp_all add: isTextarea_def isFormControl_def isRequiredField_def hasValue_def
        hasCharacterLimitError_def declaredTextarea_def sampleTextarea_def blankField_def
        toLowerCase_def toLowerChar_def trim_replicate isWhiteSpace_def parseInt_500
        orDefault_def)
  have "getFieldsWithErrors (initialSettings (\<lambda>n. []))
          (blankStep\<lparr>stepFields := [declaredTextarea 503]\<rparr>)
        = Inr [\<lparr>problemField = declaredTextarea 503,
                description = ''Comments: Must be 500 characters or less (currently 3 over)''\<rparr>]"
    by (simp add: getFieldsWithErrors_def blankStep_def ta declared_msg alreadyFound_def
        sameElement_def)
  then show ?thesis by (simp add: declared_msg)
qed

text \<open>The amended C9 at limit 500 and length 503.\<close>

theorem C9_overflow_entry_witness:
  "declaredTextarea 503 \<in> set (stepFields (blankStep\<lparr>stepFields := [declaredTextarea 503]\<rparr>))
   \<and> parseInt (dataCharacterLimit (declaredTextarea 503)) = Some 500
   \<and> length (fieldValue (declaredTextarea 503)) = 503
   \<and> (\<exists>fieldsWithErrors.
         getFieldsWithErrors (initialSettings (\<lambda>n. []))
           (blankStep\<lparr>stepFields := [declaredTextarea 503]\<rparr>) = Inr fieldsWithErrors
         \<and> \<lparr>problemField = declaredTextarea 503,
             description = ''Comments: Must be 500 characters or less (currently 3 over)''\<rparr>
           \<in> set fieldsWithErrors)"
proof -
  let ?t = "declaredTextarea 503"
  let ?s = "blankStep\<lparr>stepFields := [?t]\<rparr>"
  have a1: "?t \<in> set (stepFields ?s)" by simp
  have a2: "isTextarea ?t"
    by (simp add: isTextarea_def declaredTextarea_def sampleTextarea_def blankField_def
        toLowerCase_def toLowerChar_def)
  have a3: "distinct (map uid (stepFields ?s))" by simp
  have a4: "parseInt (dataCharacterLimit ?t) = Some 500"
    by (simp add: declaredTextarea_def parseInt_500)
  have a5: "(500::int) \<noteq> 0" by simp
  have len: "length (fieldValue ?t) = 503"
    by (simp add: declaredTextarea_def sampleTextarea_def)
  have a6: "int (length (fieldValue ?t)) > 500" by (simp add: len)
  have a7: "list_all (\<lambda>a. alertVisible a \<and> trim (alertText a) \<noteq> [] \<longrightarrow>
                     (case alertField a of None \<Rightarrow> True | Some f \<Rightarrow> uid f \<noteq> uid ?t))
           (alerts ?s)"
    by (simp add: blankStep_def)
  have lbl: "fieldLabel ?t = ''Comments''" by (simp add: declaredTextarea_def sampleTextarea_def)
  have a8: "list_all (\<lambda>f. isRequiredField f \<longrightarrow> \<not> isl (isFieldValid (initialSettings (\<lambda>n. [])) f (stepFields ?s)))
           (stepFields ?s)"
    by (simp add: isFieldValid_isl declaredTextarea_def sampleTextarea_def)
  from C9_overflow_entry [OF a1 a2 a3 a4 a5 a6 a7 a8]
  have "\<exists>fieldsWithErrors.
         getFieldsWithErrors (initialSettings (\<lambda>n. [])) ?s = Inr fieldsWithErrors
         \<and> \<lparr>problemField = ?t,
             description = ''Comments: Must be 500 characters or less (currently 3 over)''\<rparr>
           \<in> set fieldsWithErrors"
    by (simp add: len lbl showInt_500 showInt_3)
  with a1 a4 len show ?thesis by blast
qed

lemma required_upload_throws:
  "getFieldsWithErrors (initialSettings fmt)
     (blankStep\<lparr>stepFields := [declaredTextarea 503, reportUpload\<lparr>requiredAttr := True\<rparr>]\<rparr>)
     = Inl TypeError"
proof -
  have ta: "isTextarea (declaredTextarea 503)" "\<not> isRequiredField (declaredTextarea 503)"
    "\<not> isTextarea (reportUpload\<lparr>requiredAttr := True\<rparr>)"
    "isRequiredField (reportUpload\<lparr>requiredAttr := True\<rparr>)"
    "\<not> isGroupField (reportUpload\<lparr>requiredAttr := True\<rparr>)"
    by (simp_all add: isTextarea_def isFormControl_def isRequiredField_def isGroupField_def
        declaredTextarea_def sampleTextarea_def reportUpload_def blankField_def
        toLowerCase_def toLowerChar_def)
  have "isFieldValid (initialSettings fmt) (reportUpload\<lparr>requiredAttr := True\<rparr>) container
      = Inl TypeError" for container
    by (simp add: isFieldValid_throws_iff validateFile_throws_iff reportUpload_def
        blankField_def maxFileSize_def initialSettings_def)
  then show ?thesis
    by (simp add: getFieldsWithErrors_def blankStep_def ta isFieldInvalid_def)
qed

subsection \<open>The error summary\<close>

lemma getFieldsWithErrors_summary_irrelevant:
  "getFieldsWithErrors st (s\<lparr>errorSummary := e, summaryPlacement := p\<rparr>) = getFieldsWithErrors st s"
  by (simp add: getFieldsWithErrors_def Let_def split: sum.splits)

lemma alreadyFound_iff:
  "alreadyFound acc f \<longleftrightarrow> (\<exists>p\<in>set acc. uid (problemField p) = uid f)"
  by (auto simp: alreadyFound_def sameElement_def list_ex_iff)

lemma alreadyFound_mono:
  "set acc \<subseteq> set acc' \<Longrightarrow> alreadyFound acc f \<Longrightarrow> alreadyFound acc' f"
  by (auto simp: alreadyFound_iff)

lemma collectNativeErrors_keeps:
  "p \<in> set acc \<Longrightarrow> p \<in> set (collectNativeErrors as acc)"
  by (induction as arbitrary: acc) (simp_all split: option.splits)

lemma collectNativeErrors_lists:
  assumes "a \<in> set as" and "alertVisible a" and "trim (alertText a) \<noteq> []"
    and "alertField a = Some f"
  shows "alreadyFound (collectNativeErrors as acc) f"
  using assms
proof (induction as arbitrary: acc)
  case Nil
  then show ?case by simp
next
  case (Cons x xs)
  show ?case
  proof (cases "x = a")
    case True
    let ?p = "\<lparr>problemField = f, description = labelOrName f @ '': '' @ trim (alertText a)\<rparr>"
    have "?p \<in> set (collectNativeErrors xs (acc @ [?p]))"
      by (rule collectNativeErrors_keeps) simp
    then have "alreadyFound (collectNativeErrors xs (acc @ [?p])) f"
      unfolding alreadyFound_iff by (rule rev_bexI) simp
    with True Cons.prems show ?thesis by simp
  next
    case False
    with Cons.prems have "a \<in> set xs" by simp
    from Cons.IH [OF this Cons.prems(2,3,4)] show ?thesis by simp
  qed
qed

lemma collectCharacterLimitErrors_lists:
  assumes "t \<in> set ts" and "hasCharacterLimitError st t"
  shows "alreadyFound (collectCharacterLimitErrors st ts acc) t"
  using assms
proof (induction ts arbitrary: acc)
  case Nil
  then show ?case by simp
next
  case (Cons x xs)
  show ?case
  proof (cases "x = t")
    case True
    from Cons.prems(2) obtain m where m: "getCharacterLimitErrorMessage st t = Some m" "m \<noteq> []"
      by (auto simp: getCharacterLimitErrorMessage_def hasCharacterLimitError_def Let_def)
    let ?acc1 = "if \<not> alreadyFound acc t
                 then acc @ [\<lparr>problemField = t, description = m\<rparr>] else acc"
    have "alreadyFound ?acc1 t" by (auto simp: alreadyFound_iff)
    moreover have "set ?acc1 \<subseteq> set (collectCharacterLimitErrors st xs ?acc1)"
      by (auto intro: collectCharacterLimitErrors_keeps)
    ultimately have "alreadyFound (collectCharacterLimitErrors st xs ?acc1) t"
      by (rule alreadyFound_mono [rotated])
    with True Cons.prems(2) m show ?thesis by simp
  next
    case False
    with Cons.prems have "t \<in> set xs" by simp
    from Cons.IH [OF this Cons.prems(2)] show ?thesis by simp
  qed
qed

lemma collectRequiredErrors_lists:
  assumes "\<forall>f\<in>set fs. \<not> isl (isFieldValid st f container)"
    and "f \<in> set (fieldsToValidate fs processed)"
    and "isFieldValid st f container = Inr False"
  shows "\<exists>acc'. collectRequiredErrors st container fs processed acc = Inr acc'
           \<and> alreadyFound acc' f"
  using assms
proof (induction fs arbitrary: processed acc)
  case Nil
  then show ?case by simp
next
  case (Cons x xs)
  then have x: "\<not> isl (isFieldValid st x container)"
    and rest: "\<forall>f\<in>set xs. \<not> isl (isFieldValid st f container)" by simp_all
  show ?case
  proof (cases "isGroupField x \<and> fieldName x \<in> set processed")
    case True
    with Cons.prems(2) have "f \<in> set (fieldsToValidate xs processed)" by simp
    from Cons.IH [OF rest this Cons.prems(3), of acc] True show ?thesis by simp
  next
    case False
    let ?pg = "if isGroupField x then fieldName x # processed else processed"
    from x obtain b where b: "isFieldInvalid st x container = Inr b"
      by (cases "isFieldInvalid st x container") (simp_all flip: isFieldInvalid_isl)
    let ?acc1 = "if b \<and> \<not> alreadyFound acc x
                 then acc @ [\<lparr>problemField = x,
                               description =
                                 labelOrName x @ '': Please complete this required field.''\<rparr>]
                 else acc"
    have run: "collectRequiredErrors st container (x # xs) processed acc
        = collectRequiredErrors st container xs ?pg ?acc1"
      using False b by auto
    from False Cons.prems(2) have mem: "f = x \<or> f \<in> set (fieldsToValidate xs ?pg)"
      by (auto split: if_splits)
    show ?thesis
    proof (cases "f \<in> set (fieldsToValidate xs ?pg)")
      case True
      from Cons.IH [OF rest True Cons.prems(3), of ?acc1] run show ?thesis by simp
    next
      case False
      with mem have fx: "f = x" by simp
      with Cons.prems(3) b have "b" by (simp add: isFieldInvalid_Inr)
      then have found: "alreadyFound ?acc1 x" by (auto simp: alreadyFound_iff)
      from collectRequiredErrors_returns [OF rest, of ?pg ?acc1]
      obtain acc' where "collectRequiredErrors st container xs ?pg ?acc1 = Inr acc'"
        and "set ?acc1 \<subseteq> set acc'" by blast
      with found fx run show ?thesis
        by (auto intro: alreadyFound_mono)
    qed
  qed
qed

lemma collectFormatErrors_lists:
  assumes "f \<in> set fs" and "hasValue f"
    and "(isEmailLike f \<and> \<not> isValidEmail (fieldValue f))
         \<or> (\<not> isEmailLike f \<and> patternAttr f \<noteq> None \<and> patternResult f = Some False)"
  shows "alreadyFound (collectFormatErrors fs acc) f"
  using assms
proof (induction fs arbitrary: acc)
  case Nil
  then show ?case by simp
next
  case (Cons x xs)
  show ?case
  proof (cases "x = f")
    case True
    let ?p = "\<lparr>problemField = f, description = labelOrName f @ '' must be formatted correctly''\<rparr>"
    let ?acc1 = "if alreadyFound acc f then acc else acc @ [?p]"
    have run: "collectFormatErrors (x # xs) acc = collectFormatErrors xs ?acc1"
      using True Cons.prems(2,3) by (auto simp: Let_def)
    have "alreadyFound ?acc1 f" by (auto simp: alreadyFound_iff)
    moreover have "set ?acc1 \<subseteq> set (collectFormatErrors xs ?acc1)"
      by (auto intro: collectFormatErrors_keeps)
    ultimately have "alreadyFound (collectFormatErrors xs ?acc1) f"
      by (rule alreadyFound_mono [rotated])
    with run show ?thesis by simp
  next
    case False
    with Cons.prems have "f \<in> set xs" by simp
    from Cons.IH [OF this Cons.prems(2,3)] show ?thesis by (simp add: Let_def)
  qed
qed

lemma collectEmptyEmails_lists:
  assumes "f \<in> set fs" and "\<not> hasValue f" and "isEmailLike f"
  shows "alreadyFound (collectEmptyEmails fs acc) f"
  using assms
proof (induction fs arbitrary: acc)
  case Nil
  then show ?case by simp
next
  case (Cons x xs)
  show ?case
  proof (cases "x = f")
    case True
    let ?p = "\<lparr>problemField = f,
               description = labelOrName f @ '': Please complete this required field.''\<rparr>"
    let ?acc1 = "if alreadyFound acc f then acc else acc @ [?p]"
    have run: "collectEmptyEmails (x # xs) acc = collectEmptyEmails xs ?acc1"
      using True Cons.prems(2,3) by auto
    have "alreadyFound ?acc1 f" by (auto simp: alreadyFound_iff)
    moreover have "set ?acc1 \<subseteq> set (collectEmptyEmails xs ?acc1)"
      by (auto intro: collectEmptyEmails_keeps)
    ultimately have "alreadyFound (collectEmptyEmails xs ?acc1) f"
      by (rule alreadyFound_mono [rotated])
    with run show ?thesis by simp
  next
    case False
    with Cons.prems have "f \<in> set xs" by simp
    from Cons.IH [OF this Cons.prems(2,3)] show ?thesis by simp
  qed
qed

lemma getFieldsWithErrors_returns:
  assumes "list_all (\<lambda>f. isRequiredField f \<longrightarrow> \<not> isl (isFieldValid st f (stepFields s)))
             (stepFields s)"
  shows "\<exists>acc3. collectRequiredErrors st (stepFields s) (filter isRequiredField (stepFields s)) []
            (collectCharacterLimitErrors st (filter isTextarea (stepFields s))
               (collectNativeErrors (alerts s) [])) = Inr acc3
         \<and> getFieldsWithErrors st s =
             Inr (collectEmptyEmails (filter isFormControl (stepFields s))
                    (collectFormatErrors (filter isFormControl (stepFields s)) acc3))"
proof -
  have "\<forall>f\<in>set (filter isRequiredField (stepFields s)).
      \<not> isl (isFieldValid st f (stepFields s))"
    using assms by (simp add: list_all_iff)
  from collectRequiredErrors_returns [OF this]
  obtain acc3 where "collectRequiredErrors st (stepFields s)
        (filter isRequiredField (stepFields s)) []
        (collectCharacterLimitErrors st (filter isTextarea (stepFields s))
           (collectNativeErrors (alerts s) [])) = Inr acc3"
    by blast
  then show ?thesis by (simp add: getFieldsWithErrors_def Let_def)
qed

lemma getFieldsWithErrors_lists:
  assumes "list_all (\<lambda>f. isRequiredField f \<longrightarrow> \<not> isl (isFieldValid st f (stepFields s)))
             (stepFields s)"
  shows "\<exists>ps. getFieldsWithErrors st s = Inr ps
      \<and> (\<forall>a\<in>set (alerts s). \<forall>f. alertVisible a \<and> trim (alertText a) \<noteq> []
            \<and> alertField a = Some f \<longrightarrow> alreadyFound ps f)
      \<and> (\<forall>t\<in>set (stepFields s). isTextarea t \<and> hasCharacterLimitError st t
            \<longrightarrow> alreadyFound ps t)
      \<and> (\<forall>f\<in>set (fieldsToValidate (filter isRequiredField (stepFields s)) []).
            isFieldValid st f (stepFields s) = Inr False \<longrightarrow> alreadyFound ps f)
      \<and> (\<forall>f\<in>set (stepFields s). isFormControl f \<and> hasValue f
            \<and> ((isEmailLike f \<and> \<not> isValidEmail (fieldValue f))
                \<or> (\<not> isEmailLike f \<and> patternAttr f \<noteq> None \<and> patternResult f = Some False))
            \<longrightarrow> alreadyFound ps f)
      \<and> (\<forall>f\<in>set (stepFields s). isFormControl f \<and> \<not> hasValue f \<and> isEmailLike f
            \<longrightarrow> alreadyFound ps f)"
proof -
  let ?c = "stepFields s"
  let ?req = "filter isRequiredField ?c"
  let ?all = "filter isFormControl ?c"
  let ?acc1 = "collectNativeErrors (alerts s) []"
  let ?acc2 = "collectCharacterLimitErrors st (filter isTextarea ?c) ?acc1"
  have noThrow: "\<forall>f\<in>set ?req. \<not> isl (isFieldValid st f ?c)"
    using assms by (simp add: list_all_iff)
  from collectRequiredErrors_returns [OF noThrow, of "[]" ?acc2]
  obtain acc3 where acc3: "collectRequiredErrors st ?c ?req [] ?acc2 = Inr acc3"
    and sub3: "set ?acc2 \<subseteq> set acc3" by blast
  let ?acc4 = "collectFormatErrors ?all acc3"
  let ?acc5 = "collectEmptyEmails ?all ?acc4"
  have run: "getFieldsWithErrors st s = Inr ?acc5"
    by (simp add: getFieldsWithErrors_def Let_def acc3)
  have sub2: "set ?acc1 \<subseteq> set ?acc2" by (auto intro: collectCharacterLimitErrors_keeps)
  have sub4: "set acc3 \<subseteq> set ?acc4" by (auto intro: collectFormatErrors_keeps)
  have sub5: "set ?acc4 \<subseteq> set ?acc5" by (auto intro: collectEmptyEmails_keeps)
  have k1: "alreadyFound ?acc5 f"
    if "a \<in> set (alerts s)" "alertVisible a" "trim (alertText a) \<noteq> []" "alertField a = Some f"
    for a f
  proof -
    from collectNativeErrors_lists [OF that] have "alreadyFound ?acc1 f" .
    with sub2 sub3 sub4 sub5 show ?thesis by (blast intro: alreadyFound_mono)
  qed
  have k2: "alreadyFound ?acc5 t"
    if "t \<in> set ?c" "isTextarea t" "hasCharacterLimitError st t" for t
  proof -
    from that have "t \<in> set (filter isTextarea ?c)" by simp
    from collectCharacterLimitErrors_lists [OF this that(3)] have "alreadyFound ?acc2 t" .
    with sub3 sub4 sub5 show ?thesis by (blast intro: alreadyFound_mono)
  qed
  have k3: "alreadyFound ?acc5 f"
    if "f \<in> set (fieldsToValidate ?req [])" "isFieldValid st f ?c = Inr False" for f
  proof -
    from collectRequiredErrors_lists [OF noThrow that, of ?acc2] acc3
    have "alreadyFound acc3 f" by simp
    with sub4 sub5 show ?thesis by (blast intro: alreadyFound_mono)
  qed
  have k4: "alreadyFound ?acc5 f"
    if "f \<in> set ?c" "isFormControl f" "hasValue f"
      "(isEmailLike f \<and> \<not> isValidEmail (fieldValue f))
       \<or> (\<not> isEmailLike f \<and> patternAttr f \<noteq> None \<and> patternResult f = Some False)" for f
  proof -
    from that have "f \<in> set ?all" by simp
    from collectFormatErrors_lists [OF this that(3,4)] have "alreadyFound ?acc4 f" .
    with sub5 show ?thesis by (blast intro: alreadyFound_mono)
  qed
  have k5: "alreadyFound ?acc5 f"
    if "f \<in> set ?c" "isFormControl f" "\<not> hasValue f" "isEmailLike f" for f
  proof -
    from that have "f \<in> set ?all" by simp
    from collectEmptyEmails_lists [OF this that(3,4)] show ?thesis .
  qed
  from run k1 k2 k3 k4 k5 show ?thesis by blast
qed

lemma showValidationError_outcome:
  assumes "getFieldsWithErrors st s = Inr ps"
  shows "ps = [] \<longrightarrow>
           showValidationError st s = Inr (s\<lparr>errorSummary := None, summaryPlacement := None\<rparr>)"
    and "ps \<noteq> [] \<longrightarrow>
           (isl (showValidationError st s) \<longleftrightarrow>
              repositionedBar s = Nested
              \<or> (repositionedBar s = Absent \<and> firstFormField s = Nested))"
    and "ps \<noteq> [] \<longrightarrow>
           (\<forall>e s2. showValidationError st s = Inl (e, s2) \<longrightarrow>
              e = DOMException NotFoundError \<and> errorSummary s2 = None)"
    and "ps \<noteq> [] \<longrightarrow>
           (\<forall>s2. showValidationError st s = Inr s2 \<longrightarrow>
              errorSummary s2 =
                Some \<lparr>summaryHeading = summaryHeadingFor (length ps), summaryLinks = ps\<rparr>)"
  using assms
  by (cases "repositionedBar s"; cases "firstFormField s";
      auto simp: showValidationError_def getFieldsWithErrors_summary_irrelevant Let_def
        addFlexboxFallbackClasses_def)+

lemma checkAndRemoveErrorSummary_outcome:
  assumes "list_all (\<lambda>f. isRequiredField f \<longrightarrow> \<not> isl (isFieldValid st f (stepFields s)))
             (stepFields s)"
  shows "\<exists>s'. checkAndRemoveErrorSummary st s = Inr s'
      \<and> (errorSummary s' = None \<longleftrightarrow>
           errorSummary s = None
           \<or> (\<not> (\<exists>a\<in>set (alerts s). alertVisible a \<and> trim (alertText a) \<noteq> [])
               \<and> \<not> (\<exists>f\<in>set (fieldsToValidate (filter isRequiredField (stepFields s)) []).
                       isFieldValid st f (stepFields s) = Inr False)
               \<and> \<not> (\<exists>t\<in>set (stepFields s). isTextarea t \<and> hasCharacterLimitError st t)))
      \<and> (errorSummary s' \<noteq> None \<longrightarrow> s' = s)
      \<and> (errorSummary s \<noteq> None \<and> errorSummary s' = None \<longrightarrow>
           s' = removeFlexboxFallbackClasses
                  (s\<lparr>errorSummary := None, summaryPlacement := None,
                     hasErrorSummaryAttr := False\<rparr>))"
proof -
  have "\<forall>f\<in>set (filter isRequiredField (stepFields s)).
      \<not> isl (isFieldValid st f (stepFields s))"
    using assms by (simp add: list_all_iff)
  from hasEmptyRequiredFrom_returns [OF this, of "[]"]
  have req: "hasEmptyRequired st s =
      Inr (\<exists>f\<in>set (fieldsToValidate (filter isRequiredField (stepFields s)) []).
             isFieldValid st f (stepFields s) = Inr False)"
    by (simp add: hasEmptyRequired_def)
  have nat: "hasVisibleNativeErrors s \<longleftrightarrow>
      (\<exists>a\<in>set (alerts s). alertVisible a \<and> trim (alertText a) \<noteq> [])"
    by (simp add: hasVisibleNativeErrors_def list_ex_iff)
  have lim: "hasCharacterLimitErrors st s \<longleftrightarrow>
      (\<exists>t\<in>set (stepFields s). isTextarea t \<and> hasCharacterLimitError st t)"
    by (auto simp: hasCharacterLimitErrors_def list_ex_iff)
  show ?thesis
    by (cases "errorSummary s")
       (auto simp: checkAndRemoveErrorSummary_def req nat lim removeFlexboxFallbackClasses_def)
qed

lemma fieldEventListener_steps:
  assumes "i < length formSteps"
    and "checkAndRemoveErrorSummary st (formSteps ! i) = Inr s'"
  shows "(case fieldEventListener st i formSteps of Inl (e, ss) \<Rightarrow> ss | Inr ss \<Rightarrow> ss)
           = formSteps[i := s']"
  using assms
  by (simp add: fieldEventListener_def removeValidationError_def Let_def split: sum.splits)

lemma formObserverRevalidate_steps:
  "(case formObserverRevalidate st formSteps of Inl (e, ss) \<Rightarrow> ss | Inr ss \<Rightarrow> ss) = formSteps"
  by (simp add: formObserverRevalidate_def split: sum.splits)

text \<open>
  C1, amended, for a step where the validation of no required field throws. The
  aggregator lists every field with a visible native error paired with it, every textarea
  over its limit, every required field that fails validation (one per checkbox or radio
  group), every field whose value fails the e-mail shape or its pattern, and every empty
  e-mail-like field. \<open>showValidationError\<close> creates no summary when that list is empty;
  when it is non-empty it inserts a summary that lists exactly the collected problems,
  unless the insertion anchor is nested below the step content, in which case
  \<open>insertBefore\<close> throws a \<open>NotFoundError\<close> and no summary is inserted.
  \<open>checkAndRemoveErrorSummary\<close> never creates a summary, and removes an existing one
  exactly when none of its three conditions holds: a visible native error with text, a
  required field that fails validation, a textarea over its limit; otherwise it leaves the
  step unchanged. It is run by the listener of the input, change and blur events of the
  fields, whereas the call deferred by the form's mutation observer only re-runs
  \<open>validateVisibleStep\<close> and leaves every step as it is.
\<close>

theorem C1_summary_creation_and_removal:
  assumes "list_all (\<lambda>f. isRequiredField f \<longrightarrow> \<not> isl (isFieldValid st f (stepFields s)))
             (stepFields s)"
  shows "\<exists>fieldsWithErrors s'.
      getFieldsWithErrors st s = Inr fieldsWithErrors
    \<and> checkAndRemoveErrorSummary st s = Inr s'
    \<and> (\<forall>a\<in>set (alerts s). \<forall>f. alertVisible a \<and> trim (alertText a) \<noteq> []
          \<and> alertField a = Some f \<longrightarrow> alreadyFound fieldsWithErrors f)
    \<and> (\<forall>t\<in>set (stepFields s). isTextarea t \<and> hasCharacterLimitError st t
          \<longrightarrow> alreadyFound fieldsWithErrors t)
    \<and> (\<forall>f\<in>set (fieldsToValidate (filter isRequiredField (stepFields s)) []).
          isFieldValid st f (stepFields s) = Inr False \<longrightarrow> alreadyFound fieldsWithErrors f)
    \<and> (\<forall>f\<in>set (stepFields s). isFormControl f \<and> hasValue f
          \<and> ((isEmailLike f \<and> \<not> isValidEmail (fieldValue f))
              \<or> (\<not> isEmailLike f \<and> patternAttr f \<noteq> None \<and> patternResult f = Some False))
          \<longrightarrow> alreadyFound fieldsWithErrors f)
    \<and> (\<forall>f\<in>set (stepFields s). isFormControl f \<and> \<not> hasValue f \<and> isEmailLike f
          \<longrightarrow> alreadyFound fieldsWithErrors f)
    \<and> (fieldsWithErrors = [] \<longrightarrow>
          showValidationError st s = Inr (s\<lparr>errorSummary := None, summaryPlacement := None\<rparr>))
    \<and> (fieldsWithErrors \<noteq> [] \<longrightarrow>
          (isl (showValidationError st s) \<longleftrightarrow>
             repositionedBar s = Nested
             \<or> (repositionedBar s = Absent \<and> firstFormField s = Nested))
          \<and> (\<forall>e s2. showValidationError st s = Inl (e, s2) \<longrightarrow>
                e = DOMException NotFoundError \<and> errorSummary s2 = None)
          \<and> (\<forall>s2. showValidationError st s = Inr s2 \<longrightarrow>
                errorSummary s2 =
                  Some \<lparr>summaryHeading = summaryHeadingFor (length fieldsWithErrors),
                        summaryLinks = fieldsWithErrors\<rparr>))
    \<and> (errorSummary s' = None \<longleftrightarrow>
          errorSummary s = None
          \<or> (\<not> (\<exists>a\<in>set (alerts s). alertVisible a \<and> trim (alertText a) \<noteq> [])
              \<and> \<not> (\<exists>f\<in>set (fieldsToValidate (filter isRequiredField (stepFields s)) []).
                      isFieldValid st f (stepFields s) = Inr False)
              \<and> \<not> (\<exists>t\<in>set (stepFields s). isTextarea t \<and> hasCharacterLimitError st t)))
    \<and> (errorSummary s' \<noteq> None \<longrightarrow> s' = s)
    \<and> (\<forall>formSteps i. i < length formSteps \<and> formSteps ! i = s \<longrightarrow>
          (case fieldEventListener st i formSteps of Inl (e, ss) \<Rightarrow> ss | Inr ss \<Rightarrow> ss)
            = formSteps[i := s'])
    \<and> (\<forall>formSteps.
          (case formObserverRevalidate st formSteps of Inl (e, ss) \<Rightarrow> ss | Inr ss \<Rightarrow> ss)
            = formSteps)"
proof -
  from getFieldsWithErrors_lists [OF assms]
  obtain ps where ps: "getFieldsWithErrors st s = Inr ps"
    and k1: "\<forall>a\<in>set (alerts s). \<forall>f. alertVisible a \<and> trim (alertText a) \<noteq> []
            \<and> alertField a = Some f \<longrightarrow> alreadyFound ps f"
    and k2: "\<forall>t\<in>set (stepFields s). isTextarea t \<and> hasCharacterLimitError st t
            \<longrightarrow> alreadyFound ps t"
    and k3: "\<forall>f\<in>set (fieldsToValidate (filter isRequiredField (stepFields s)) []).
            isFieldValid st f (stepFields s) = Inr False \<longrightarrow> alreadyFound ps f"
    and k4: "\<forall>f\<in>set (stepFields s). isFormControl f \<and> hasValue f
            \<and> ((isEmailLike f \<and> \<not> isValidEmail (fieldValue f))
                \<or> (\<not> isEmailLike f \<and> patternAttr f \<noteq> None \<and> patternResult f = Some False))
            \<longrightarrow> alreadyFound ps f"
    and k5: "\<forall>f\<in>set (stepFields s). isFormControl f \<and> \<not> hasValue f \<and> isEmailLike f
            \<longrightarrow> alreadyFound ps f"
    by blast
  from checkAndRemoveErrorSummary_outcome [OF assms]
  obtain s' where s': "checkAndRemoveErrorSummary st s = Inr s'"
    and removal: "errorSummary s' = None \<longleftrightarrow>
          errorSummary s = None
          \<or> (\<not> (\<exists>a\<in>set (alerts s). alertVisible a \<and> trim (alertText a) \<noteq> [])
              \<and> \<not> (\<exists>f\<in>set (fieldsToValidate (filter isRequiredField (stepFields s)) []).
                      isFieldValid st f (stepFields s) = Inr False)
              \<and> \<not> (\<exists>t\<in>set (stepFields s). isTextarea t \<and> hasCharacterLimitError st t))"
    and kept: "errorSummary s' \<noteq> None \<longrightarrow> s' = s"
    by blast
  note shown = showValidationError_outcome [OF ps]
  have listener: "\<forall>formSteps i. i < length formSteps \<and> formSteps ! i = s \<longrightarrow>
          (case fieldEventListener st i formSteps of Inl (e, ss) \<Rightarrow> ss | Inr ss \<Rightarrow> ss)
            = formSteps[i := s']"
    using s' by (auto intro: fieldEventListener_steps)
  have observer: "\<forall>formSteps.
          (case formObserverRevalidate st formSteps of Inl (e, ss) \<Rightarrow> ss | Inr ss \<Rightarrow> ss)
            = formSteps"
    by (simp add: formObserverRevalidate_steps)
  have created: "ps \<noteq> [] \<longrightarrow>
          (isl (showValidationError st s) \<longleftrightarrow>
             repositionedBar s = Nested
             \<or> (repositionedBar s = Absent \<and> firstFormField s = Nested))
          \<and> (\<forall>e s2. showValidationError st s = Inl (e, s2) \<longrightarrow>
                e = DOMException NotFoundError \<and> errorSummary s2 = None)
          \<and> (\<forall>s2. showValidationError st s = Inr s2 \<longrightarrow>
                errorSummary s2 =
                  Some \<lparr>summaryHeading = summaryHeadingFor (length ps),
                        summaryLinks = ps\<rparr>)"
    using shown(2,3,4) by blast
  show ?thesis
    apply (rule exI [of _ ps])
    apply (rule exI [of _ s'])
    using ps s' k1 k2 k3 k4 k5 shown(1) created removal kept listener observer
    apply (intro conjI)
    apply assumption+
    done
qed

lemma twoField_problems:
  "getFieldsWithErrors st twoFieldStep
     = Inr [\<lparr>problemField = requiredTextField,
             description = ''First name: Please complete this required field.''\<rparr>,
            \<lparr>problemField = optionalEmailField,
             description = ''Email: Please complete this required field.''\<rparr>]"
  by (simp add: getFieldsWithErrors_def twoFieldStep_def requiredTextField_def
      optionalEmailField_def blankStep_def blankField_def isTextarea_def isRequiredField_def
      isFormControl_def isGroupField_def isFieldInvalid_def isFieldValid_def
      validateTextBasedField_def toLowerCase_def toLowerChar_def alreadyFound_def
      sameElement_def hasValue_def isEmailLike_def labelOrName_def fieldName_def)

lemma filledIn_facts:
  "alerts s = [] \<Longrightarrow> getFieldsWithErrors st (filledIn s)
     = Inr [\<lparr>problemField = optionalEmailField,
             description = ''Email: Please complete this required field.''\<rparr>]"
  "hasEmptyRequired st (filledIn s) = Inr False"
  "\<not> hasCharacterLimitErrors st (filledIn s)"
  by (simp_all add: getFieldsWithErrors_def filledIn_def requiredTextField_def
      optionalEmailField_def blankField_def isTextarea_def isRequiredField_def
      isFormControl_def isGroupField_def isFieldInvalid_def isFieldValid_def
      validateTextBasedField_def toLowerCase_def toLowerChar_def alreadyFound_def
      sameElement_def hasValue_def isEmailLike_def labelOrName_def fieldName_def
      trim_def isWhiteSpace_def hasEmptyRequired_def hasCharacterLimitErrors_def Let_def)

lemma malformed_email_listed:
  "getFieldsWithErrors st (blankStep\<lparr>stepFields := [optionalEmailField\<lparr>fieldValue := ''ann''\<rparr>]\<rparr>)
     = Inr [\<lparr>problemField = optionalEmailField\<lparr>fieldValue := ''ann''\<rparr>,
             description = ''Email must be formatted correctly''\<rparr>]"
  by (simp add: getFieldsWithErrors_def optionalEmailField_def blankStep_def blankField_def
      isTextarea_def isRequiredField_def isFormControl_def toLowerCase_def toLowerChar_def
      alreadyFound_def sameElement_def hasValue_def isEmailLike_def labelOrName_def
      fieldName_def trim_def isWhiteSpace_def isValidEmail_def isAddressChar_def Let_def)

lemma checkAndRemoveErrorSummary_removes:
  assumes "\<not> hasVisibleNativeErrors s" and "hasEmptyRequired st s = Inr False"
    and "\<not> hasCharacterLimitErrors st s"
  shows "\<exists>s'. checkAndRemoveErrorSummary st s = Inr s' \<and> errorSummary s' = None
           \<and> stepFields s' = stepFields s \<and> alerts s' = alerts s"
  using assms
  by (cases "errorSummary s")
     (simp_all add: checkAndRemoveErrorSummary_def removeFlexboxFallbackClasses_def)

lemma getFieldsWithErrors_same_content:
  "stepFields s' = stepFields s \<Longrightarrow> alerts s' = alerts s \<Longrightarrow>
   getFieldsWithErrors st s' = getFieldsWithErrors st s"
  by (simp add: getFieldsWithErrors_def Let_def split: sum.splits)

lemma filledIn_alerts: "alerts (filledIn s) = alerts s"
  by (simp add: filledIn_def)

lemma twoField_shown:
  obtains s1 where "showValidationError st twoFieldStep = Inr s1"
    and "errorSummary s1 =
      Some \<lparr>summaryHeading = summaryHeadingFor 2,
            summaryLinks =
              [\<lparr>problemField = requiredTextField,
                description = ''First name: Please complete this required field.''\<rparr>,
               \<lparr>problemField = optionalEmailField,
                description = ''Email: Please complete this required field.''\<rparr>]\<rparr>"
    and "alerts s1 = []" and "stepFields s1 = [requiredTextField, optionalEmailField]"
    and "summaryVisible s1" and "\<not> displayNone s1" and "\<not> visibilityHidden s1"
    and "\<not> opacityZero s1"
    and "navigationButtons s1 = [\<lparr>buttonId = 100, buttonText = ''Next''\<rparr>]"
proof -
  define s1 where "s1 =
      (addFlexboxFallbackClasses
         (twoFieldStep\<lparr>errorSummary := None, summaryPlacement := None,
            contentDisplayFlex := True\<rparr>))
        \<lparr>errorSummary :=
           Some \<lparr>summaryHeading = summaryHeadingFor 2,
                 summaryLinks =
                   [\<lparr>problemField = requiredTextField,
                     description = ''First name: Please complete this required field.''\<rparr>,
                    \<lparr>problemField = optionalEmailField,
                     description = ''Email: Please complete this required field.''\<rparr>]\<rparr>,
         summaryPlacement := Some BeforeFirstFormField, hasErrorSummaryAttr := True\<rparr>"
  have anchors: "repositionedBar twoFieldStep = Absent" "firstFormField twoFieldStep = Child"
    by (simp_all add: twoFieldStep_def blankStep_def)
  have two: "Suc (Suc 0) = 2" by simp
  have run: "showValidationError st twoFieldStep = Inr s1"
    unfolding s1_def
    by (simp add: showValidationError_def getFieldsWithErrors_summary_irrelevant
        twoField_problems anchors addFlexboxFallbackClasses_def Let_def two)
  show ?thesis
    by (rule that [OF run])
       (simp_all add: s1_def addFlexboxFallbackClasses_def twoFieldStep_def blankStep_def)
qed

text \<open>
  C1, as stated, fails: the summary does not exist iff a problem is detected. In a step
  with an empty required input and an empty optional e-mail input,
  \<open>showValidationError\<close> lists both fields. Once the required input is filled in, none of
  the three conditions holds, so the re-check removes the summary, while the e-mail
  input is still collected as a problem.
\<close>

theorem C1_optional_email_counterexample:
  "(case showValidationError (initialSettings (\<lambda>n. [])) twoFieldStep of
      Inl e \<Rightarrow> False
    | Inr s1 \<Rightarrow>
        map_option (map description \<circ> summaryLinks) (errorSummary s1)
          = Some [''First name: Please complete this required field.'',
                  ''Email: Please complete this required field.'']
        \<and> (case checkAndRemoveErrorSummary (initialSettings (\<lambda>n. [])) (filledIn s1) of
              Inl e \<Rightarrow> False
            | Inr s2 \<Rightarrow>
                errorSummary s2 = None
                \<and> map_sum id (map description)
                     (getFieldsWithErrors (initialSettings (\<lambda>n. [])) s2)
                    = Inr [''Email: Please complete this required field.'']))"
proof -
  let ?st = "initialSettings (\<lambda>n. [])"
  obtain s1 where shown: "showValidationError ?st twoFieldStep = Inr s1"
    and links: "errorSummary s1 =
      Some \<lparr>summaryHeading = summaryHeadingFor 2,
            summaryLinks =
              [\<lparr>problemField = requiredTextField,
                description = ''First name: Please complete this required field.''\<rparr>,
               \<lparr>problemField = optionalEmailField,
                description = ''Email: Please complete this required field.''\<rparr>]\<rparr>"
    and quietBefore: "alerts s1 = []"
    by (rule twoField_shown)
  have listed: "map_option (map description \<circ> summaryLinks) (errorSummary s1)
      = Some [''First name: Please complete this required field.'',
              ''Email: Please complete this required field.'']"
    by (simp add: links)
  have quiet: "\<not> hasVisibleNativeErrors (filledIn s1)"
    by (simp add: hasVisibleNativeErrors_def filledIn_alerts quietBefore)
  from checkAndRemoveErrorSummary_removes [OF quiet filledIn_facts(2,3)]
  obtain s2 where removed: "checkAndRemoveErrorSummary ?st (filledIn s1) = Inr s2"
    and none: "errorSummary s2 = None"
    and same: "stepFields s2 = stepFields (filledIn s1)" "alerts s2 = alerts (filledIn s1)"
    by blast
  have left: "map_sum id (map description) (getFieldsWithErrors ?st s2)
      = Inr [''Email: Please complete this required field.'']"
    by (simp add: getFieldsWithErrors_same_content [OF same]
        filledIn_facts(1) [OF quietBefore])
  show ?thesis
    by (simp only: shown removed sum.case listed none left)
qed

lemma twoField_validity:
  "isRequiredField requiredTextField" "\<not> isRequiredField optionalEmailField"
  "\<not> isRequiredField (optionalEmailField\<lparr>fieldValue := v\<rparr>)"
  "isRequiredField (requiredTextField\<lparr>fieldValue := v\<rparr>)"
  "\<not> isGroupField requiredTextField" "\<not> isGroupField (requiredTextField\<lparr>fieldValue := v\<rparr>)"
  "isFieldValid st requiredTextField container = Inr False"
  "isFieldValid st (requiredTextField\<lparr>fieldValue := ''Ann''\<rparr>) container = Inr True"
  "\<not> isTextarea requiredTextField" "\<not> isTextarea optionalEmailField"
  "\<not> isTextarea (requiredTextField\<lparr>fieldValue := v\<rparr>)"
  by (simp_all add: isRequiredField_def isFormControl_def isGroupField_def isFieldValid_def
      validateTextBasedField_def requiredTextField_def optionalEmailField_def blankField_def
      isTextarea_def toLowerCase_def toLowerChar_def trim_def isWhiteSpace_def)

text \<open>
  The amended C1 on the step with the two empty inputs: the summary lists both, the
  re-check keeps it while the required input is empty, and once that input is filled in a
  field event removes it, whereas the observer's call leaves it in place.
\<close>

theorem C1_summary_creation_and_removal_witness:
  "(case showValidationError (initialSettings (\<lambda>n. [])) twoFieldStep of
      Inl e \<Rightarrow> False
    | Inr s1 \<Rightarrow>
        map_option (map description \<circ> summaryLinks) (errorSummary s1)
          = Some [''First name: Please complete this required field.'',
                  ''Email: Please complete this required field.'']
        \<and> checkAndRemoveErrorSummary (initialSettings (\<lambda>n. [])) s1 = Inr s1
        \<and> errorSummary (filledIn s1) \<noteq> None
        \<and> map_sum id errorSummary
             (checkAndRemoveErrorSummary (initialSettings (\<lambda>n. [])) (filledIn s1)) = Inr None
        \<and> map errorSummary
             (case fieldEventListener (initialSettings (\<lambda>n. [])) 0 [filledIn s1] of
                Inl (e, ss) \<Rightarrow> ss | Inr ss \<Rightarrow> ss) = [None]
        \<and> (case formObserverRevalidate (initialSettings (\<lambda>n. [])) [filledIn s1] of
              Inl (e, ss) \<Rightarrow> ss | Inr ss \<Rightarrow> ss) = [filledIn s1])"
proof -
  let ?st = "initialSettings (\<lambda>n. [])"
  obtain s1 where shown: "showValidationError ?st twoFieldStep = Inr s1"
    and links: "errorSummary s1 =
      Some \<lparr>summaryHeading = summaryHeadingFor 2,
            summaryLinks =
              [\<lparr>problemField = requiredTextField,
                description = ''First name: Please complete this required field.''\<rparr>,
               \<lparr>problemField = optionalEmailField,
                description = ''Email: Please complete this required field.''\<rparr>]\<rparr>"
    and quiet: "alerts s1 = []"
    and fields: "stepFields s1 = [requiredTextField, optionalEmailField]"
    by (rule twoField_shown)
  have listed: "map_option (map description \<circ> summaryLinks) (errorSummary s1)
      = Some [''First name: Please complete this required field.'',
              ''Email: Please complete this required field.'']"
    by (simp add: links)
  have returns1: "list_all (\<lambda>f. isRequiredField f \<longrightarrow> \<not> isl (isFieldValid ?st f (stepFields s1)))
      (stepFields s1)"
    by (simp add: fields twoField_validity)
  from C1_summary_creation_and_removal [OF returns1]
  obtain k where k: "checkAndRemoveErrorSummary ?st s1 = Inr k"
    and removal1: "errorSummary k = None \<longleftrightarrow>
          errorSummary s1 = None
          \<or> (\<not> (\<exists>a\<in>set (alerts s1). alertVisible a \<and> trim (alertText a) \<noteq> [])
              \<and> \<not> (\<exists>f\<in>set (fieldsToValidate (filter isRequiredField (stepFields s1)) []).
                      isFieldValid ?st f (stepFields s1) = Inr False)
              \<and> \<not> (\<exists>t\<in>set (stepFields s1). isTextarea t \<and> hasCharacterLimitError ?st t))"
    and kept1: "errorSummary k \<noteq> None \<longrightarrow> k = s1"
    by (elim exE conjE) (rule that; assumption)
  from removal1 have "errorSummary k \<noteq> None"
    by (simp add: links fields twoField_validity)
  with kept1 k have kept: "checkAndRemoveErrorSummary ?st s1 = Inr s1" by simp
  have fields2: "stepFields (filledIn s1)
      = [requiredTextField\<lparr>fieldValue := ''Ann''\<rparr>, optionalEmailField]"
    and quiet2: "alerts (filledIn s1) = []"
    and still: "errorSummary (filledIn s1) \<noteq> None"
    by (simp_all add: filledIn_def quiet links)
  have returns2: "list_all
      (\<lambda>f. isRequiredField f \<longrightarrow> \<not> isl (isFieldValid ?st f (stepFields (filledIn s1))))
      (stepFields (filledIn s1))"
    by (simp add: fields2 twoField_validity)
  from C1_summary_creation_and_removal [OF returns2]
  obtain s2 where s2: "checkAndRemoveErrorSummary ?st (filledIn s1) = Inr s2"
    and removal2: "errorSummary s2 = None \<longleftrightarrow>
          errorSummary (filledIn s1) = None
          \<or> (\<not> (\<exists>a\<in>set (alerts (filledIn s1)). alertVisible a \<and> trim (alertText a) \<noteq> [])
              \<and> \<not> (\<exists>f\<in>set (fieldsToValidate
                               (filter isRequiredField (stepFields (filledIn s1))) []).
                      isFieldValid ?st f (stepFields (filledIn s1)) = Inr False)
              \<and> \<not> (\<exists>t\<in>set (stepFields (filledIn s1)).
                      isTextarea t \<and> hasCharacterLimitError ?st t))"
    and listener: "\<forall>formSteps i. i < length formSteps \<and> formSteps ! i = filledIn s1 \<longrightarrow>
          (case fieldEventListener ?st i formSteps of Inl (e, ss) \<Rightarrow> ss | Inr ss \<Rightarrow> ss)
            = formSteps[i := s2]"
    and observer: "\<forall>formSteps.
          (case formObserverRevalidate ?st formSteps of Inl (e, ss) \<Rightarrow> ss | Inr ss \<Rightarrow> ss)
            = formSteps"
    by (elim exE conjE) (rule that; assumption)
  from removal2 have none: "errorSummary s2 = None"
    by (simp add: fields2 quiet2 twoField_validity)
  from listener have "(case fieldEventListener ?st 0 [filledIn s1] of
      Inl (e, ss) \<Rightarrow> ss | Inr ss \<Rightarrow> ss) = [filledIn s1][0 := s2]"
    by simp
  then have heard: "map errorSummary (case fieldEventListener ?st 0 [filledIn s1] of
      Inl (e, ss) \<Rightarrow> ss | Inr ss \<Rightarrow> ss) = [None]"
    by (simp add: none)
  from observer have seen: "(case formObserverRevalidate ?st [filledIn s1] of
      Inl (e, ss) \<Rightarrow> ss | Inr ss \<Rightarrow> ss) = [filledIn s1]"
    by blast
  have removed: "map_sum id errorSummary (checkAndRemoveErrorSummary ?st (filledIn s1)) = Inr None"
    by (simp add: s2 none)
  show ?thesis
    by (simp only: shown sum.case listed kept still removed heard seen) simp
qed

subsection \<open>Navigation clicks\<close>

lemma triggerRequired_eq:
  assumes "\<forall>f\<in>set fs. \<not> isl (isFieldValid st f container)"
  shows "triggerRequired st container fs processed (now, later) =
     (None,
      now @ concat (map (\<lambda>f. map (Pair (uid f))
                           (if fieldType f = ''tel'' then telReplay else standardReplay f))
                     (filter (\<lambda>f. isFieldValid st f container = Inr False)
                        (fieldsToValidate fs processed))),
      later @ concat (map (\<lambda>f. map (Pair (uid f))
                             (if fieldType f = ''tel'' then [Focus, Blur] else []))
                       (filter (\<lambda>f. isFieldValid st f container = Inr False)
                          (fieldsToValidate fs processed))))"
  using assms
proof (induction fs arbitrary: processed now later)
  case Nil
  then show ?case by simp
next
  case (Cons f fs)
  then have "\<not> isl (isFieldValid st f container)" by simp
  then show ?case
    using Cons
    by (cases rule: returns_cases)
       (simp_all add: needsValidation_def isFieldInvalid_def)
qed

lemma triggerFieldValidations_eq:
  assumes "list_all (\<lambda>f. isRequiredField f \<longrightarrow> \<not> isl (isFieldValid st f (stepFields s)))
             (stepFields s)"
  shows "triggerFieldValidations st s =
     (None,
      concat (map (\<lambda>f. map (Pair (uid f))
                     (if fieldType f = ''tel''
                      then [Focus, Dispatch ''input'', Dispatch ''change'', Blur,
                            Dispatch ''invalid'', Dispatch ''keyup'']
                      else [Focus, Blur, Dispatch ''change'', Dispatch ''input'']
                           @ (if fieldType f = ''checkbox'' \<or> fieldType f = ''radio''
                              then [Dispatch ''invalid''] else [])))
                (filter (\<lambda>f. isFieldValid st f (stepFields s) = Inr False)
                   (fieldsToValidate (filter isRequiredField (stepFields s)) [])))
      @ concat (map (\<lambda>f. map (Pair (uid f))
                       (if requiredAttr f \<or> ariaRequired f = Some ''true'' then []
                        else (if fieldType f = ''tel''
                              then [Focus, Dispatch ''input'', Dispatch ''change'', Blur,
                                    Dispatch ''invalid'', Dispatch ''keyup'']
                              else [])
                             @ (if isEmailLike f then [Focus, Blur, Dispatch ''change''] else [])
                             @ (if patternAttr f \<noteq> None \<and> fieldValue f \<noteq> []
                                then [Focus, Blur, Dispatch ''change''] else [])))
                  (filter isFormControl (stepFields s))),
      concat (map (\<lambda>f. map (Pair (uid f)) (if fieldType f = ''tel'' then [Focus, Blur] else []))
                (filter (\<lambda>f. isFieldValid st f (stepFields s) = Inr False)
                   (fieldsToValidate (filter isRequiredField (stepFields s)) []))))"
proof -
  have "\<forall>f\<in>set (filter isRequiredField (stepFields s)).
      \<not> isl (isFieldValid st f (stepFields s))"
    using assms by (simp add: list_all_iff)
  from triggerRequired_eq [OF this, of "[]" "[]" "[]"]
  show ?thesis
    by (simp add: triggerFieldValidations_def telReplay_def standardReplay_def
        otherReplay_def cong: if_cong)
qed

lemma getVisibleStep_again:
  assumes "getVisibleStep ss c = (c1, Some i)"
  shows "getVisibleStep ss c1 = (c1, Some i)"
  using assms by (auto simp: getVisibleStep_def Let_def split: if_splits)

lemma handleNextButtonClick_no_step:
  assumes "stepToValidate ev ss c = None"
  shows "eventAfter (handleNextButtonClick st w ev ss c) = ev
    \<and> stepsAfter (handleNextButtonClick st w ev ss c) = ss
    \<and> replayed (handleNextButtonClick st w ev ss c) = []
    \<and> deferred (handleNextButtonClick st w ev ss c) = []
    \<and> returned (handleNextButtonClick st w ev ss c) = None
    \<and> thrown (handleNextButtonClick st w ev ss c) = None"
  using assms
  by (cases "targetStep ev"; cases "getVisibleStep ss c")
     (simp_all add: stepToValidate_def handleNextButtonClick_def)

lemma handleNextButtonClick_at:
  assumes "stepToValidate ev ss c = Some i" and "i < length ss"
    and "triggerFieldValidations st (ss ! i) = (failure, now, later)"
  shows "\<exists>c2. handleNextButtonClick st w ev ss c =
      (case validateVisibleStep st ss of
         Inl e \<Rightarrow>
           \<lparr>eventAfter = ev, stepsAfter = ss, cleanupAfter = c2, replayed = [],
            deferred = [], returned = None, thrown = Some e\<rparr>
       | Inr isValid \<Rightarrow>
           if \<not> isValid
           then (case failure of
                   Some e \<Rightarrow>
                     \<lparr>eventAfter = ev\<lparr>defaultPrevented := True, propagationStopped := True\<rparr>,
                      stepsAfter = ss[i := w now (ss ! i)],
                      cleanupAfter = c2, replayed = now, deferred = later,
                      returned = None, thrown = Some e\<rparr>
                 | None \<Rightarrow>
                     (case showValidationError st (w now (ss ! i)) of
                        Inr s' \<Rightarrow>
                          \<lparr>eventAfter =
                             ev\<lparr>defaultPrevented := True, propagationStopped := True\<rparr>,
                           stepsAfter = ss[i := s'], cleanupAfter = c2,
                           replayed = now, deferred = later,
                           returned = Some False, thrown = None\<rparr>
                      | Inl (e, s') \<Rightarrow>
                          \<lparr>eventAfter =
                             ev\<lparr>defaultPrevented := True, propagationStopped := True\<rparr>,
                           stepsAfter = ss[i := s'], cleanupAfter = c2,
                           replayed = now, deferred = later,
                           returned = None, thrown = Some e\<rparr>))
           else (case removeValidationError st (ss ! i) of
                   Inl e \<Rightarrow>
                     \<lparr>eventAfter = ev, stepsAfter = ss, cleanupAfter = c2, replayed = [],
                      deferred = [], returned = None, thrown = Some e\<rparr>
                 | Inr s' \<Rightarrow>
                     \<lparr>eventAfter = ev, stepsAfter = ss[i := s'], cleanupAfter = c2,
                      replayed = [], deferred = [], returned = Some True, thrown = None\<rparr>))"
proof (cases "targetStep ev")
  case (Some j)
  with assms(1) have "j = i" by (simp add: stepToValidate_def)
  with Some assms(2,3) show ?thesis
    by (intro exI [of _ c])
       (simp add: handleNextButtonClick_def
          split: sum.splits option.splits prod.splits)
next
  case None
  obtain c1 where g: "getVisibleStep ss c = (c1, Some i)"
    using assms(1) None by (cases "getVisibleStep ss c") (simp add: stepToValidate_def)
  note g' = getVisibleStep_again [OF g]
  from None g g' assms(2,3) show ?thesis
    by (intro exI [of _ c1])
       (simp add: handleNextButtonClick_def
          split: sum.splits option.splits prod.splits)
qed

lemma click_throws:
  assumes "stepToValidate ev ss c = Some i" and "i < length ss"
    and "validateVisibleStep st ss = Inl e"
    and "r = handleNextButtonClick st w ev ss c"
  shows "eventAfter r = ev \<and> stepsAfter r = ss \<and> replayed r = []
         \<and> deferred r = [] \<and> returned r = None \<and> thrown r = Some e"
proof -
  obtain failure now later where "triggerFieldValidations st (ss ! i) = (failure, now, later)"
    by (cases "triggerFieldValidations st (ss ! i)")
  from handleNextButtonClick_at [OF assms(1,2) this, of w]
  obtain c2 where "handleNextButtonClick st w ev ss c =
      \<lparr>eventAfter = ev, stepsAfter = ss, cleanupAfter = c2, replayed = [],
       deferred = [], returned = None, thrown = Some e\<rparr>"
    by (auto simp: assms(3))
  then show ?thesis by (simp add: assms(4))
qed

lemma click_passes:
  assumes "stepToValidate ev ss c = Some i" and "i < length ss"
    and "validateVisibleStep st ss = Inr True"
    and "checkAndRemoveErrorSummary st (ss ! i) = Inr s'"
    and "r = handleNextButtonClick st w ev ss c"
  shows "eventAfter r = ev \<and> replayed r = [] \<and> deferred r = []
         \<and> returned r = Some True \<and> thrown r = None
         \<and> stepsAfter r = ss[i := s']
         \<and> map displayNone (stepsAfter r) = map displayNone ss"
proof -
  obtain failure now later where "triggerFieldValidations st (ss ! i) = (failure, now, later)"
    by (cases "triggerFieldValidations st (ss ! i)")
  from handleNextButtonClick_at [OF assms(1,2) this, of w]
  obtain c2 where run: "handleNextButtonClick st w ev ss c =
      \<lparr>eventAfter = ev, stepsAfter = ss[i := s'], cleanupAfter = c2,
       replayed = [], deferred = [], returned = Some True, thrown = None\<rparr>"
    by (auto simp: assms(3,4) removeValidationError_def)
  have keep: "displayNone s' = displayNone (ss ! i)"
    using assms(4)
    by (auto simp: checkAndRemoveErrorSummary_def removeFlexboxFallbackClasses_def
        split: option.splits sum.splits if_splits)
  have "map displayNone (ss[i := s']) = map displayNone ss"
    using assms(2) by (simp add: map_update keep list_update_same_conv)
  with run show ?thesis by (simp add: assms(5))
qed

lemma click_fails:
  assumes "stepToValidate ev ss c = Some i" and "i < length ss"
    and "validateVisibleStep st ss = Inr False"
    and "triggerFieldValidations st (ss ! i) = (None, now, later)"
    and "r = handleNextButtonClick st w ev ss c"
  shows "defaultPrevented (eventAfter r)" and "propagationStopped (eventAfter r)"
    and "replayed r = now" and "deferred r = later" and "returned r \<noteq> Some True"
    and "\<forall>e. getFieldsWithErrors st (w now (ss ! i)) = Inl e \<longrightarrow>
           thrown r = Some e \<and> returned r = None \<and> errorSummary (stepsAfter r ! i) = None"
    and "\<forall>ps. getFieldsWithErrors st (w now (ss ! i)) = Inr ps \<longrightarrow>
           (ps = [] \<longrightarrow>
              errorSummary (stepsAfter r ! i) = None \<and> thrown r = None
              \<and> returned r = Some False)
         \<and> (ps \<noteq> [] \<longrightarrow>
              (thrown r \<noteq> None \<longleftrightarrow>
                 repositionedBar (w now (ss ! i)) = Nested
                 \<or> (repositionedBar (w now (ss ! i)) = Absent
                     \<and> firstFormField (w now (ss ! i)) = Nested))
              \<and> (thrown r = None \<longrightarrow>
                   returned r = Some False
                   \<and> errorSummary (stepsAfter r ! i) =
                       Some \<lparr>summaryHeading = summaryHeadingFor (length ps),
                             summaryLinks = ps\<rparr>)
              \<and> (thrown r \<noteq> None \<longrightarrow>
                   thrown r = Some (DOMException NotFoundError)
                   \<and> returned r = None
                   \<and> errorSummary (stepsAfter r ! i) = None))"
proof -
  let ?ws = "w now (ss ! i)"
  let ?ev = "ev\<lparr>defaultPrevented := True, propagationStopped := True\<rparr>"
  from handleNextButtonClick_at [OF assms(1,2,4), of w]
  obtain c2 where run: "r =
      (case showValidationError st ?ws of
         Inr s' \<Rightarrow>
           \<lparr>eventAfter = ?ev, stepsAfter = ss[i := s'], cleanupAfter = c2,
            replayed = now, deferred = later, returned = Some False, thrown = None\<rparr>
       | Inl (e, s') \<Rightarrow>
           \<lparr>eventAfter = ?ev, stepsAfter = ss[i := s'], cleanupAfter = c2,
            replayed = now, deferred = later, returned = None, thrown = Some e\<rparr>)"
    by (auto simp: assms(3,5))
  show "defaultPrevented (eventAfter r)" and "propagationStopped (eventAfter r)"
    and "replayed r = now" and "deferred r = later" and "returned r \<noteq> Some True"
    by (simp_all add: run split: sum.splits)
  show "\<forall>e. getFieldsWithErrors st ?ws = Inl e \<longrightarrow>
           thrown r = Some e \<and> returned r = None \<and> errorSummary (stepsAfter r ! i) = None"
    using assms(2)
    by (simp add: run showValidationError_def getFieldsWithErrors_summary_irrelevant Let_def)
  show "\<forall>ps. getFieldsWithErrors st ?ws = Inr ps \<longrightarrow>
           (ps = [] \<longrightarrow>
              errorSummary (stepsAfter r ! i) = None \<and> thrown r = None
              \<and> returned r = Some False)
         \<and> (ps \<noteq> [] \<longrightarrow>
              (thrown r \<noteq> None \<longleftrightarrow>
                 repositionedBar ?ws = Nested
                 \<or> (repositionedBar ?ws = Absent \<and> firstFormField ?ws = Nested))
              \<and> (thrown r = None \<longrightarrow>
                   returned r = Some False
                   \<and> errorSummary (stepsAfter r ! i) =
                       Some \<lparr>summaryHeading = summaryHeadingFor (length ps),
                             summaryLinks = ps\<rparr>)
              \<and> (thrown r \<noteq> None \<longrightarrow>
                   thrown r = Some (DOMException NotFoundError)
                   \<and> returned r = None
                   \<and> errorSummary (stepsAfter r ! i) = None))"
  proof (intro allI impI)
    fix ps
    assume ps: "getFieldsWithErrors st ?ws = Inr ps"
    note o = showValidationError_outcome [OF ps]
    show "(ps = [] \<longrightarrow>
              errorSummary (stepsAfter r ! i) = None \<and> thrown r = None
              \<and> returned r = Some False)
         \<and> (ps \<noteq> [] \<longrightarrow>
              (thrown r \<noteq> None \<longleftrightarrow>
                 repositionedBar ?ws = Nested
                 \<or> (repositionedBar ?ws = Absent \<and> firstFormField ?ws = Nested))
              \<and> (thrown r = None \<longrightarrow>
                   returned r = Some False
                   \<and> errorSummary (stepsAfter r ! i) =
                       Some \<lparr>summaryHeading = summaryHeadingFor (length ps),
                             summaryLinks = ps\<rparr>)
              \<and> (thrown r \<noteq> None \<longrightarrow>
                   thrown r = Some (DOMException NotFoundError)
                   \<and> returned r = None
                   \<and> errorSummary (stepsAfter r ! i) = None))"
    proof (cases "showValidationError st ?ws")
      case (Inr s')
      with o assms(2) show ?thesis by (auto simp: run)
    next
      case (Inl p)
      obtain e s' where p: "p = (e, s')" by (cases p)
      with Inl o assms(2) show ?thesis by (auto simp: run)
    qed
  qed
qed

text \<open>
  C2, amended: the handler works on the step of the click target, or else on the cached
  visible step; with neither it returns without touching the event. Otherwise, where the
  validation of no required field of that step throws: if \<open>validateVisibleStep\<close> throws,
  the exception escapes and nothing is changed. If validation fails, the handler prevents
  the default action and stops propagation; it replays on each required field that fails
  validation (one per checkbox or radio group) focus, blur, change and input, with a
  synthetic invalid event for checkbox and radio fields, and on a telephone field focus,
  input, change, blur, invalid and keyup, with a deferred focus and blur; it replays on the
  fields that are not required the six telephone calls, and focus, blur and change for an
  e-mail-like field and for a field with a pattern and a value; then it renders the
  summary exactly when the collected problem list is non-empty and \<open>insertBefore\<close> does not
  throw: no summary is left when the list is empty or an exception escapes. If validation
  passes, the handler leaves the event untouched, replays nothing, returns \<open>true\<close>, applies
  \<open>checkAndRemoveErrorSummary\<close> to the step and changes nothing else: it does not switch
  steps.
\<close>

theorem C2_navigation_click:
  assumes "r = handleNextButtonClick st widget ev formSteps c"
  shows "(stepToValidate ev formSteps c = None \<longrightarrow>
            eventAfter r = ev \<and> stepsAfter r = formSteps \<and> replayed r = []
            \<and> deferred r = [] \<and> returned r = None \<and> thrown r = None)
       \<and> (stepToValidate ev formSteps c = Some i \<and> i < length formSteps
            \<and> list_all (\<lambda>f. isRequiredField f \<longrightarrow>
                          \<not> isl (isFieldValid st f (stepFields (formSteps ! i))))
                 (stepFields (formSteps ! i)) \<longrightarrow>
            (\<forall>e. validateVisibleStep st formSteps = Inl e \<longrightarrow>
                eventAfter r = ev \<and> stepsAfter r = formSteps \<and> replayed r = []
                \<and> deferred r = [] \<and> returned r = None \<and> thrown r = Some e)
          \<and> (validateVisibleStep st formSteps = Inr False \<longrightarrow>
                defaultPrevented (eventAfter r) \<and> propagationStopped (eventAfter r)
                \<and> replayed r =
                    concat (map (\<lambda>f. map (Pair (uid f))
                       (if fieldType f = ''tel''
                        then [Focus, Dispatch ''input'', Dispatch ''change'', Blur,
                              Dispatch ''invalid'', Dispatch ''keyup'']
                        else [Focus, Blur, Dispatch ''change'', Dispatch ''input'']
                             @ (if fieldType f = ''checkbox'' \<or> fieldType f = ''radio''
                                then [Dispatch ''invalid''] else [])))
                      (filter (\<lambda>f. isFieldValid st f (stepFields (formSteps ! i)) = Inr False)
                         (fieldsToValidate
                            (filter isRequiredField (stepFields (formSteps ! i))) [])))
                    @ concat (map (\<lambda>f. map (Pair (uid f))
                         (if requiredAttr f \<or> ariaRequired f = Some ''true'' then []
                          else (if fieldType f = ''tel''
                                then [Focus, Dispatch ''input'', Dispatch ''change'', Blur,
                                      Dispatch ''invalid'', Dispatch ''keyup'']
                                else [])
                               @ (if isEmailLike f then [Focus, Blur, Dispatch ''change'']
                                  else [])
                               @ (if patternAttr f \<noteq> None \<and> fieldValue f \<noteq> []
                                  then [Focus, Blur, Dispatch ''change''] else [])))
                        (filter isFormControl (stepFields (formSteps ! i))))
                \<and> deferred r =
                    concat (map (\<lambda>f. map (Pair (uid f))
                       (if fieldType f = ''tel'' then [Focus, Blur] else []))
                      (filter (\<lambda>f. isFieldValid st f (stepFields (formSteps ! i)) = Inr False)
                         (fieldsToValidate
                            (filter isRequiredField (stepFields (formSteps ! i))) [])))
                \<and> returned r \<noteq> Some True
                \<and> (\<forall>e. getFieldsWithErrors st (widget (replayed r) (formSteps ! i)) = Inl e \<longrightarrow>
                      thrown r = Some e \<and> returned r = None
                      \<and> errorSummary (stepsAfter r ! i) = None)
                \<and> (\<forall>fieldsWithErrors.
                      getFieldsWithErrors st (widget (replayed r) (formSteps ! i))
                        = Inr fieldsWithErrors \<longrightarrow>
                      (fieldsWithErrors = [] \<longrightarrow>
                         errorSummary (stepsAfter r ! i) = None \<and> thrown r = None
                         \<and> returned r = Some False)
                    \<and> (fieldsWithErrors \<noteq> [] \<longrightarrow>
                         (thrown r \<noteq> None \<longleftrightarrow>
                            repositionedBar (widget (replayed r) (formSteps ! i)) = Nested
                            \<or> (repositionedBar (widget (replayed r) (formSteps ! i)) = Absent
                                \<and> firstFormField (widget (replayed r) (formSteps ! i))
                                    = Nested))
                         \<and> (thrown r = None \<longrightarrow>
                              returned r = Some False
                              \<and> errorSummary (stepsAfter r ! i) =
                                  Some \<lparr>summaryHeading =
                                          summaryHeadingFor (length fieldsWithErrors),
                                        summaryLinks = fieldsWithErrors\<rparr>)
                         \<and> (thrown r \<noteq> None \<longrightarrow>
                              thrown r = Some (DOMException NotFoundError)
                              \<and> returned r = None
                              \<and> errorSummary (stepsAfter r ! i) = None))))
          \<and> (validateVisibleStep st formSteps = Inr True \<longrightarrow>
                eventAfter r = ev \<and> replayed r = [] \<and> deferred r = []
                \<and> returned r = Some True \<and> thrown r = None
                \<and> checkAndRemoveErrorSummary st (formSteps ! i) = Inr (stepsAfter r ! i)
                \<and> stepsAfter r = formSteps[i := stepsAfter r ! i]
                \<and> map displayNone (stepsAfter r) = map displayNone formSteps))"
    (is "(?none \<longrightarrow> ?untouched) \<and> (?at \<longrightarrow> ?throws \<and> (?failing \<longrightarrow> ?blocked) \<and> (?passing \<longrightarrow> ?through))")
proof -
  have untouched: "?none \<longrightarrow> ?untouched"
  proof
    assume "?none"
    from handleNextButtonClick_no_step [OF this, of st widget]
    show ?untouched by (simp add: assms)
  qed
  have "?throws \<and> (?failing \<longrightarrow> ?blocked) \<and> (?passing \<longrightarrow> ?through)" if at: ?at
  proof -
    from at have s: "stepToValidate ev formSteps c = Some i" and i: "i < length formSteps"
      and returns: "list_all (\<lambda>f. isRequiredField f \<longrightarrow>
                          \<not> isl (isFieldValid st f (stepFields (formSteps ! i))))
                 (stepFields (formSteps ! i))"
      by simp_all
    have throws: ?throws
      using click_throws [OF s i _ assms] by blast
    have blocked: ?blocked if failing: ?failing
    proof -
      note t = triggerFieldValidations_eq [OF returns]
      note f = click_fails [OF s i failing t assms]
      show ?thesis
        unfolding f(3) f(4)
        using f(1,2,5,6,7) by (intro conjI) simp_all
    qed
    have through: ?through if passing: ?passing
    proof -
      from checkAndRemoveErrorSummary_outcome [OF returns]
      obtain s' where s': "checkAndRemoveErrorSummary st (formSteps ! i) = Inr s'" by blast
      from click_passes [OF s i passing s' assms]
      have p: "eventAfter r = ev" "replayed r = []" "deferred r = []"
        "returned r = Some True" "thrown r = None" "stepsAfter r = formSteps[i := s']"
        "map displayNone (stepsAfter r) = map displayNone formSteps"
        by blast+
      from i have "formSteps[i := s'] ! i = s'" by simp
      with p s' show ?thesis by (simp only: p)
    qed
    from throws blocked through show ?thesis by blast
  qed
  with untouched show ?thesis by blast
qed

lemma unattributed_facts:
  "validateVisibleStep st [unattributedAlertStep] = Inr False"
  "getFieldsWithErrors st unattributedAlertStep = Inr []"
  "triggerFieldValidations st unattributedAlertStep = (None, [], [])"
  by (simp_all add: validateVisibleStep_def validateStep_def computedVisible_def
      unattributedAlertStep_def blankStep_def findNavigationButton_def isNotPreviousButton_def
      hasVisibleErrors_def hasVisibleNativeErrors_def trim_def isWhiteSpace_def
      toLowerCase_def toLowerChar_def getFieldsWithErrors_def triggerFieldValidations_def)

text \<open>
  C2, as stated, fails: a step whose visible native error cannot be paired with a field
  fails validation, so the click is prevented, but the collected problem list is empty
  and no summary is rendered.
\<close>

theorem C2_no_summary_counterexample:
  "validateVisibleStep (initialSettings (\<lambda>n. [])) [unattributedAlertStep] = Inr False
   \<and> defaultPrevented (eventAfter (handleNextButtonClick (initialSettings (\<lambda>n. []))
         (\<lambda>now s. s) (clickIn 0) [unattributedAlertStep] (freshCleanup 1)))
   \<and> returned (handleNextButtonClick (initialSettings (\<lambda>n. []))
         (\<lambda>now s. s) (clickIn 0) [unattributedAlertStep] (freshCleanup 1)) = Some False
   \<and> map errorSummary (stepsAfter (handleNextButtonClick (initialSettings (\<lambda>n. []))
         (\<lambda>now s. s) (clickIn 0) [unattributedAlertStep] (freshCleanup 1))) = [None]"
proof -
  have "showValidationError (initialSettings (\<lambda>n. [])) unattributedAlertStep
      = Inr (unattributedAlertStep\<lparr>errorSummary := None, summaryPlacement := None\<rparr>)"
    by (simp add: showValidationError_def getFieldsWithErrors_summary_irrelevant
        unattributed_facts)
  then show ?thesis
    by (simp add: handleNextButtonClick_def clickIn_def unattributed_facts
        split: prod.splits)
qed

lemma contact_fields:
  "isRequiredField requiredTelField" "\<not> isGroupField requiredTelField"
  "fieldType requiredTelField = ''tel''" "fieldType requiredTextField = ''text''"
  "fieldType optionalEmailField = ''email''"
  "isFieldValid st requiredTelField container = Inr False"
  "isFormControl requiredTextField" "isFormControl requiredTelField"
  "isFormControl optionalEmailField"
  "uid requiredTextField = 4" "uid requiredTelField = 6" "uid optionalEmailField = 3"
  "requiredAttr requiredTextField" "requiredAttr requiredTelField"
  "\<not> requiredAttr optionalEmailField" "ariaRequired optionalEmailField = None"
  "isEmailLike optionalEmailField" "patternAttr optionalEmailField = None"
  "\<not> isTextarea requiredTelField"
  by (simp_all add: isRequiredField_def isFormControl_def isGroupField_def isFieldValid_def
      validateTelField_def requiredTextField_def requiredTelField_def optionalEmailField_def
      blankField_def isTextarea_def isEmailLike_def toLowerCase_def toLowerChar_def trim_def
      isWhiteSpace_def)

lemma contact_invalid: "validateVisibleStep st [contactStep] = Inr False"
  by (simp add: validateVisibleStep_def validateStep_def computedVisible_def contactStep_def
      blankStep_def findNavigationButton_def isNotPreviousButton_def hasVisibleErrors_def
      hasVisibleNativeErrors_def trim_def isWhiteSpace_def toLowerCase_def toLowerChar_def
      twoField_validity contact_fields)

lemma contact_problems:
  "getFieldsWithErrors st contactStep
     = Inr [\<lparr>problemField = requiredTextField,
             description = ''First name: Please complete this required field.''\<rparr>,
            \<lparr>problemField = requiredTelField,
             description = ''Phone: Please complete this required field.''\<rparr>,
            \<lparr>problemField = optionalEmailField,
             description = ''Email: Please complete this required field.''\<rparr>]"
  by (simp add: getFieldsWithErrors_def contactStep_def requiredTextField_def
      requiredTelField_def optionalEmailField_def blankStep_def blankField_def isTextarea_def
      isRequiredField_def isFormControl_def isGroupField_def isFieldInvalid_def
      isFieldValid_def validateTextBasedField_def validateTelField_def toLowerCase_def
      toLowerChar_def alreadyFound_def sameElement_def hasValue_def isEmailLike_def
      labelOrName_def fieldName_def trim_def isWhiteSpace_def)

lemma completed_fields:
  "isRequiredField (requiredTelField\<lparr>fieldValue := v\<rparr>)"
  "\<not> isGroupField (requiredTelField\<lparr>fieldValue := v\<rparr>)"
  "\<not> isTextarea (requiredTelField\<lparr>fieldValue := v\<rparr>)"
  "\<not> isTextarea (optionalEmailField\<lparr>fieldValue := v\<rparr>)"
  "isFieldValid st (requiredTelField\<lparr>fieldValue := ''+1 5551234567''\<rparr>) container = Inr True"
  by (simp_all add: isRequiredField_def isFormControl_def isGroupField_def isFieldValid_def
      validateTelField_def requiredTelField_def optionalEmailField_def blankField_def
      isTextarea_def toLowerCase_def toLowerChar_def trim_def isWhiteSpace_def
      testPlusDigits_def digitsUpTo_iff)

lemma completed_valid: "validateVisibleStep st [completedStep] = Inr True"
  by (simp add: validateVisibleStep_def validateStep_def computedVisible_def
      completedStep_def blankStep_def findNavigationButton_def isNotPreviousButton_def
      hasVisibleErrors_def hasVisibleNativeErrors_def trim_def isWhiteSpace_def
      toLowerCase_def toLowerChar_def twoField_validity completed_fields)

text \<open>
  The amended C2 at a failing click on the step with an empty required text input, an
  empty required telephone input and an empty optional e-mail input, and at a passing
  click on the same step filled in, which holds a summary that is not visible.
\<close>

theorem C2_navigation_click_witness:
  "validateVisibleStep (initialSettings (\<lambda>n. [])) [contactStep] = Inr False
   \<and> defaultPrevented (eventAfter (handleNextButtonClick (initialSettings (\<lambda>n. []))
         (\<lambda>now s. s) (clickIn 0) [contactStep] (freshCleanup 1)))
   \<and> replayed (handleNextButtonClick (initialSettings (\<lambda>n. []))
         (\<lambda>now s. s) (clickIn 0) [contactStep] (freshCleanup 1))
       = [(4, Focus), (4, Blur), (4, Dispatch ''change''), (4, Dispatch ''input''),
          (6, Focus), (6, Dispatch ''input''), (6, Dispatch ''change''), (6, Blur),
          (6, Dispatch ''invalid''), (6, Dispatch ''keyup''),
          (3, Focus), (3, Blur), (3, Dispatch ''change'')]
   \<and> deferred (handleNextButtonClick (initialSettings (\<lambda>n. []))
         (\<lambda>now s. s) (clickIn 0) [contactStep] (freshCleanup 1))
       = [(6, Focus), (6, Blur)]
   \<and> map (map_option (map description \<circ> summaryLinks) \<circ> errorSummary)
         (stepsAfter (handleNextButtonClick (initialSettings (\<lambda>n. []))
            (\<lambda>now s. s) (clickIn 0) [contactStep] (freshCleanup 1)))
       = [Some [''First name: Please complete this required field.'',
                ''Phone: Please complete this required field.'',
                ''Email: Please complete this required field.'']]
   \<and> validateVisibleStep (initialSettings (\<lambda>n. [])) [completedStep] = Inr True
   \<and> errorSummary completedStep \<noteq> None
   \<and> eventAfter (handleNextButtonClick (initialSettings (\<lambda>n. []))
         (\<lambda>now s. s) (clickIn 0) [completedStep] (freshCleanup 1)) = clickIn 0
   \<and> returned (handleNextButtonClick (initialSettings (\<lambda>n. []))
         (\<lambda>now s. s) (clickIn 0) [completedStep] (freshCleanup 1)) = Some True
   \<and> map errorSummary (stepsAfter (handleNextButtonClick (initialSettings (\<lambda>n. []))
         (\<lambda>now s. s) (clickIn 0) [completedStep] (freshCleanup 1))) = [None]"
proof -
  let ?st = "initialSettings (\<lambda>n. [])"
  let ?w = "\<lambda>(now :: (nat \<times> domAction) list) (s :: step). s"
  let ?r = "handleNextButtonClick ?st ?w (clickIn 0) [contactStep] (freshCleanup 1)"
  let ?q = "handleNextButtonClick ?st ?w (clickIn 0) [completedStep] (freshCleanup 1)"
  have fields: "stepFields contactStep = [requiredTextField, requiredTelField, optionalEmailField]"
    and anchors: "repositionedBar contactStep = Absent" "firstFormField contactStep = Child"
    by (simp_all add: contactStep_def blankStep_def)
  have at: "stepToValidate (clickIn 0) [contactStep] (freshCleanup 1) = Some 0
      \<and> 0 < length [contactStep]
      \<and> list_all (\<lambda>f. isRequiredField f \<longrightarrow>
                      \<not> isl (isFieldValid ?st f (stepFields ([contactStep] ! 0))))
           (stepFields ([contactStep] ! 0))"
    by (simp add: stepToValidate_def clickIn_def fields twoField_validity contact_fields)
  note failing = contact_invalid [of ?st]
  note blocked = C2_navigation_click [where r = ?r and st = ?st and widget = ?w
      and ev = "clickIn 0" and formSteps = "[contactStep]" and c = "freshCleanup 1"
      and i = 0, OF refl, THEN conjunct2, THEN mp, OF at, THEN conjunct2, THEN conjunct1,
      THEN mp, OF failing]
  from blocked have prevented: "defaultPrevented (eventAfter ?r)" by (elim conjE)
  from blocked have "replayed ?r =
                    concat (map (\<lambda>f. map (Pair (uid f))
                       (if fieldType f = ''tel''
                        then [Focus, Dispatch ''input'', Dispatch ''change'', Blur,
                              Dispatch ''invalid'', Dispatch ''keyup'']
                        else [Focus, Blur, Dispatch ''change'', Dispatch ''input'']
                             @ (if fieldType f = ''checkbox'' \<or> fieldType f = ''radio''
                                then [Dispatch ''invalid''] else [])))
                      (filter (\<lambda>f. isFieldValid ?st f (stepFields ([contactStep] ! 0)) = Inr False)
                         (fieldsToValidate
                            (filter isRequiredField (stepFields ([contactStep] ! 0))) [])))
                    @ concat (map (\<lambda>f. map (Pair (uid f))
                         (if requiredAttr f \<or> ariaRequired f = Some ''true'' then []
                          else (if fieldType f = ''tel''
                                then [Focus, Dispatch ''input'', Dispatch ''change'', Blur,
                                      Dispatch ''invalid'', Dispatch ''keyup'']
                                else [])
                               @ (if isEmailLike f then [Focus, Blur, Dispatch ''change'']
                                  else [])
                               @ (if patternAttr f \<noteq> None \<and> fieldValue f \<noteq> []
                                  then [Focus, Blur, Dispatch ''change''] else [])))
                        (filter isFormControl (stepFields ([contactStep] ! 0))))"
    by (elim conjE)
  then have replay: "replayed ?r =
      [(4, Focus), (4, Blur), (4, Dispatch ''change''), (4, Dispatch ''input''),
       (6, Focus), (6, Dispatch ''input''), (6, Dispatch ''change''), (6, Blur),
       (6, Dispatch ''invalid''), (6, Dispatch ''keyup''),
       (3, Focus), (3, Blur), (3, Dispatch ''change'')]"
    by (simp add: fields twoField_validity contact_fields)
  from blocked have "deferred ?r =
                    concat (map (\<lambda>f. map (Pair (uid f))
                       (if fieldType f = ''tel'' then [Focus, Blur] else []))
                      (filter (\<lambda>f. isFieldValid ?st f (stepFields ([contactStep] ! 0)) = Inr False)
                         (fieldsToValidate
                            (filter isRequiredField (stepFields ([contactStep] ! 0))) [])))"
    by (elim conjE)
  then have later: "deferred ?r = [(6, Focus), (6, Blur)]"
    by (simp add: fields twoField_validity contact_fields)
  let ?ps = "[\<lparr>problemField = requiredTextField,
             description = ''First name: Please complete this required field.''\<rparr>,
            \<lparr>problemField = requiredTelField,
             description = ''Phone: Please complete this required field.''\<rparr>,
            \<lparr>problemField = optionalEmailField,
             description = ''Email: Please complete this required field.''\<rparr>]"
  from blocked have "\<forall>fieldsWithErrors.
      getFieldsWithErrors ?st (?w (replayed ?r) ([contactStep] ! 0)) = Inr fieldsWithErrors \<longrightarrow>
      (fieldsWithErrors = [] \<longrightarrow>
         errorSummary (stepsAfter ?r ! 0) = None \<and> thrown ?r = None
         \<and> returned ?r = Some False)
      \<and> (fieldsWithErrors \<noteq> [] \<longrightarrow>
           (thrown ?r \<noteq> None \<longleftrightarrow>
              repositionedBar (?w (replayed ?r) ([contactStep] ! 0)) = Nested
              \<or> (repositionedBar (?w (replayed ?r) ([contactStep] ! 0)) = Absent
                  \<and> firstFormField (?w (replayed ?r) ([contactStep] ! 0)) = Nested))
           \<and> (thrown ?r = None \<longrightarrow>
                returned ?r = Some False
                \<and> errorSummary (stepsAfter ?r ! 0) =
                    Some \<lparr>summaryHeading = summaryHeadingFor (length fieldsWithErrors),
                          summaryLinks = fieldsWithErrors\<rparr>)
           \<and> (thrown ?r \<noteq> None \<longrightarrow>
                thrown ?r = Some (DOMException NotFoundError)
                \<and> returned ?r = None
                \<and> errorSummary (stepsAfter ?r ! 0) = None))"
    by (elim conjE)
  from this [THEN spec, of ?ps]
  have shown: "errorSummary (stepsAfter ?r ! 0) =
      Some \<lparr>summaryHeading = summaryHeadingFor (length ?ps), summaryLinks = ?ps\<rparr>"
    by (simp add: contact_problems anchors)
  have "length (stepsAfter ?r) = 1"
    by (simp add: handleNextButtonClick_def clickIn_def Let_def
        split: sum.splits prod.splits option.splits)
  then obtain s' where one: "stepsAfter ?r = [s']"
    by (cases "stepsAfter ?r") simp_all
  with shown have summary: "map (map_option (map description \<circ> summaryLinks) \<circ> errorSummary)
      (stepsAfter ?r)
       = [Some [''First name: Please complete this required field.'',
                ''Phone: Please complete this required field.'',
                ''Email: Please complete this required field.'']]"
    by simp
  have fields2: "stepFields completedStep
      = [requiredTextField\<lparr>fieldValue := ''Ann''\<rparr>,
         requiredTelField\<lparr>fieldValue := ''+1 5551234567''\<rparr>,
         optionalEmailField\<lparr>fieldValue := ''ann@example.org''\<rparr>]"
    and quiet2: "alerts completedStep = []"
    and present: "errorSummary completedStep \<noteq> None"
    by (simp_all add: completedStep_def blankStep_def)
  have at2: "stepToValidate (clickIn 0) [completedStep] (freshCleanup 1) = Some 0
      \<and> 0 < length [completedStep]
      \<and> list_all (\<lambda>f. isRequiredField f \<longrightarrow>
                      \<not> isl (isFieldValid ?st f (stepFields ([completedStep] ! 0))))
           (stepFields ([completedStep] ! 0))"
    by (simp add: stepToValidate_def clickIn_def fields2 twoField_validity completed_fields)
  note passing = completed_valid [of ?st]
  note through = C2_navigation_click [where r = ?q and st = ?st and widget = ?w
      and ev = "clickIn 0" and formSteps = "[completedStep]" and c = "freshCleanup 1"
      and i = 0, OF refl, THEN conjunct2, THEN mp, OF at2, THEN conjunct2, THEN conjunct2,
      THEN mp, OF passing]
  from through have untouched: "eventAfter ?q = clickIn 0"
    and ok: "returned ?q = Some True"
    and recheck: "checkAndRemoveErrorSummary ?st ([completedStep] ! 0) = Inr (stepsAfter ?q ! 0)"
    and steps: "stepsAfter ?q = [completedStep][0 := stepsAfter ?q ! 0]"
    by blast+
  have "\<not> hasVisibleNativeErrors completedStep"
    "hasEmptyRequired ?st completedStep = Inr False"
    "\<not> hasCharacterLimitErrors ?st completedStep"
    by (simp_all add: hasVisibleNativeErrors_def quiet2 hasEmptyRequired_def
        hasCharacterLimitErrors_def fields2 twoField_validity completed_fields
        isFieldInvalid_def)
  from checkAndRemoveErrorSummary_removes [OF this] recheck
  have "errorSummary (stepsAfter ?q ! 0) = None" by auto
  with steps have removed: "map errorSummary (stepsAfter ?q) = [None]"
    by (metis list.simps(8,9) list_update_code(2))
  from failing prevented replay later summary passing present untouched ok removed
  show ?thesis by (intro conjI)
qed

subsection \<open>Setup and teardown\<close>

lemma storeCleanup_initialized:
  "initializedForms (storeCleanup fid cp) = initializedForms (snd cp)"
  by (cases cp) (simp add: storeCleanup_def)

lemma listenWithSignal_initialized:
  "initializedForms (snd (listenWithSignal n ev cp)) = initializedForms (snd cp)"
  by (cases cp) (simp add: listenWithSignal_def)

lemma listenGlobal_initialized:
  "initializedForms (snd (listenGlobal n ev cp)) = initializedForms (snd cp)"
  by (cases cp) (simp add: listenGlobal_def)

lemma listenUntracked_initialized:
  "initializedForms (snd (listenUntracked n ev cp)) = initializedForms (snd cp)"
  by (cases cp) (simp add: listenUntracked_def)

lemma observeTracked_initialized:
  "initializedForms (snd (observeTracked cp)) = initializedForms (snd cp)"
  by (cases cp) (simp add: observeTracked_def)

lemma fold_initialized:
  assumes "\<And>x cp. initializedForms (snd (f x cp)) = initializedForms (snd cp)"
  shows "initializedForms (snd (fold f xs cp)) = initializedForms (snd cp)"
  by (induction xs arbitrary: cp) (simp_all add: assms)

lemmas prim_initialized = listenWithSignal_initialized listenGlobal_initialized
  listenUntracked_initialized observeTracked_initialized

lemma whenPresent_initialized:
  assumes "\<And>n cp. initializedForms (snd (f n cp)) = initializedForms (snd cp)"
  shows "initializedForms (snd (whenPresent node f cp)) = initializedForms (snd cp)"
  by (cases node) (simp_all add: whenPresent_def assms)

lemma addFieldListenersTo_initialized:
  "initializedForms (snd (addFieldListenersTo f cp)) = initializedForms (snd cp)"
  by (simp add: addFieldListenersTo_def setupTextInputCharacterLimit_def prim_initialized Let_def)

lemma addFieldListeners_initialized:
  "initializedForms (snd (addFieldListeners frm cp)) = initializedForms (snd cp)"
  by (cases cp)
     (simp add: addFieldListeners_def fold_initialized addFieldListenersTo_initialized
        split: prod.splits option.splits)

lemma addEventListeners_initialized:
  "initializedForms (snd (addEventListeners frm cp)) = initializedForms (snd cp)"
  by (simp add: addEventListeners_def Let_def addFieldListeners_initialized fold_initialized
      prim_initialized)

lemma setupPhoneField_initialized:
  "initializedForms (snd (setupPhoneField ph cp)) = initializedForms (snd cp)"
  by (simp add: setupPhoneField_def addPhoneDropdownKeyboardSupport_def
      addPhoneInputOverwriteSupport_def Let_def whenPresent_initialized fold_initialized
      prim_initialized split: option.splits)

lemma setupSingleTextarea_initialized:
  "initializedForms (snd (setupSingleTextarea t cp)) = initializedForms (snd cp)"
  by (simp add: setupSingleTextarea_def Let_def fold_initialized prim_initialized)

lemma setup_chain_initialized:
  "initializedForms (snd (fileUploadSetup frm (setupCharacterLimits frm
      (setupProgressBarRepositioning (setupDropdownAccessibility frm
        (setupPhoneFieldAccessibility frm (setupFormObserver
          (addEventListeners frm (initializeButtonState frm (c, p))))))))))
   = initializedForms p"
  by (simp add: fileUploadSetup_def setupCharacterLimits_def setupProgressBarRepositioning_def
      setupDropdownAccessibility_def setupPhoneFieldAccessibility_def setupFormObserver_def
      initializeButtonState_def fold_initialized prim_initialized
      setupSingleTextarea_initialized setupPhoneField_initialized
      addEventListeners_initialized)

lemma setupSingleForm_initialized:
  "formId frm \<in> initializedForms (setupSingleForm frm p)"
  by (simp add: setupSingleForm_def Let_def storeCleanup_initialized setup_chain_initialized
      createFormCleanup_def split: prod.splits)

text \<open>
  C3, amended: a second invocation of \<open>setupSingleForm\<close> on a form returns at the
  \<open>initializedForms\<close> guard. Nothing is torn down or replaced: the listeners, the
  observers and the bundle after the second setup are those after the first, so the one
  listener set of the first setup remains.
\<close>

theorem C3_second_setup_is_noop:
  "setupSingleForm frm (setupSingleForm frm p) = setupSingleForm frm p"
  using setupSingleForm_initialized [of frm p]
  by (simp add: setupSingleForm_def [of frm "setupSingleForm frm p"])

lemma fold_preserves:
  assumes "\<And>x cp. P cp \<Longrightarrow> P (f x cp)" and "P cp"
  shows "P (fold f xs cp)"
  using assms(2) by (induction xs arbitrary: cp) (simp_all add: assms(1))

lemma listenWithSignal_reachable:
  "reachableFromBundle cp \<Longrightarrow> reachableFromBundle (listenWithSignal n ev cp)"
  by (cases cp) (simp add: reachableFromBundle_def listenWithSignal_def)

lemma listenGlobal_reachable:
  "reachableFromBundle cp \<Longrightarrow> reachableFromBundle (listenGlobal n ev cp)"
  by (cases cp) (auto simp: reachableFromBundle_def listenGlobal_def list_all_iff)

lemma observeTracked_reachable:
  "reachableFromBundle cp \<Longrightarrow> reachableFromBundle (observeTracked cp)"
  by (cases cp) (auto simp: reachableFromBundle_def observeTracked_def list_all_iff)

lemma whenPresent_reachable:
  assumes "\<And>n cp. reachableFromBundle cp \<Longrightarrow> reachableFromBundle (f n cp)"
    and "reachableFromBundle cp"
  shows "reachableFromBundle (whenPresent node f cp)"
  using assms by (cases node) (simp_all add: whenPresent_def)

lemma initializeButtonState_reachable:
  "reachableFromBundle cp \<Longrightarrow> reachableFromBundle (initializeButtonState frm cp)"
  by (cases cp) (simp add: reachableFromBundle_def initializeButtonState_def getVisibleStep_def
      Let_def)

lemma addFieldListenersTo_reachable:
  "reachableFromBundle cp \<Longrightarrow> reachableFromBundle (addFieldListenersTo f cp)"
  by (simp add: addFieldListenersTo_def setupTextInputCharacterLimit_def
      listenWithSignal_reachable Let_def)

lemma getVisibleStep_reachable:
  "reachableFromBundle (c, p) \<Longrightarrow> reachableFromBundle (fst (getVisibleStep ss c), p)"
  by (simp add: reachableFromBundle_def getVisibleStep_def Let_def)

lemma addFieldListeners_reachable:
  assumes "reachableFromBundle cp"
  shows "reachableFromBundle (addFieldListeners frm cp)"
proof (cases cp)
  case (Pair c p)
  obtain c1 v where g: "getVisibleStep (stepsOf frm) c = (c1, v)"
    by (cases "getVisibleStep (stepsOf frm) c")
  from assms Pair have "reachableFromBundle (fst (getVisibleStep (stepsOf frm) c), p)"
    by (simp add: getVisibleStep_reachable)
  with g have r: "reachableFromBundle (c1, p)" by simp
  show ?thesis
    using Pair g r
    by (cases v) (simp_all add: addFieldListeners_def fold_preserves addFieldListenersTo_reachable)
qed

lemma addEventListeners_reachable:
  "reachableFromBundle cp \<Longrightarrow> reachableFromBundle (addEventListeners frm cp)"
  by (simp add: addEventListeners_def Let_def addFieldListeners_reachable fold_preserves
      listenWithSignal_reachable)

lemma setupPhoneField_reachable:
  "reachableFromBundle cp \<Longrightarrow> reachableFromBundle (setupPhoneField ph cp)"
  by (simp add: setupPhoneField_def addPhoneDropdownKeyboardSupport_def
      addPhoneInputOverwriteSupport_def Let_def whenPresent_reachable fold_preserves
      listenWithSignal_reachable listenGlobal_reachable split: option.splits)

lemma setupSingleTextarea_reachable:
  "reachableFromBundle cp \<Longrightarrow> reachableFromBundle (setupSingleTextarea t cp)"
  by (simp add: setupSingleTextarea_def Let_def fold_preserves listenWithSignal_reachable
      observeTracked_reachable)

text \<open>
  Every setup routine that is given the bundle keeps the invariant, and \<open>destroy()\<close>
  removes all that is reachable from the bundle.
\<close>

lemma tracked_setup_reachable:
  assumes "reachableFromBundle cp"
  shows "reachableFromBundle
    (setupCharacterLimits frm (setupProgressBarRepositioning (setupDropdownAccessibility frm
       (setupPhoneFieldAccessibility frm (setupFormObserver
          (addEventListeners frm (initializeButtonState frm cp)))))))"
  using assms
  by (simp add: setupCharacterLimits_def setupProgressBarRepositioning_def
      setupDropdownAccessibility_def setupPhoneFieldAccessibility_def setupFormObserver_def
      fold_preserves setupSingleTextarea_reachable observeTracked_reachable
      listenWithSignal_reachable setupPhoneField_reachable addEventListeners_reachable
      initializeButtonState_reachable)

lemma fold_removeEventListener:
  "set (fold removeEventListener gs ls)
     = {l \<in> set ls. (target l, eventType l, callback l) \<notin> set gs}"
  by (induction gs arbitrary: ls) (auto simp: removeEventListener_def)

lemma destroy_reverses_reachable:
  assumes "reachableFromBundle (c, p)"
  shows "attached (snd (destroy (c, p))) = [] \<and> observing (snd (destroy (c, p))) = []"
proof -
  have "set (attached (snd (destroy (c, p)))) = {}"
    using assms
    by (auto simp: destroy_def Let_def fold_removeEventListener reachableFromBundle_def
        list_all_iff)
  moreover have "observing (snd (destroy (c, p))) = []"
    using assms
    by (auto simp: destroy_def Let_def reachableFromBundle_def list_all_iff filter_empty_conv)
  ultimately show ?thesis by simp
qed

lemma untracked_not_reachable:
  assumes "\<forall>g \<in> set (globalListeners c). snd (snd g) \<noteq> nextIdentity p"
  shows "\<not> reachableFromBundle (listenUntracked n ev (c, p))"
  using assms
  by (auto simp: reachableFromBundle_def listenUntracked_def)


lemma reachable_map_irrelevant:
  "reachableFromBundle (c, p\<lparr>formCleanupMap := m\<rparr>) = reachableFromBundle (c, p)"
  by (simp add: reachableFromBundle_def)

lemma setup_without_file_inputs_reversed:
  assumes "attached p = []" and "observing p = []"
    and "formId frm \<notin> initializedForms p" and "formCleanupMap p (formId frm) = None"
    and "filter isFileInput (allFields frm) = []"
  shows "attached (destroyFormCleanup (formId frm) (setupSingleForm frm p)) = []
    \<and> observing (destroyFormCleanup (formId frm) (setupSingleForm frm p)) = []"
proof -
  define c0 where "c0 = fst (createFormCleanup (formId frm) p)"
  define p3 where "p3 = (snd (createFormCleanup (formId frm) p))
      \<lparr>initializedForms := insert (formId frm)
          (initializedForms (snd (createFormCleanup (formId frm) p)))\<rparr>"
  define cp10 where "cp10 =
    setupCharacterLimits frm (setupProgressBarRepositioning (setupDropdownAccessibility frm
       (setupPhoneFieldAccessibility frm (setupFormObserver
          (addEventListeners frm (initializeButtonState frm (c0, p3)))))))"
  have "reachableFromBundle (c0, p3)"
    using assms(1,2)
    by (simp add: reachableFromBundle_def c0_def p3_def createFormCleanup_def Let_def)
  then have r10: "reachableFromBundle cp10"
    unfolding cp10_def by (rule tracked_setup_reachable)
  have run: "setupSingleForm frm p = storeCleanup (formId frm) cp10"
    using assms(3,4,5)
    unfolding cp10_def c0_def p3_def
    by (simp add: setupSingleForm_def Let_def case_prod_beta fileUploadSetup_def)
  obtain c10 p10 where cp: "cp10 = (c10, p10)" by (cases cp10)
  have stored: "formCleanupMap (storeCleanup (formId frm) cp10) (formId frm) = Some c10"
    by (simp add: cp storeCleanup_def)
  have "reachableFromBundle (c10, storeCleanup (formId frm) cp10)"
    using r10 by (simp add: cp storeCleanup_def reachable_map_irrelevant)
  from destroy_reverses_reachable [OF this]
  show ?thesis
    by (simp add: run destroyFormCleanup_def stored)
       (simp add: storeCleanup_def case_prod_beta)
qed

lemmas setup_defs = setupSingleForm_def storeCleanup_def createFormCleanup_def
  initializeButtonState_def getVisibleStep_def addEventListeners_def addFieldListeners_def
  addFieldListenersTo_def setupTextInputCharacterLimit_def listenWithSignal_def
  listenGlobal_def listenUntracked_def observeTracked_def setupFormObserver_def
  setupPhoneFieldAccessibility_def setupDropdownAccessibility_def
  setupProgressBarRepositioning_def setupCharacterLimits_def fileUploadSetup_def allFields_def
  isFileInput_def isTextarea_def isFormControl_def isNotPreviousButton_def toLowerCase_def
  toLowerChar_def trim_def isWhiteSpace_def Let_def

lemmas upload_defs = uploadForm_def emptyPage_def blankStep_def requiredTextField_def
  sampleFileInput_def blankField_def

lemma uploadForm_attached:
  "attached (setupSingleForm uploadForm emptyPage) =
     [\<lparr>target = 100, eventType = ''click'', callback = 1001, signal = Some 1000\<rparr>,
      \<lparr>target = 4, eventType = ''input'', callback = 1002, signal = Some 1000\<rparr>,
      \<lparr>target = 4, eventType = ''input'', callback = 1003, signal = Some 1000\<rparr>,
      \<lparr>target = 4, eventType = ''change'', callback = 1004, signal = Some 1000\<rparr>,
      \<lparr>target = 4, eventType = ''blur'', callback = 1005, signal = Some 1000\<rparr>,
      \<lparr>target = 2, eventType = ''input'', callback = 1006, signal = Some 1000\<rparr>,
      \<lparr>target = 2, eventType = ''change'', callback = 1007, signal = Some 1000\<rparr>,
      \<lparr>target = 2, eventType = ''blur'', callback = 1008, signal = Some 1000\<rparr>,
      \<lparr>target = 2, eventType = ''change'', callback = 1011, signal = None\<rparr>]"
  by (simp add: setup_defs upload_defs)

lemma uploadForm_observing:
  "observing (setupSingleForm uploadForm emptyPage) = [1009, 1010]"
  by (simp add: setup_defs upload_defs)

lemma uploadForm_cleanup:
  "formCleanupMap (setupSingleForm uploadForm emptyPage) 7 =
     Some \<lparr>controllerId = 1000, aborted = False, observers = [1009, 1010],
           globalListeners = [], cachedVisibleStep = Some 0, cacheValid = True\<rparr>"
  by (simp add: setup_defs upload_defs)

text \<open>
  C4 on a form with a file input: after setup and \<open>destroy()\<close> every observer is
  disconnected and every listener registered under the signal is gone, but the \<open>change\<close>
  listener that \<open>FileUploadValidator.setup\<close> attached to the file input is still
  attached. It carries no signal and is not recorded in the bundle. The other setup
  routines keep every listener and observer reachable from the bundle
  (\<open>tracked_setup_reachable\<close>), and \<open>destroy()\<close> then leaves nothing attached
  (\<open>destroy_reverses_reachable\<close>, \<open>setup_without_file_inputs_reversed\<close>).
\<close>

theorem C4_file_listener_survives_destroy:
  "attached (destroyFormCleanup 7 (setupSingleForm uploadForm emptyPage))
     = [\<lparr>target = 2, eventType = ''change'', callback = 1011, signal = None\<rparr>]
   \<and> observing (destroyFormCleanup 7 (setupSingleForm uploadForm emptyPage)) = []"
  by (simp add: destroyFormCleanup_def uploadForm_cleanup destroy_def storeCleanup_def
      uploadForm_attached uploadForm_observing invalidateCache_def)

text \<open>
  C3, as stated, fails: after a second setup of the same form the bundle is still the one
  made by the first setup (same controller, not aborted), and the attached listeners are
  unchanged. The previous bundle is neither destroyed nor replaced.
\<close>

theorem C3_bundle_kept_counterexample:
  "map_option (\<lambda>c. (controllerId c, aborted c))
     (formCleanupMap (setupSingleForm uploadForm emptyPage) 7) = Some (1000, False)
   \<and> map_option (\<lambda>c. (controllerId c, aborted c))
     (formCleanupMap (setupSingleForm uploadForm (setupSingleForm uploadForm emptyPage)) 7)
       = Some (1000, False)
   \<and> attached (setupSingleForm uploadForm (setupSingleForm uploadForm emptyPage))
       = attached (setupSingleForm uploadForm emptyPage)"
proof -
  have "formId uploadForm \<in> initializedForms (setupSingleForm uploadForm emptyPage)"
    by (rule setupSingleForm_initialized)
  then have "setupSingleForm uploadForm (setupSingleForm uploadForm emptyPage)
      = setupSingleForm uploadForm emptyPage"
    by (simp add: setupSingleForm_def [of uploadForm "setupSingleForm uploadForm emptyPage"])
  then show ?thesis by (simp add: uploadForm_cleanup)
qed

subsection \<open>Progress-bar repositioning\<close>

lemma hasAttribute_setAttribute: "hasAttribute (setAttribute n a v d) n a"
  by (simp add: hasAttribute_def setAttribute_def)

lemma hasAttribute_classListAdd:
  "hasAttribute (classListAdd m cls d) n a = hasAttribute d n a"
  by (simp add: hasAttribute_def classListAdd_def)

lemma hasAttribute_setInlineStyle:
  "hasAttribute (setInlineStyle m prop v d) n a = hasAttribute d n a"
  by (simp add: hasAttribute_def setInlineStyle_def)

lemma hasAttribute_body: "hasAttribute (d\<lparr>body := t\<rparr>) n a = hasAttribute d n a"
  by (simp add: hasAttribute_def)

lemma hasAttribute_markRow: "hasAttribute (markRow m d) n a = hasAttribute d n a"
  by (simp add: markRow_def hasAttribute_classListAdd)

lemma hasAttribute_ensureFlexColumn:
  "hasAttribute (ensureFlexColumn m d) n a = hasAttribute d n a"
  by (simp add: ensureFlexColumn_def hasAttribute_setInlineStyle)

lemma hasAttribute_addFallbackClasses:
  "hasAttribute (addFallbackClasses t s c d) n a = hasAttribute d n a"
  by (simp add: addFallbackClasses_def hasAttribute_classListAdd)

lemma hasAttribute_findFirstFormField:
  "hasAttribute (snd (findFirstFormField ctx c d)) n a = hasAttribute d n a"
  by (simp add: findFirstFormField_def hasAttribute_markRow split: option.splits)

lemma hasAttribute_insertBefore:
  "insertBefore p new ref d = Inr d' \<Longrightarrow> hasAttribute d' n a = hasAttribute d n a"
  by (auto simp: insertBefore_def hasAttribute_def split: if_splits)

lemma hasAttribute_appendChild:
  "appendChild p new d = Inr d' \<Longrightarrow> hasAttribute d' n a = hasAttribute d n a"
  by (auto simp: appendChild_def hasAttribute_def split: if_splits)

lemma hasAttribute_insertAfter:
  "insertAfter p new ref d = Inr d' \<Longrightarrow> hasAttribute d' n a = hasAttribute d n a"
  by (auto simp: insertAfter_def hasAttribute_def split: if_splits)

lemma hasAttribute_thenAddClass:
  assumes "hasAttribute before n a"
    and "\<And>d'. r = Inr d' \<Longrightarrow> hasAttribute d' n a"
  shows "hasAttribute (documentAfter (thenAddClass m cls before r)) n a"
  using assms
  by (cases r) (auto simp: thenAddClass_def documentAfter_def hasAttribute_classListAdd)

lemma repositionProgressBar_guarded:
  assumes "hasAttribute d bar ''data-repositioned''
    \<or> closest (hasClass d ''hsfc-Step'') bar (body d) = None
    \<or> subtreeAt bar (body d) = None"
  shows "repositionProgressBar bar d = Inr d"
  using assms by (auto simp: repositionProgressBar_def split: option.splits)

lemma repositionProgressBar_marks:
  assumes "\<not> hasAttribute d bar ''data-repositioned''"
    and "closest (hasClass d ''hsfc-Step'') bar (body d) \<noteq> None"
    and "subtreeAt bar (body d) \<noteq> None"
  shows "hasAttribute (documentAfter (repositionProgressBar bar d)) bar ''data-repositioned''"
proof -
  from assms(2) obtain step where
    step: "closest (hasClass d ''hsfc-Step'') bar (body d) = Some step" by auto
  from assms(3) obtain barTree where bar: "subtreeAt bar (body d) = Some barTree" by auto
  define d1 where "d1 = setAttribute bar ''data-repositioned'' ''true'' d"
  define d2 where "d2 = d1\<lparr>body := removeNode bar (body d1)\<rparr>"
  define ctx where "ctx = (if step = bar then barTree else body d2)"
  define stepTree where
    "stepTree = (case subtreeAt step ctx of Some t \<Rightarrow> t | None \<Rightarrow> Node step [])"
  define stepContent where
    "stepContent = (case querySelector (hasClass d2 ''hsfc-Step__Content'') stepTree of
                      Some content \<Rightarrow> content | None \<Rightarrow> step)"
  define d3 where "d3 = ensureFlexColumn stepContent d2"
  define d4 where "d4 = addFallbackClasses stepTree step stepContent d3"
  define found where "found = findFirstFormField ctx stepContent d4"
  define d5 where "d5 = snd found"
  define inserted where
    "inserted = (case fst found of
                   Some ref \<Rightarrow> insertBefore stepContent barTree ref d5
                 | None \<Rightarrow> appendChild stepContent barTree d5)"
  have run: "repositionProgressBar bar d
      = thenAddClass bar ''hsfc-ProgressBar--repositioned'' d5 inserted"
    unfolding repositionProgressBar_def Let_def case_prod_beta d1_def d2_def ctx_def
      stepTree_def stepContent_def d3_def d4_def found_def d5_def inserted_def
    using assms(1) step bar by simp
  have m5: "hasAttribute d5 bar ''data-repositioned''"
    by (simp add: d5_def found_def hasAttribute_findFirstFormField d4_def
        hasAttribute_addFallbackClasses d3_def hasAttribute_ensureFlexColumn d2_def
        hasAttribute_body d1_def hasAttribute_setAttribute)
  have "hasAttribute d' bar ''data-repositioned''" if "inserted = Inr d'" for d'
    using that m5
    by (auto simp: inserted_def split: option.splits
        dest: hasAttribute_insertBefore hasAttribute_appendChild)
  with m5 show ?thesis
    unfolding run by (rule hasAttribute_thenAddClass)
qed

lemma positionProgressBar_guarded:
  assumes "hasAttribute d bar ''data-repositioned''
    \<or> closest (hasClass d ''hsfc-Step'') bar (body d) = None
    \<or> subtreeAt bar (body d) = None"
  shows "positionProgressBar bar d = Inr d"
  using assms by (auto simp: positionProgressBar_def split: option.splits)

lemma positionProgressBar_marks:
  assumes "\<not> hasAttribute d bar ''data-repositioned''"
    and "closest (hasClass d ''hsfc-Step'') bar (body d) \<noteq> None"
    and "subtreeAt bar (body d) \<noteq> None"
  shows "hasAttribute (documentAfter (positionProgressBar bar d)) bar ''data-repositioned''"
proof -
  from assms(2) obtain step where
    step: "closest (hasClass d ''hsfc-Step'') bar (body d) = Some step" by auto
  from assms(3) obtain barTree where bar: "subtreeAt bar (body d) = Some barTree" by auto
  define d1 where "d1 = setAttribute bar ''data-repositioned'' ''true'' d"
  define d2 where "d2 = d1\<lparr>body := removeNode bar (body d1)\<rparr>"
  define ctx where "ctx = (if step = bar then barTree else body d2)"
  define stepTree where
    "stepTree = (case subtreeAt step ctx of Some t \<Rightarrow> t | None \<Rightarrow> Node step [])"
  define stepContent where
    "stepContent = (case querySelector (hasClass d2 ''hsfc-Step__Content'') stepTree of
                      Some content \<Rightarrow> content | None \<Rightarrow> step)"
  define contentTree where
    "contentTree = (case subtreeAt stepContent ctx of
                      Some t \<Rightarrow> t | None \<Rightarrow> Node stepContent [])"
  define inserted where
    "inserted =
       (case querySelector (hasClass d2 ''hsfc-CustomValidationError'') contentTree of
          Some err \<Rightarrow>
            (case parentOf err ctx of
               Some parent \<Rightarrow> insertAfter parent barTree err d2
             | None \<Rightarrow> Inr d2)
        | None \<Rightarrow>
            (case querySelector (isFirstFieldCandidate d2 ctx) contentTree of
               Some ref \<Rightarrow> insertBefore stepContent barTree ref d2
             | None \<Rightarrow>
                 (case childIds stepContent ctx of
                    firstChild # rest \<Rightarrow> insertBefore stepContent barTree firstChild d2
                  | [] \<Rightarrow> appendChild stepContent barTree d2)))"
  have run: "positionProgressBar bar d
      = thenAddClass bar ''hsfc-ProgressBar--repositioned'' d2 inserted"
    unfolding positionProgressBar_def Let_def d1_def d2_def ctx_def stepTree_def
      stepContent_def contentTree_def inserted_def
    using assms(1) step bar by simp
  have m2: "hasAttribute d2 bar ''data-repositioned''"
    by (simp add: d2_def hasAttribute_body d1_def hasAttribute_setAttribute)
  have "hasAttribute d' bar ''data-repositioned''" if "inserted = Inr d'" for d'
    using that m2
    by (auto simp: inserted_def split: option.splits list.splits
        dest: hasAttribute_insertBefore hasAttribute_appendChild hasAttribute_insertAfter)
  with m2 show ?thesis
    unfolding run by (rule hasAttribute_thenAddClass)
qed

text \<open>
  C8: repositioning is idempotent. A call either returns at a guard with the document
  unchanged, or sets the marker attribute \<open>data-repositioned\<close> before it moves the bar,
  also when the insertion throws. A second call on the same bar therefore returns at the
  guard and leaves the document as the first call left it: the bar is moved at most once.
  This holds for \<open>repositionProgressBar\<close>, for the callback of
  \<open>positionElementsImmediately\<close>, and for one followed by the other.
\<close>

theorem C8_reposition_idempotent:
  "repositionProgressBar bar (documentAfter (repositionProgressBar bar d))
     = Inr (documentAfter (repositionProgressBar bar d))
   \<and> positionProgressBar bar (documentAfter (positionProgressBar bar d))
     = Inr (documentAfter (positionProgressBar bar d))
   \<and> repositionProgressBar bar (documentAfter (positionProgressBar bar d))
     = Inr (documentAfter (positionProgressBar bar d))
   \<and> positionProgressBar bar (documentAfter (repositionProgressBar bar d))
     = Inr (documentAfter (repositionProgressBar bar d))"
proof (cases "hasAttribute d bar ''data-repositioned''
    \<or> closest (hasClass d ''hsfc-Step'') bar (body d) = None
    \<or> subtreeAt bar (body d) = None")
  case True
  have "repositionProgressBar bar d = Inr d" "positionProgressBar bar d = Inr d"
    using True by (rule repositionProgressBar_guarded, rule positionProgressBar_guarded)
  then show ?thesis by (simp add: documentAfter_def)
next
  case False
  then have a: "\<not> hasAttribute d bar ''data-repositioned''"
    and b: "closest (hasClass d ''hsfc-Step'') bar (body d) \<noteq> None"
    and c: "subtreeAt bar (body d) \<noteq> None"
    by auto
  have "hasAttribute (documentAfter (repositionProgressBar bar d)) bar ''data-repositioned''"
    using a b c by (rule repositionProgressBar_marks)
  moreover
  have "hasAttribute (documentAfter (positionProgressBar bar d)) bar ''data-repositioned''"
    using a b c by (rule positionProgressBar_marks)
  ultimately show ?thesis
    by (simp add: repositionProgressBar_guarded positionProgressBar_guarded)
qed


lemma sample_reposition:
  "body (documentAfter (repositionProgressBar 9 sampleDocument))
     = Node 1 [Node 2 [Node 3 [Node 4 [Node 5 [], Node 9 [], Node 6 [Node 7 []]],
                               Node 8 []]]]"
  by (simp add: repositionProgressBar_def sampleDocument_def sampleElements_def
      hasAttribute_def closest_def hasClass_def setAttribute_def querySelector_def
      ensureFlexColumn_def computedDisplay_def setInlineStyle_def addFallbackClasses_def
      findFirstFormField_def querySelectorAll_def isFieldContainer_def hasDescendant_def
      isFormInput_def toLowerCase_def toLowerChar_def markRow_def classListAdd_def
      insertBefore_def childIds_def thenAddClass_def documentAfter_def Let_def)

text \<open>
  C8 on the sample document: the first call moves the bar from the footer to the place
  before the first row of the step content, and the second call changes nothing.
\<close>

theorem C8_reposition_idempotent_witness:
  "body (documentAfter (repositionProgressBar 9 sampleDocument))
     = Node 1 [Node 2 [Node 3 [Node 4 [Node 5 [], Node 9 [], Node 6 [Node 7 []]],
                               Node 8 []]]]
   \<and> map_sum (\<lambda>(e, d). (e, body d)) body
        (repositionProgressBar 9 (documentAfter (repositionProgressBar 9 sampleDocument)))
     = Inr (Node 1 [Node 2 [Node 3 [Node 4 [Node 5 [], Node 9 [], Node 6 [Node 7 []]],
                                    Node 8 []]]])"
  using C8_reposition_idempotent [of 9 sampleDocument]
  by (simp add: sample_reposition)

end
